theory Spec2Isabelle
  imports Complex_Main "HOL-Library.Word" "HOL-Library.Product_Lexorder"
begin

unbundle bit_operations_syntax

section \<open>Tile accelerator renderer (guest/pvr/tr.c): data model\<close>

text \<open>
  Conventions of the embedding.
  \<^item> A C \<^verbatim>\<open>int\<close> is an \<^typ>\<open>int\<close>: every counter of the renderer is bounded by a
    capacity check of the source, so no claim depends on 32-bit wrap-around.
  \<^item> A coordinate (\<^verbatim>\<open>xyz\<close>, \<^verbatim>\<open>uv\<close>, a depth) is a binary32 value with its infinities
    and NaN, and the arithmetic and the comparisons on coordinates are those of binary32
    (section "Binary32 values").
  \<^item> A colour component or an intensity, a \<^verbatim>\<open>float\<close> that the program only passes to
    \<^verbatim>\<open>ftou8\<close>, is a \<^typ>\<open>real\<close>; a conversion from float to \<^verbatim>\<open>int32_t\<close> whose value
    does not fit is undefined in C and is an error value here.
  \<^item> A C array is a total map from its index (\<^typ>\<open>int \<Rightarrow> 'a\<close>); the capacity checks
    of the source (\<^verbatim>\<open>CHECK_LT\<close>) are branches of the model.
  \<^item> \<^verbatim>\<open>CHECK\<close>, \<^verbatim>\<open>LOG_FATAL\<close> and undefined behaviour end a run with an error value.
  \<^item> A pointer into an array of the render context is the index it points at.
\<close>

type_synonym u8 = "8 word"
type_synonym u16 = "16 word"
type_synonym u32 = "32 word"
subsection \<open>Binary32 values\<close>

text \<open>
  The value of a C \<^verbatim>\<open>float\<close>: a finite number, an infinity or a NaN. The two zeros
  are the one value \<open>Finite 0\<close>: the program compares floats only with \<^verbatim>\<open>==\<close>, \<^verbatim>\<open><\<close> and
  \<^verbatim>\<open><=\<close>, which do not tell the zeros apart, and divides only by a value it has found to
  be nonzero. Every real is a finite value of the type; the values that the arithmetic
  returns are the rounded ones. All NaNs are one value.
\<close>

datatype f32 = Finite real | PInf | MInf | NaN

text \<open>The nearest integer, a tie going to the even one.\<close>

definition round_even :: "real \<Rightarrow> int" where
  "round_even y =
     (let f = \<lfloor>y\<rfloor>; d = y - of_int f
      in if d < 1 / 2 then f else if 1 / 2 < d then f + 1 else if even f then f else f + 1)"

text \<open>The exponent \<open>e\<close> with \<open>2 ^ e \<le> |x| < 2 ^ (e + 1)\<close> of a nonzero \<open>x\<close>, and \<open>-126\<close> for
  the subnormal range.\<close>

definition binade :: "real \<Rightarrow> int" where
  "binade x = max (- 126) \<lfloor>log 2 \<bar>x\<bar>\<rfloor>"

text \<open>Rounding to binary32, to nearest with ties to even: a significand of 24 bits, the
  least quantum \<open>2 ^ -149\<close>, and an infinity when the rounded magnitude reaches \<open>2 ^ 128\<close>.\<close>

definition round32 :: "real \<Rightarrow> f32" where
  "round32 x =
     (if x = 0 then Finite 0
      else
        (let q = 2 powr of_int (binade x - 23);
             r = of_int (round_even (x / q)) * q
         in if 2 ^ 128 \<le> \<bar>r\<bar> then (if 0 < x then PInf else MInf) else Finite r))"

definition fsign :: "f32 \<Rightarrow> int" where
  "fsign a = (case a of Finite x \<Rightarrow> (if 0 < x then 1 else if x < 0 then - 1 else 0)
              | PInf \<Rightarrow> 1 | MInf \<Rightarrow> - 1 | NaN \<Rightarrow> 0)"

definition inf_of :: "int \<Rightarrow> f32" where
  "inf_of s = (if 0 < s then PInf else MInf)"

definition fneg :: "f32 \<Rightarrow> f32" where
  "fneg a = (case a of Finite x \<Rightarrow> Finite (- x) | PInf \<Rightarrow> MInf | MInf \<Rightarrow> PInf | NaN \<Rightarrow> NaN)"

text \<open>The operations \<^verbatim>\<open>+\<close>, \<^verbatim>\<open>-\<close>, \<^verbatim>\<open>*\<close>, \<^verbatim>\<open>/\<close> and \<^verbatim>\<open>sqrtf\<close> on floats: the exact result
  rounded, each operation on its own. A division by zero, which the program does not
  reach, takes the zero as positive.\<close>

fun fadd :: "f32 \<Rightarrow> f32 \<Rightarrow> f32" where
  "fadd NaN b = NaN"
| "fadd a NaN = NaN"
| "fadd (Finite x) (Finite y) = round32 (x + y)"
| "fadd (Finite x) b = b"
| "fadd a (Finite y) = a"
| "fadd PInf PInf = PInf"
| "fadd MInf MInf = MInf"
| "fadd PInf MInf = NaN"
| "fadd MInf PInf = NaN"

definition fsub :: "f32 \<Rightarrow> f32 \<Rightarrow> f32" where
  "fsub a b = fadd a (fneg b)"

fun fmul :: "f32 \<Rightarrow> f32 \<Rightarrow> f32" where
  "fmul NaN b = NaN"
| "fmul a NaN = NaN"
| "fmul (Finite x) (Finite y) = round32 (x * y)"
| "fmul a b = (if fsign a * fsign b = 0 then NaN else inf_of (fsign a * fsign b))"

fun fdiv :: "f32 \<Rightarrow> f32 \<Rightarrow> f32" where
  "fdiv NaN b = NaN"
| "fdiv a NaN = NaN"
| "fdiv (Finite x) (Finite y) =
     (if y = 0 then (if x = 0 then NaN else inf_of (fsign (Finite x))) else round32 (x / y))"
| "fdiv (Finite x) b = Finite 0"
| "fdiv a (Finite y) = inf_of (fsign a * (if y < 0 then - 1 else 1))"
| "fdiv a b = NaN"

fun fsqrt :: "f32 \<Rightarrow> f32" where
  "fsqrt (Finite x) = (if x < 0 then NaN else round32 (sqrt x))"
| "fsqrt PInf = PInf"
| "fsqrt MInf = NaN"
| "fsqrt NaN = NaN"

text \<open>The comparisons \<^verbatim>\<open><\<close> and \<^verbatim>\<open><=\<close> on floats: false when an operand is a NaN. The
  comparison \<^verbatim>\<open>==\<close> with a number is equality of values, which a NaN does not satisfy.\<close>

fun flt :: "f32 \<Rightarrow> f32 \<Rightarrow> bool" where
  "flt NaN b = False"
| "flt a NaN = False"
| "flt (Finite x) (Finite y) = (x < y)"
| "flt a MInf = False"
| "flt MInf b = True"
| "flt PInf b = False"
| "flt a PInf = True"

fun fle :: "f32 \<Rightarrow> f32 \<Rightarrow> bool" where
  "fle NaN b = False"
| "fle a NaN = False"
| "fle (Finite x) (Finite y) = (x \<le> y)"
| "fle MInf b = True"
| "fle a PInf = True"
| "fle PInf b = False"
| "fle a MInf = False"

type_synonym vec2 = "f32 \<times> f32"
type_synonym vec3 = "f32 \<times> f32 \<times> f32"

text \<open>A \<^verbatim>\<open>uint8_t[4]\<close> colour, bytes 0 to 3. A vertex's \<^verbatim>\<open>uint32_t\<close> colour is
  always written and copied through this byte view, so it is modelled by its four bytes.\<close>
type_synonym color4 = "u8 \<times> u8 \<times> u8 \<times> u8"

text \<open>Four floats of a parameter, the fields \<^verbatim>\<open>color_r\<close>, \<^verbatim>\<open>color_g\<close>,
  \<^verbatim>\<open>color_b\<close>, \<^verbatim>\<open>color_a\<close> in this order.\<close>
type_synonym fcolor = "real \<times> real \<times> real \<times> real"

datatype error =
  CheckFailed   \<comment> \<open>a \<^verbatim>\<open>CHECK\<close>, \<^verbatim>\<open>CHECK_LT\<close>, \<^verbatim>\<open>CHECK_EQ\<close> or \<^verbatim>\<open>CHECK_NOTNULL\<close> that fails\<close>
| LogFatal      \<comment> \<open>\<^verbatim>\<open>LOG_FATAL\<close>\<close>
| Undefined     \<comment> \<open>undefined behaviour of C\<close>

subsection \<open>Enumerations of the render backend\<close>

text \<open>The enumerators are declared in the backend's header; the first one of each type is
  the value a \<^verbatim>\<open>memset\<close> to zero leaves in a field.\<close>

datatype depth_func =
  DEPTH_NONE | DEPTH_NEVER | DEPTH_LESS | DEPTH_EQUAL | DEPTH_LEQUAL
| DEPTH_GREATER | DEPTH_NEQUAL | DEPTH_GEQUAL | DEPTH_ALWAYS

datatype cull_face = CULL_NONE | CULL_FRONT | CULL_BACK

datatype blend_func =
  BLEND_NONE | BLEND_ZERO | BLEND_ONE
| BLEND_SRC_COLOR | BLEND_ONE_MINUS_SRC_COLOR
| BLEND_SRC_ALPHA | BLEND_ONE_MINUS_SRC_ALPHA
| BLEND_DST_ALPHA | BLEND_ONE_MINUS_DST_ALPHA
| BLEND_DST_COLOR | BLEND_ONE_MINUS_DST_COLOR

datatype shade_mode = SHADE_DECAL | SHADE_MODULATE | SHADE_DECAL_ALPHA | SHADE_MODULATE_ALPHA

datatype filter_mode = FILTER_NEAREST | FILTER_BILINEAR

datatype wrap_mode = WRAP_REPEAT | WRAP_CLAMP_TO_EDGE | WRAP_MIRRORED_REPEAT

subsection \<open>Constants of the front-end\<close>

text \<open>Modelled from the spec: the list kinds of \<^verbatim>\<open>ta_types.h\<close> (not among the sources),
  in the order section 3 of the specification lists them, with \<^verbatim>\<open>TA_NUM_LISTS\<close> the
  value that stands for "no list".\<close>

definition TA_LIST_OPAQUE :: int where "TA_LIST_OPAQUE = 0"
definition TA_LIST_OPAQUE_MODVOL :: int where "TA_LIST_OPAQUE_MODVOL = 1"
definition TA_LIST_TRANSLUCENT :: int where "TA_LIST_TRANSLUCENT = 2"
definition TA_LIST_TRANSLUCENT_MODVOL :: int where "TA_LIST_TRANSLUCENT_MODVOL = 3"
definition TA_LIST_PUNCH_THROUGH :: int where "TA_LIST_PUNCH_THROUGH = 4"
definition TA_NUM_LISTS :: int where "TA_NUM_LISTS = 5"

text \<open>Modelled from the spec: the parameter tags of \<^verbatim>\<open>ta_types.h\<close> (a 3-bit field of
  the parameter control word) and the number of vertex types, which stands for
  "no vertex type".\<close>

definition TA_PARAM_END_OF_LIST :: int where "TA_PARAM_END_OF_LIST = 0"
definition TA_PARAM_USER_TILE_CLIP :: int where "TA_PARAM_USER_TILE_CLIP = 1"
definition TA_PARAM_OBJ_LIST_SET :: int where "TA_PARAM_OBJ_LIST_SET = 2"
definition TA_PARAM_POLY_OR_VOL :: int where "TA_PARAM_POLY_OR_VOL = 4"
definition TA_PARAM_SPRITE :: int where "TA_PARAM_SPRITE = 5"
definition TA_PARAM_VERTEX :: int where "TA_PARAM_VERTEX = 7"
definition TA_NUM_VERTS :: int where "TA_NUM_VERTS = 18"

lemmas ta_list_defs =
  TA_LIST_OPAQUE_def TA_LIST_OPAQUE_MODVOL_def TA_LIST_TRANSLUCENT_def
  TA_LIST_TRANSLUCENT_MODVOL_def TA_LIST_PUNCH_THROUGH_def TA_NUM_LISTS_def

lemmas ta_param_defs =
  TA_PARAM_END_OF_LIST_def TA_PARAM_USER_TILE_CLIP_def TA_PARAM_OBJ_LIST_SET_def
  TA_PARAM_POLY_OR_VOL_def TA_PARAM_SPRITE_def TA_PARAM_VERTEX_def TA_NUM_VERTS_def

subsection \<open>Register words of a parameter\<close>

text \<open>The bit-field unions \<^verbatim>\<open>pcw\<close>, \<^verbatim>\<open>isp\<close>, \<^verbatim>\<open>tsp\<close> and \<^verbatim>\<open>tcw\<close> are declared by the
  front-end. Each is a record of the fields the renderer reads, at the width of the
  translation table the field indexes, and the whole word (\<^verbatim>\<open>full\<close>) for the functions of
  the front-end that read other bits.\<close>

record pcw =
  pcw_uv_16bit :: bool
  pcw_gouraud :: bool
  pcw_offset :: bool
  pcw_texture :: bool
  pcw_list_type :: int
  pcw_para_type :: int
  pcw_end_of_strip :: bool
  pcw_full :: u32

record isp =
  isp_texture :: bool
  isp_offset :: bool
  isp_culling_mode :: "2 word"
  isp_z_write_disable :: bool
  isp_depth_compare_mode :: "3 word"

record tsp =
  tsp_filter_mode :: "2 word"
  tsp_clamp_u :: bool
  tsp_clamp_v :: bool
  tsp_flip_u :: bool
  tsp_flip_v :: bool
  tsp_texture_shading_instr :: "2 word"
  tsp_ignore_tex_alpha :: bool
  tsp_use_alpha :: bool
  tsp_dst_alpha_instr :: "3 word"
  tsp_src_alpha_instr :: "3 word"
  tsp_full :: u32

record tcw =
  tcw_pixel_fmt :: "3 word"
  tcw_full :: u32

subsection \<open>Parameters of the stream\<close>

text \<open>\<^verbatim>\<open>union poly_param\<close>: every member starts with the four register words
  (\<^verbatim>\<open>type0\<close>); the record holds each member's further fields the renderer reads.\<close>

record poly_param =
  type0_pcw :: pcw
  type0_isp :: isp
  type0_tsp :: tsp
  type0_tcw :: tcw
  type1_face_color :: fcolor
  type2_face_color :: fcolor
  type2_face_offset_color :: fcolor
  sprite_param_base_color :: u32
  sprite_param_offset_color :: u32

text \<open>\<^verbatim>\<open>union vert_param\<close>: one group of fields per member. The renderer reads the
  member its current vertex type selects.\<close>

record vert_type0 =
  v0_xyz :: vec3
  v0_base_color :: u32

record vert_type1 =
  v1_xyz :: vec3
  v1_base_color :: fcolor

record vert_type2 =
  v2_xyz :: vec3
  v2_base_intensity :: real

record vert_type3 =
  v3_xyz :: vec3
  v3_uv :: vec2
  v3_base_color :: u32
  v3_offset_color :: u32

record vert_type4 =
  v4_xyz :: vec3
  v4_uv :: "u16 \<times> u16"
  v4_base_color :: u32
  v4_offset_color :: u32

record vert_type5 =
  v5_xyz :: vec3
  v5_uv :: vec2
  v5_base_color :: fcolor
  v5_offset_color :: fcolor

record vert_type6 =
  v6_xyz :: vec3
  v6_uv :: "u16 \<times> u16"
  v6_base_color :: fcolor
  v6_offset_color :: fcolor

record vert_type7 =
  v7_xyz :: vec3
  v7_uv :: vec2
  v7_base_intensity :: real
  v7_offset_intensity :: real

record vert_type8 =
  v8_xyz :: vec3
  v8_uv :: "u16 \<times> u16"
  v8_base_intensity :: real
  v8_offset_intensity :: real

text \<open>The sprite member: four positions (of the fourth only x and y are read) and three
  16-bit texture coordinate pairs.\<close>

record vert_sprite1 =
  sprite1_xyz :: "nat \<Rightarrow> vec3"
  sprite1_uv :: "nat \<Rightarrow> u16 \<times> u16"

record vert_param =
  vp_pcw :: pcw
  vp_type0 :: vert_type0
  vp_type1 :: vert_type1
  vp_type2 :: vert_type2
  vp_type3 :: vert_type3
  vp_type4 :: vert_type4
  vp_type5 :: vert_type5
  vp_type6 :: vert_type6
  vp_type7 :: vert_type7
  vp_type8 :: vert_type8
  vp_sprite1 :: vert_sprite1

text \<open>What stands at a byte offset of the parameter buffer: the control word at that
  offset, and the bytes read as a polygon and as a vertex parameter.\<close>

record ta_param =
  param_pcw :: pcw
  param_poly :: poly_param
  param_vert :: vert_param

subsection \<open>The render context\<close>

record surf_params =
  texture :: nat
  depth_write :: bool
  depth_func :: depth_func
  cull :: cull_face
  src_blend :: blend_func
  dst_blend :: blend_func
  shade :: shade_mode
  ignore_alpha :: bool
  ignore_texture_alpha :: bool
  offset_color :: bool
  alpha_test :: bool
  alpha_ref :: u8

record ta_surface =
  params :: surf_params
  first_vert :: int
  num_verts :: int
  strip_offset :: int

record ta_vertex =
  xyz :: vec3
  uv :: vec2
  color :: color4
  vert_offset_color :: color4

record tr_list =
  surfs :: "int \<Rightarrow> int"
  num_surfs :: int
  num_orig_surfs :: int

record tr_param =
  rp_offset :: int
  rp_list_type :: int
  rp_vert_type :: int
  rp_last_surf :: int
  rp_last_vert :: int

text \<open>\<^verbatim>\<open>struct tr_context\<close>; its fields carry the prefix of the variable \<^verbatim>\<open>rc\<close> that
  always holds it in the source.\<close>

record tr_context =
  rc_width :: int
  rc_height :: int
  rc_lists :: "int \<Rightarrow> tr_list"
  rc_params :: "int \<Rightarrow> tr_param"
  rc_num_params :: int
  rc_surfs :: "int \<Rightarrow> ta_surface"
  rc_num_surfs :: int
  rc_verts :: "int \<Rightarrow> ta_vertex"
  rc_num_verts :: int
  rc_indices :: "int \<Rightarrow> int"
  rc_num_indices :: int

subsection \<open>Texture cache and render backend\<close>

record tr_texture =
  tex_handle :: nat
  tex_dirty :: bool
  tex_palette :: "u8 list"
  tex_texture :: "u8 list"
  tex_filter :: filter_mode
  tex_wrap_u :: wrap_mode
  tex_wrap_v :: wrap_mode
  tex_format :: int
  tex_width :: int
  tex_height :: int

text \<open>The render backend is the log of the calls made to it.\<close>

datatype backend_call =
  R_destroy_texture nat
| R_create_texture filter_mode wrap_mode wrap_mode int int int "u8 list"
| R_begin_ta_surfaces int int "int \<Rightarrow> ta_vertex" int "int \<Rightarrow> int" int
| R_draw_ta_surface int
| R_end_ta_surfaces

type_synonym render_backend = "backend_call list"

text \<open>Modelled from the spec: the cache behind the callback \<^verbatim>\<open>find_texture\<close> (section
  4.5: an entry keyed by the pair of register words, absent where the callback returns
  null).\<close>
type_synonym texture_cache = "u32 \<times> u32 \<Rightarrow> tr_texture option"

subsection \<open>The input context and the renderer's state\<close>

text \<open>\<^verbatim>\<open>struct ta_context\<close>. The parameter buffer is read through \<open>ctx_params\<close>, the
  background vertex bytes as floats and as 32-bit words at a byte offset.\<close>

record ta_context =
  ctx_autosort :: bool
  ctx_stride :: int
  ctx_palette_fmt :: int
  ctx_video_width :: int
  ctx_video_height :: int
  ctx_alpha_ref :: u8
  ctx_bg_isp :: isp
  ctx_bg_tsp :: tsp
  ctx_bg_tcw :: tcw
  ctx_bg_vertices_f32 :: "int \<Rightarrow> f32"
  ctx_bg_vertices_u32 :: "int \<Rightarrow> u32"
  ctx_params :: "int \<Rightarrow> ta_param"
  ctx_size :: int

record tr =
  tr_r :: render_backend
  tr_userdata :: texture_cache
  last_vertex :: "vert_param option"
  list_type :: int
  vert_type :: int
  face_color :: color4
  face_offset_color :: color4
  sprite_color :: color4
  sprite_offset_color :: color4

text \<open>What the renderer takes from headers and collaborators that are not among the
  sources: the capacities of the render context's arrays, the front-end's decoding of a
  control word, the reading of 32 bits as a float, and the texture decoder and backend.\<close>

record env =
  TR_MAX_SURFS :: int
  TR_MAX_VERTS :: int
  TR_MAX_INDICES :: int
  ta_poly_type :: "pcw \<Rightarrow> int"
  ta_vert_type :: "pcw \<Rightarrow> int"
  ta_param_size :: "pcw \<Rightarrow> int \<Rightarrow> int"
  ta_pcw_list_type_valid :: "pcw \<Rightarrow> int \<Rightarrow> bool"
  float_of_bits :: "u32 \<Rightarrow> f32"
  ta_texture_format :: "tcw \<Rightarrow> int"
  ta_texture_mipmaps :: "tcw \<Rightarrow> int"
  ta_texture_width :: "tsp \<Rightarrow> tcw \<Rightarrow> int"
  ta_texture_height :: "tsp \<Rightarrow> tcw \<Rightarrow> int"
  ta_texture_stride :: "tsp \<Rightarrow> tcw \<Rightarrow> int \<Rightarrow> int"
  pvr_tex_decode :: "u8 list \<Rightarrow> int \<Rightarrow> int \<Rightarrow> int \<Rightarrow> int \<Rightarrow> 3 word \<Rightarrow> u8 list \<Rightarrow> int \<Rightarrow> u8 list"
  r_create_texture_handle :: "render_backend \<Rightarrow> nat"

section \<open>Operations\<close>

subsection \<open>Sequencing of fallible steps\<close>

definition ebind :: "error + 'a \<Rightarrow> ('a \<Rightarrow> error + 'b) \<Rightarrow> error + 'b" where
  "ebind m f = (case m of Inl err \<Rightarrow> Inl err | Inr x \<Rightarrow> f x)"

lemma ebind_simps [simp]:
  "ebind (Inl err) f = Inl err"
  "ebind (Inr x) f = f x"
  by (simp_all add: ebind_def)

lemma ebind_cong [fundef_cong]:
  "m = m' \<Longrightarrow> (\<And>x. m' = Inr x \<Longrightarrow> f x = f' x) \<Longrightarrow> ebind m f = ebind m' f'"
  by (cases m') (simp_all add: ebind_def)

lemma ebind_InrE:
  assumes "ebind m f = Inr y"
  obtains x where "m = Inr x" and "f x = Inr y"
  using assms by (cases m) simp_all

text \<open>Evaluation of the model at a concrete input goes call by value: the bound term of
  a \<open>let\<close> and the first argument of \<^const>\<open>ebind\<close> are evaluated before the rest.\<close>

lemma ebind_weak_cong: "m = m' \<Longrightarrow> ebind m f = ebind m' f"
  by simp

subsection \<open>Translation tables\<close>

text \<open>Each function indexes a static table by a bit field of a register word; the
  argument has the width of the field, so the index is always inside the table.\<close>

definition translate_depth_func :: "3 word \<Rightarrow> depth_func" where
  "translate_depth_func i =
     [DEPTH_NEVER, DEPTH_GREATER, DEPTH_EQUAL, DEPTH_GEQUAL,
      DEPTH_LESS, DEPTH_NEQUAL, DEPTH_LEQUAL, DEPTH_ALWAYS] ! unat i"

definition translate_cull :: "2 word \<Rightarrow> cull_face" where
  "translate_cull i = [CULL_NONE, CULL_NONE, CULL_BACK, CULL_FRONT] ! unat i"

definition translate_src_blend_func :: "3 word \<Rightarrow> blend_func" where
  "translate_src_blend_func i =
     [BLEND_ZERO, BLEND_ONE,
      BLEND_DST_COLOR, BLEND_ONE_MINUS_DST_COLOR,
      BLEND_SRC_ALPHA, BLEND_ONE_MINUS_SRC_ALPHA,
      BLEND_DST_ALPHA, BLEND_ONE_MINUS_DST_ALPHA] ! unat i"

definition translate_dst_blend_func :: "3 word \<Rightarrow> blend_func" where
  "translate_dst_blend_func i =
     [BLEND_ZERO, BLEND_ONE,
      BLEND_SRC_COLOR, BLEND_ONE_MINUS_SRC_COLOR,
      BLEND_SRC_ALPHA, BLEND_ONE_MINUS_SRC_ALPHA,
      BLEND_DST_ALPHA, BLEND_ONE_MINUS_DST_ALPHA] ! unat i"

definition translate_shade_mode :: "2 word \<Rightarrow> shade_mode" where
  "translate_shade_mode i =
     [SHADE_DECAL, SHADE_MODULATE, SHADE_DECAL_ALPHA, SHADE_MODULATE_ALPHA] ! unat i"

subsection \<open>Polygon parsing helpers\<close>

text \<open>The cast \<^verbatim>\<open>(int32_t)x\<close> of a float: the value truncated toward zero, undefined
  when that is not a value of \<^verbatim>\<open>int32_t\<close>.\<close>

definition trunc_toward_zero :: "real \<Rightarrow> int" where
  "trunc_toward_zero x = (if 0 \<le> x then \<lfloor>x\<rfloor> else \<lceil>x\<rceil>)"

definition cast_int32 :: "real \<Rightarrow> int option" where
  "cast_int32 x =
     (let t = trunc_toward_zero x
      in if - (2 ^ 31) \<le> t \<and> t < 2 ^ 31 then Some t else None)"

text \<open>\<^verbatim>\<open>MIN(MAX((int32_t)(x * 255.0f), 0), 255)\<close>, returned as a byte.\<close>

definition ftou8 :: "real \<Rightarrow> u8 option" where
  "ftou8 x = map_option (\<lambda>i. word_of_int (min (max i 0) 255)) (cast_int32 (x * 255))"

definition fmulu8 :: "u8 \<Rightarrow> u8 \<Rightarrow> u8" where
  "fmulu8 a b = ucast (((ucast a :: u32) * (ucast b :: u32)) div 255)"

text \<open>\<^verbatim>\<open>PARSE_UV16\<close>: each 16-bit half is shifted into the high bits of a word that is
  read as a float; the second half goes first.\<close>

definition PARSE_UV16 :: "env \<Rightarrow> u16 \<times> u16 \<Rightarrow> vec2" where
  "PARSE_UV16 e uv16 =
     (let u = push_bit 16 (ucast (snd uv16) :: u32);
          v = push_bit 16 (ucast (fst uv16) :: u32)
      in (float_of_bits e u, float_of_bits e v))"

definition PARSE_FLOAT_COLOR :: "fcolor \<Rightarrow> color4 option" where
  "PARSE_FLOAT_COLOR c =
     (case c of (color_r, color_g, color_b, color_a) \<Rightarrow>
        (case (ftou8 color_r, ftou8 color_g, ftou8 color_b, ftou8 color_a) of
           (Some r, Some g, Some b, Some a) \<Rightarrow> Some (r, g, b, a)
         | _ \<Rightarrow> None))"

definition PARSE_PACKED_COLOR :: "u32 \<Rightarrow> color4" where
  "PARSE_PACKED_COLOR c =
     (ucast (drop_bit 16 (c AND 0x00ff0000)),
      ucast (drop_bit 8 (c AND 0x0000ff00)),
      ucast (c AND 0x000000ff),
      ucast (drop_bit 24 (c AND 0xff000000)))"

definition PARSE_INTENSITY :: "color4 \<Rightarrow> real \<Rightarrow> color4 option" where
  "PARSE_INTENSITY c intensity =
     (case c of (c0, c1, c2, c3) \<Rightarrow>
        (case ftou8 intensity of
           None \<Rightarrow> None
         | Some i \<Rightarrow> Some (fmulu8 c0 i, fmulu8 c1 i, fmulu8 c2 i, c3)))"

text \<open>The packed layout \<^verbatim>\<open>0xAARRGGBB\<close> written from the byte array \<open>[R, G, B, A]\<close>:
  the inverse direction of \<^const>\<open>PARSE_PACKED_COLOR\<close>, stated from the specification
  (the source has no such function).\<close>

definition serialize_argb :: "color4 \<Rightarrow> u32" where
  "serialize_argb c =
     (case c of (r, g, b, a) \<Rightarrow>
        push_bit 24 (ucast a) OR push_bit 16 (ucast r) OR push_bit 8 (ucast g) OR ucast b)"

subsection \<open>Vector helpers\<close>

text \<open>Modelled from the spec: the helpers of \<^verbatim>\<open>core/math.h\<close> (not among the sources),
  as section 4.2 and 4.4 of the specification use them: componentwise difference and sum,
  cross and dot product, and a normalisation that returns the Euclidean length and
  divides a vector of nonzero length by it. They work on floats: every product, sum,
  difference, quotient and square root is rounded on its own, a sum of three terms from
  the left.\<close>

definition vec3_sub :: "vec3 \<Rightarrow> vec3 \<Rightarrow> vec3" where
  "vec3_sub a b =
     (case (a, b) of ((a0, a1, a2), (b0, b1, b2)) \<Rightarrow> (fsub a0 b0, fsub a1 b1, fsub a2 b2))"

definition vec3_add :: "vec3 \<Rightarrow> vec3 \<Rightarrow> vec3" where
  "vec3_add a b =
     (case (a, b) of ((a0, a1, a2), (b0, b1, b2)) \<Rightarrow> (fadd a0 b0, fadd a1 b1, fadd a2 b2))"

definition vec2_sub :: "vec2 \<Rightarrow> vec2 \<Rightarrow> vec2" where
  "vec2_sub a b = (fsub (fst a) (fst b), fsub (snd a) (snd b))"

definition vec2_add :: "vec2 \<Rightarrow> vec2 \<Rightarrow> vec2" where
  "vec2_add a b = (fadd (fst a) (fst b), fadd (snd a) (snd b))"

definition vec3_cross :: "vec3 \<Rightarrow> vec3 \<Rightarrow> vec3" where
  "vec3_cross a b =
     (case (a, b) of ((a0, a1, a2), (b0, b1, b2)) \<Rightarrow>
        (fsub (fmul a1 b2) (fmul a2 b1),
         fsub (fmul a2 b0) (fmul a0 b2),
         fsub (fmul a0 b1) (fmul a1 b0)))"

definition vec3_dot :: "vec3 \<Rightarrow> vec3 \<Rightarrow> f32" where
  "vec3_dot a b =
     (case (a, b) of ((a0, a1, a2), (b0, b1, b2)) \<Rightarrow>
        fadd (fadd (fmul a0 b0) (fmul a1 b1)) (fmul a2 b2))"

definition vec3_len :: "vec3 \<Rightarrow> f32" where
  "vec3_len a = fsqrt (vec3_dot a a)"

text \<open>The length is tested as C tests a float (\<^verbatim>\<open>if (len)\<close>): a NaN counts as nonzero.\<close>

definition vec3_normalize :: "vec3 \<Rightarrow> vec3 \<times> f32" where
  "vec3_normalize a =
     (let len = vec3_len a
      in (if len \<noteq> Finite 0
          then (case a of (a0, a1, a2) \<Rightarrow> (fdiv a0 len, fdiv a1 len, fdiv a2 len))
          else a, len))"

definition vec3_z :: "vec3 \<Rightarrow> f32" where
  "vec3_z a = snd (snd a)"

subsection \<open>Reserving and committing surfaces\<close>

text \<open>What \<^verbatim>\<open>memset(p, 0, sizeof *p)\<close> leaves in a surface and in a vertex.\<close>

definition zero_params :: surf_params where
  "zero_params = \<lparr>texture = 0, depth_write = False, depth_func = DEPTH_NONE, cull = CULL_NONE,
     src_blend = BLEND_NONE, dst_blend = BLEND_NONE, shade = SHADE_DECAL,
     ignore_alpha = False, ignore_texture_alpha = False, offset_color = False,
     alpha_test = False, alpha_ref = 0\<rparr>"

definition zero_surface :: ta_surface where
  "zero_surface = \<lparr>params = zero_params, first_vert = 0, num_verts = 0, strip_offset = 0\<rparr>"

definition zero_vertex :: ta_vertex where
  "zero_vertex = \<lparr>xyz = (Finite 0, Finite 0, Finite 0), uv = (Finite 0, Finite 0),
     color = (0, 0, 0, 0),
     vert_offset_color = (0, 0, 0, 0)\<rparr>"

text \<open>\<^verbatim>\<open>tr_reserve_surf\<close>. The surface it returns a pointer to is the one at index
  \<open>rc_num_surfs\<close> of the result.\<close>

definition tr_reserve_surf :: "env \<Rightarrow> tr_context \<Rightarrow> bool \<Rightarrow> error + tr_context" where
  "tr_reserve_surf e rc copy_from_prev =
     (let surf_index = rc_num_surfs rc
      in if \<not> surf_index < TR_MAX_SURFS e then Inl CheckFailed
         else if copy_from_prev then
           (if rc_num_surfs rc = 0 then Inl CheckFailed
            else Inr (rc\<lparr>rc_surfs := (rc_surfs rc)
                   (surf_index := (rc_surfs rc (rc_num_surfs rc - 1))
                      \<lparr>first_vert := rc_num_verts rc, num_verts := 0\<rparr>)\<rparr>))
         else Inr (rc\<lparr>rc_surfs := (rc_surfs rc)
                   (surf_index := zero_surface\<lparr>first_vert := rc_num_verts rc, num_verts := 0\<rparr>)\<rparr>))"

text \<open>\<^verbatim>\<open>tr_reserve_vert\<close>, returning the index of the vertex it zeroes.\<close>

definition tr_reserve_vert :: "env \<Rightarrow> tr_context \<Rightarrow> error + (int \<times> tr_context)" where
  "tr_reserve_vert e rc =
     (let curr_surf = rc_surfs rc (rc_num_surfs rc);
          vert_index = rc_num_verts rc + num_verts curr_surf
      in if \<not> vert_index < TR_MAX_VERTS e then Inl CheckFailed
         else Inr (vert_index,
           rc\<lparr>rc_verts := (rc_verts rc)(vert_index := zero_vertex),
              rc_surfs := (rc_surfs rc)
                (rc_num_surfs rc := curr_surf\<lparr>num_verts := num_verts curr_surf + 1\<rparr>)\<rparr>))"

text \<open>\<^verbatim>\<open>list->surfs[list->num_surfs++] = rc->num_surfs\<close> on the list \<open>lt\<close>.\<close>

definition list_append_surf :: "int \<Rightarrow> tr_context \<Rightarrow> tr_context" where
  "list_append_surf lt rc =
     (let l = rc_lists rc lt
      in rc\<lparr>rc_lists := (rc_lists rc)
           (lt := l\<lparr>surfs := (surfs l)(num_surfs l := rc_num_surfs rc),
                    num_surfs := num_surfs l + 1\<rparr>)\<rparr>)"

text \<open>The loop of \<^verbatim>\<open>tr_commit_surf\<close> over the triangles of a translucent or
  punch-through strip; \<open>new_surf\<close> is the index of the staged surface and \<open>n\<close> its vertex
  count, both read before the loop.\<close>

function commit_tris :: "env \<Rightarrow> int \<Rightarrow> int \<Rightarrow> int \<Rightarrow> int \<Rightarrow> tr_context \<Rightarrow> error + tr_context" where
  "commit_tris e lt new_surf n i rc =
     (if i < n - 2 then
        (case (if i = 0 then Inr rc else tr_reserve_surf e rc True) of
           Inl err \<Rightarrow> Inl err
         | Inr rc1 \<Rightarrow>
             (let surf = (if i = 0 then new_surf else rc_num_surfs rc1);
                  rc2 = rc1\<lparr>rc_surfs := (rc_surfs rc1)
                          (surf := (rc_surfs rc1 surf)
                             \<lparr>first_vert := rc_num_verts rc1, num_verts := 3, strip_offset := i\<rparr>)\<rparr>;
                  rc3 = list_append_surf lt rc2;
                  rc4 = rc3\<lparr>rc_num_verts := rc_num_verts rc3 + 1\<rparr>;
                  rc5 = rc4\<lparr>rc_num_surfs := rc_num_surfs rc4 + 1\<rparr>
              in commit_tris e lt new_surf n (i + 1) rc5))
      else Inr rc)"
  by pat_completeness auto
termination
  by (relation "measure (\<lambda>(e, lt, new_surf, n, i, rc). nat (n - 2 - i))") auto

declare commit_tris.simps [simp del]

text \<open>\<^verbatim>\<open>tr_commit_surf\<close>. \<^verbatim>\<open>rc->lists\<close> has \<^const>\<open>TA_NUM_LISTS\<close> entries; taking the
  address of another one is undefined.\<close>

definition tr_commit_surf :: "env \<Rightarrow> tr \<Rightarrow> tr_context \<Rightarrow> error + tr_context" where
  "tr_commit_surf e t rc =
     (let lt = list_type t
      in if \<not> (0 \<le> lt \<and> lt < TA_NUM_LISTS) then Inl Undefined
         else
           (let new_surf = rc_num_surfs rc;
                l = rc_lists rc lt;
                rc1 = rc\<lparr>rc_lists := (rc_lists rc)
                        (lt := l\<lparr>num_orig_surfs := num_orig_surfs l + 1\<rparr>)\<rparr>
            in if lt = TA_LIST_TRANSLUCENT \<or> lt = TA_LIST_PUNCH_THROUGH then
                 (case commit_tris e lt new_surf (num_verts (rc_surfs rc1 new_surf)) 0 rc1 of
                    Inl err \<Rightarrow> Inl err
                  | Inr rc2 \<Rightarrow> Inr (rc2\<lparr>rc_num_verts := rc_num_verts rc2 + 2\<rparr>))
               else
                 (let rc2 = list_append_surf lt rc1;
                      rc3 = rc2\<lparr>rc_num_verts :=
                              rc_num_verts rc2 + num_verts (rc_surfs rc2 new_surf)\<rparr>
                  in Inr (rc3\<lparr>rc_num_surfs := rc_num_surfs rc3 + 1\<rparr>))))"

subsection \<open>Texture resolution\<close>

text \<open>\<^verbatim>\<open>tr_convert_texture\<close>. The decoded pixels are the value of the decoder; the handle
  of a created texture is the backend's choice.\<close>

definition tr_convert_texture ::
  "env \<Rightarrow> tr \<Rightarrow> ta_context \<Rightarrow> tsp \<Rightarrow> tcw \<Rightarrow> error + (nat \<times> tr)" where
  "tr_convert_texture e t ctx tsp tcw =
     (case tr_userdata t (tsp_full tsp, tcw_full tcw) of
        None \<Rightarrow> Inl CheckFailed
      | Some entry \<Rightarrow>
          if tex_handle entry \<noteq> 0 \<and> \<not> tex_dirty entry then Inr (tex_handle entry, t)
          else
            (let stale = (tex_handle entry \<noteq> 0 \<and> tex_dirty entry);
                 r1 = (if stale then tr_r t @ [R_destroy_texture (tex_handle entry)] else tr_r t);
                 entry1 = (if stale then entry\<lparr>tex_handle := 0\<rparr> else entry);
                 palette = tex_palette entry1;
                 texture = tex_texture entry1;
                 texture_fmt = ta_texture_format e tcw;
                 mipmaps = ta_texture_mipmaps e tcw;
                 width = ta_texture_width e tsp tcw;
                 height = ta_texture_height e tsp tcw;
                 stride = ta_texture_stride e tsp tcw (ctx_stride ctx);
                 converted = pvr_tex_decode e texture width height stride texture_fmt
                               (tcw_pixel_fmt tcw) palette (ctx_palette_fmt ctx);
                 filter = (if tsp_filter_mode tsp = 0 then FILTER_NEAREST else FILTER_BILINEAR);
                 wrap_u = (if tsp_clamp_u tsp then WRAP_CLAMP_TO_EDGE
                           else if tsp_flip_u tsp then WRAP_MIRRORED_REPEAT else WRAP_REPEAT);
                 wrap_v = (if tsp_clamp_v tsp then WRAP_CLAMP_TO_EDGE
                           else if tsp_flip_v tsp then WRAP_MIRRORED_REPEAT else WRAP_REPEAT);
                 h = r_create_texture_handle e r1;
                 r2 = r1 @ [R_create_texture filter wrap_u wrap_v mipmaps width height converted];
                 entry2 = entry1\<lparr>tex_handle := h, tex_filter := filter, tex_wrap_u := wrap_u,
                            tex_wrap_v := wrap_v, tex_format := texture_fmt, tex_width := width,
                            tex_height := height, tex_dirty := False\<rparr>
             in Inr (h, t\<lparr>tr_r := r2,
                        tr_userdata := (tr_userdata t)((tsp_full tsp, tcw_full tcw) \<mapsto> entry2)\<rparr>)))"

subsection \<open>Background\<close>

text \<open>Writing through a pointer to a vertex or a surface of the render context.\<close>

definition upd_vert :: "int \<Rightarrow> (ta_vertex \<Rightarrow> ta_vertex) \<Rightarrow> tr_context \<Rightarrow> tr_context" where
  "upd_vert vi f rc = rc\<lparr>rc_verts := (rc_verts rc)(vi := f (rc_verts rc vi))\<rparr>"

definition upd_surf :: "int \<Rightarrow> (ta_surface \<Rightarrow> ta_surface) \<Rightarrow> tr_context \<Rightarrow> tr_context" where
  "upd_surf si f rc = rc\<lparr>rc_surfs := (rc_surfs rc)(si := f (rc_surfs rc si))\<rparr>"

definition tr_parse_bg_vert :: "ta_context \<Rightarrow> int \<Rightarrow> ta_vertex \<Rightarrow> int \<times> ta_vertex" where
  "tr_parse_bg_vert ctx offset v =
     (let f = ctx_bg_vertices_f32 ctx;
          u = ctx_bg_vertices_u32 ctx;
          v1 = v\<lparr>xyz := (f offset, f (offset + 4), f (offset + 8))\<rparr>;
          offset1 = offset + 12;
          v2 = (if isp_texture (ctx_bg_isp ctx) then v1\<lparr>uv := (f offset1, f (offset1 + 4))\<rparr> else v1);
          offset2 = (if isp_texture (ctx_bg_isp ctx) then offset1 + 8 else offset1);
          v3 = v2\<lparr>color := PARSE_PACKED_COLOR (u offset2)\<rparr>;
          offset3 = offset2 + 4;
          v4 = (if isp_offset (ctx_bg_isp ctx)
                then v3\<lparr>vert_offset_color := PARSE_PACKED_COLOR (u offset3)\<rparr> else v3);
          offset4 = (if isp_offset (ctx_bg_isp ctx) then offset3 + 4 else offset3)
      in (offset4, v4))"

definition tr_parse_bg :: "env \<Rightarrow> tr \<Rightarrow> ta_context \<Rightarrow> tr_context \<Rightarrow> error + (tr \<times> tr_context)" where
  "tr_parse_bg e t ctx rc =
     (let t1 = t\<lparr>list_type := TA_LIST_OPAQUE\<rparr>
      in ebind (tr_reserve_surf e rc False) (\<lambda>rc1.
         ebind (if isp_texture (ctx_bg_isp ctx)
                then tr_convert_texture e t1 ctx (ctx_bg_tsp ctx) (ctx_bg_tcw ctx)
                else Inr (0, t1)) (\<lambda>(tex, t2).
         let surf = rc_num_surfs rc1;
             rc2 = upd_surf surf (\<lambda>s. s\<lparr>params := (params s)
                     \<lparr>texture := tex,
                      depth_write := \<not> isp_z_write_disable (ctx_bg_isp ctx),
                      depth_func := translate_depth_func (isp_depth_compare_mode (ctx_bg_isp ctx)),
                      cull := translate_cull (isp_culling_mode (ctx_bg_isp ctx)),
                      src_blend := BLEND_NONE,
                      dst_blend := BLEND_NONE\<rparr>\<rparr>) rc1
         in ebind (tr_reserve_vert e rc2) (\<lambda>(va, rc3).
            ebind (tr_reserve_vert e rc3) (\<lambda>(vb, rc4).
            ebind (tr_reserve_vert e rc4) (\<lambda>(vc, rc5).
            ebind (tr_reserve_vert e rc5) (\<lambda>(vd, rc6).
            let (offset1, a) = tr_parse_bg_vert ctx 0 (rc_verts rc6 va);
                rc7 = upd_vert va (\<lambda>_. a) rc6;
                (offset2, b) = tr_parse_bg_vert ctx offset1 (rc_verts rc7 vb);
                rc8 = upd_vert vb (\<lambda>_. b) rc7;
                (offset3, c) = tr_parse_bg_vert ctx offset2 (rc_verts rc8 vc);
                rc9 = upd_vert vc (\<lambda>_. c) rc8;
                xyz_ab = vec3_sub (xyz (rc_verts rc9 vb)) (xyz (rc_verts rc9 va));
                xyz_ac = vec3_sub (xyz (rc_verts rc9 vc)) (xyz (rc_verts rc9 va));
                rc10 = upd_vert vd (\<lambda>v. v\<lparr>xyz := vec3_add (xyz (rc_verts rc9 vb)) xyz_ab\<rparr>) rc9;
                rc11 = upd_vert vd (\<lambda>v. v\<lparr>xyz := vec3_add (xyz v) xyz_ac\<rparr>) rc10;
                uv_ab = vec2_sub (uv (rc_verts rc11 vb)) (uv (rc_verts rc11 va));
                uv_ac = vec2_sub (uv (rc_verts rc11 vc)) (uv (rc_verts rc11 va));
                rc12 = upd_vert vd (\<lambda>v. v\<lparr>uv := vec2_add (uv (rc_verts rc11 vb)) uv_ab\<rparr>) rc11;
                rc13 = upd_vert vd (\<lambda>v. v\<lparr>uv := vec2_add (uv v) uv_ac\<rparr>) rc12;
                rc14 = upd_vert vd (\<lambda>v. v\<lparr>color := color (rc_verts rc13 va)\<rparr>) rc13;
                rc15 = upd_vert vd (\<lambda>v. v\<lparr>vert_offset_color :=
                                             vert_offset_color (rc_verts rc14 va)\<rparr>) rc14
            in ebind (tr_commit_surf e t2 rc15) (\<lambda>rc16.
               Inr (t2\<lparr>list_type := TA_NUM_LISTS\<rparr>, rc16)))))))))"

subsection \<open>Polygon parameters\<close>

text \<open>The \<^verbatim>\<open>switch\<close> of \<^verbatim>\<open>tr_parse_poly_param\<close> on the polygon type.\<close>

definition poly_colors :: "int \<Rightarrow> poly_param \<Rightarrow> tr \<Rightarrow> error + tr" where
  "poly_colors poly_type param t =
     (if poly_type = 0 then Inr t
      else if poly_type = 1 then
        (case PARSE_FLOAT_COLOR (type1_face_color param) of
           None \<Rightarrow> Inl Undefined
         | Some c \<Rightarrow> Inr (t\<lparr>face_color := c\<rparr>))
      else if poly_type = 2 then
        (case PARSE_FLOAT_COLOR (type2_face_color param) of
           None \<Rightarrow> Inl Undefined
         | Some c \<Rightarrow>
             (case PARSE_FLOAT_COLOR (type2_face_offset_color param) of
                None \<Rightarrow> Inl Undefined
              | Some oc \<Rightarrow> Inr (t\<lparr>face_color := c, face_offset_color := oc\<rparr>)))
      else if poly_type = 5 then
        Inr (t\<lparr>sprite_color := PARSE_PACKED_COLOR (sprite_param_base_color param),
               sprite_offset_color := PARSE_PACKED_COLOR (sprite_param_offset_color param)\<rparr>)
      else Inl LogFatal)"

text \<open>The parameters of the new surface: the translation of the register fields, then
  the \<^verbatim>\<open>if\<close> \<^verbatim>\<open>else if\<close> chain of overrides on the list type.\<close>

definition poly_surf_params :: "int \<Rightarrow> ta_context \<Rightarrow> poly_param \<Rightarrow> surf_params \<Rightarrow> surf_params" where
  "poly_surf_params lt ctx param p =
     (let p1 = p\<lparr>depth_write := \<not> isp_z_write_disable (type0_isp param),
                 depth_func := translate_depth_func (isp_depth_compare_mode (type0_isp param)),
                 cull := translate_cull (isp_culling_mode (type0_isp param)),
                 src_blend := translate_src_blend_func (tsp_src_alpha_instr (type0_tsp param)),
                 dst_blend := translate_dst_blend_func (tsp_dst_alpha_instr (type0_tsp param)),
                 shade := translate_shade_mode (tsp_texture_shading_instr (type0_tsp param)),
                 ignore_alpha := \<not> tsp_use_alpha (type0_tsp param),
                 ignore_texture_alpha := tsp_ignore_tex_alpha (type0_tsp param),
                 offset_color := pcw_offset (type0_pcw param),
                 alpha_test := (lt = TA_LIST_PUNCH_THROUGH),
                 alpha_ref := ctx_alpha_ref ctx\<rparr>
      in if lt \<noteq> TA_LIST_TRANSLUCENT \<and> lt \<noteq> TA_LIST_TRANSLUCENT_MODVOL then
           p1\<lparr>src_blend := BLEND_NONE, dst_blend := BLEND_NONE\<rparr>
         else if (lt = TA_LIST_TRANSLUCENT \<or> lt = TA_LIST_TRANSLUCENT_MODVOL) \<and> ctx_autosort ctx then
           p1\<lparr>depth_func := DEPTH_LEQUAL\<rparr>
         else if lt = TA_LIST_PUNCH_THROUGH then
           p1\<lparr>depth_func := DEPTH_GEQUAL\<rparr>
         else p1)"

definition tr_parse_poly_param ::
  "env \<Rightarrow> tr \<Rightarrow> ta_context \<Rightarrow> tr_context \<Rightarrow> poly_param \<Rightarrow> error + (tr \<times> tr_context)" where
  "tr_parse_poly_param e t ctx rc param =
     (let t1 = t\<lparr>last_vertex := None, vert_type := ta_vert_type e (type0_pcw param)\<rparr>;
          poly_type = ta_poly_type e (type0_pcw param)
      in if poly_type = 6 then Inr (t1, rc)
         else
           ebind (poly_colors poly_type param t1) (\<lambda>t2.
           ebind (tr_reserve_surf e rc False) (\<lambda>rc1.
           let surf = rc_num_surfs rc1;
               rc2 = upd_surf surf
                       (\<lambda>s. s\<lparr>params := poly_surf_params (list_type t2) ctx param (params s)\<rparr>) rc1
           in ebind (if pcw_texture (type0_pcw param)
                     then tr_convert_texture e t2 ctx (type0_tsp param) (type0_tcw param)
                     else Inr (0, t2)) (\<lambda>(tex, t3).
              Inr (t3, upd_surf surf (\<lambda>s. s\<lparr>params := (params s)\<lparr>texture := tex\<rparr>\<rparr>) rc2)))))"

subsection \<open>Vertex parameters\<close>

text \<open>A vertex colour from a float colour or an intensity; the conversion of a float
  that does not fit \<^verbatim>\<open>int32_t\<close> is undefined.\<close>

definition float_color :: "fcolor \<Rightarrow> error + color4" where
  "float_color c = (case PARSE_FLOAT_COLOR c of None \<Rightarrow> Inl Undefined | Some k \<Rightarrow> Inr k)"

definition PARSE_BASE_INTENSITY :: "tr \<Rightarrow> real \<Rightarrow> error + color4" where
  "PARSE_BASE_INTENSITY t base_intensity =
     (case PARSE_INTENSITY (face_color t) base_intensity of
        None \<Rightarrow> Inl Undefined | Some k \<Rightarrow> Inr k)"

definition PARSE_OFFSET_INTENSITY :: "tr \<Rightarrow> real \<Rightarrow> error + color4" where
  "PARSE_OFFSET_INTENSITY t offset_intensity =
     (case PARSE_INTENSITY (face_offset_color t) offset_intensity of
        None \<Rightarrow> Inl Undefined | Some k \<Rightarrow> Inr k)"

text \<open>The sprite case (vertex types 15 and 16) of the \<^verbatim>\<open>switch\<close>. The flag of the
  result says whether the function returned from inside the case.\<close>

definition parse_sprite :: "env \<Rightarrow> tr \<Rightarrow> tr_context \<Rightarrow> vert_param \<Rightarrow> error + (bool \<times> tr_context)" where
  "parse_sprite e t rc param =
     (if \<not> pcw_end_of_strip (vp_pcw param) then Inl CheckFailed
      else
        ebind (tr_reserve_vert e rc) (\<lambda>(va, rc1).
        ebind (tr_reserve_vert e rc1) (\<lambda>(vb, rc2).
        ebind (tr_reserve_vert e rc2) (\<lambda>(vd, rc3).
        ebind (tr_reserve_vert e rc3) (\<lambda>(vc, rc4).
        let sp = vp_sprite1 param;
            rc5 = upd_vert va (\<lambda>v. v\<lparr>xyz := sprite1_xyz sp 0,
                                       uv := PARSE_UV16 e (sprite1_uv sp 0),
                                       color := sprite_color t,
                                       vert_offset_color := sprite_offset_color t\<rparr>) rc4;
            rc6 = upd_vert vb (\<lambda>v. v\<lparr>xyz := sprite1_xyz sp 1,
                                       uv := PARSE_UV16 e (sprite1_uv sp 1),
                                       color := sprite_color t,
                                       vert_offset_color := sprite_offset_color t\<rparr>) rc5;
            rc7 = upd_vert vc (\<lambda>v. v\<lparr>xyz := sprite1_xyz sp 2,
                                       uv := PARSE_UV16 e (sprite1_uv sp 2),
                                       color := sprite_color t,
                                       vert_offset_color := sprite_offset_color t\<rparr>) rc6;
            rc8 = upd_vert vd (\<lambda>v. v\<lparr>xyz := (fst (sprite1_xyz sp 3), fst (snd (sprite1_xyz sp 3)),
                                               vec3_z (xyz v)),
                                       color := sprite_color t,
                                       vert_offset_color := sprite_offset_color t\<rparr>) rc7;
            xyz_ba = vec3_sub (xyz (rc_verts rc8 va)) (xyz (rc_verts rc8 vb));
            xyz_bc = vec3_sub (xyz (rc_verts rc8 vc)) (xyz (rc_verts rc8 vb));
            (n, len) = vec3_normalize (vec3_cross xyz_ba xyz_bc);
            d = vec3_dot n (xyz (rc_verts rc8 vb))
        in if len = Finite 0 \<or> vec3_z n = Finite 0 then Inr (True, rc8)
           else
             (let rc9 = upd_vert vd (\<lambda>v. v\<lparr>xyz := (fst (xyz v), fst (snd (xyz v)),
                           fdiv (fsub (fsub d (fmul (fst n) (fst (xyz v))))
                                      (fmul (fst (snd n)) (fst (snd (xyz v)))))
                                (vec3_z n))\<rparr>) rc8;
                  uv_ba = vec2_sub (uv (rc_verts rc9 va)) (uv (rc_verts rc9 vb));
                  uv_bc = vec2_sub (uv (rc_verts rc9 vc)) (uv (rc_verts rc9 vb));
                  rc10 = upd_vert vd (\<lambda>v. v\<lparr>uv := vec2_add (uv (rc_verts rc9 vb)) uv_ba\<rparr>) rc9;
                  rc11 = upd_vert vd (\<lambda>v. v\<lparr>uv := vec2_add (uv v) uv_bc\<rparr>) rc10
              in Inr (False, rc11)))))))"

text \<open>The \<^verbatim>\<open>switch\<close> of \<^verbatim>\<open>tr_parse_vert_param\<close> on the vertex type.\<close>

definition parse_vert_switch ::
  "env \<Rightarrow> tr \<Rightarrow> tr_context \<Rightarrow> vert_param \<Rightarrow> error + (bool \<times> tr_context)" where
  "parse_vert_switch e t rc param =
     (let vt = vert_type t
      in if vt = 0 then
           ebind (tr_reserve_vert e rc) (\<lambda>(vert, rc1).
           Inr (False, upd_vert vert (\<lambda>v. v\<lparr>xyz := v0_xyz (vp_type0 param),
                  color := PARSE_PACKED_COLOR (v0_base_color (vp_type0 param))\<rparr>) rc1))
         else if vt = 1 then
           ebind (tr_reserve_vert e rc) (\<lambda>(vert, rc1).
           ebind (float_color (v1_base_color (vp_type1 param))) (\<lambda>c.
           Inr (False, upd_vert vert (\<lambda>v. v\<lparr>xyz := v1_xyz (vp_type1 param), color := c\<rparr>) rc1)))
         else if vt = 2 then
           ebind (tr_reserve_vert e rc) (\<lambda>(vert, rc1).
           ebind (PARSE_BASE_INTENSITY t (v2_base_intensity (vp_type2 param))) (\<lambda>c.
           Inr (False, upd_vert vert (\<lambda>v. v\<lparr>xyz := v2_xyz (vp_type2 param), color := c\<rparr>) rc1)))
         else if vt = 3 then
           ebind (tr_reserve_vert e rc) (\<lambda>(vert, rc1).
           Inr (False, upd_vert vert (\<lambda>v. v\<lparr>xyz := v3_xyz (vp_type3 param),
                  uv := v3_uv (vp_type3 param),
                  color := PARSE_PACKED_COLOR (v3_base_color (vp_type3 param)),
                  vert_offset_color := PARSE_PACKED_COLOR (v3_offset_color (vp_type3 param))\<rparr>) rc1))
         else if vt = 4 then
           ebind (tr_reserve_vert e rc) (\<lambda>(vert, rc1).
           Inr (False, upd_vert vert (\<lambda>v. v\<lparr>xyz := v4_xyz (vp_type4 param),
                  uv := PARSE_UV16 e (v4_uv (vp_type4 param)),
                  color := PARSE_PACKED_COLOR (v4_base_color (vp_type4 param)),
                  vert_offset_color := PARSE_PACKED_COLOR (v4_offset_color (vp_type4 param))\<rparr>) rc1))
         else if vt = 5 then
           ebind (tr_reserve_vert e rc) (\<lambda>(vert, rc1).
           ebind (float_color (v5_base_color (vp_type5 param))) (\<lambda>c.
           ebind (float_color (v5_offset_color (vp_type5 param))) (\<lambda>oc.
           Inr (False, upd_vert vert (\<lambda>v. v\<lparr>xyz := v5_xyz (vp_type5 param),
                  uv := v5_uv (vp_type5 param), color := c, vert_offset_color := oc\<rparr>) rc1))))
         else if vt = 6 then
           ebind (tr_reserve_vert e rc) (\<lambda>(vert, rc1).
           ebind (float_color (v6_base_color (vp_type6 param))) (\<lambda>c.
           ebind (float_color (v6_offset_color (vp_type6 param))) (\<lambda>oc.
           Inr (False, upd_vert vert (\<lambda>v. v\<lparr>xyz := v6_xyz (vp_type6 param),
                  uv := PARSE_UV16 e (v6_uv (vp_type6 param)), color := c,
                  vert_offset_color := oc\<rparr>) rc1))))
         else if vt = 7 then
           ebind (tr_reserve_vert e rc) (\<lambda>(vert, rc1).
           ebind (PARSE_BASE_INTENSITY t (v7_base_intensity (vp_type7 param))) (\<lambda>c.
           ebind (PARSE_OFFSET_INTENSITY t (v7_offset_intensity (vp_type7 param))) (\<lambda>oc.
           Inr (False, upd_vert vert (\<lambda>v. v\<lparr>xyz := v7_xyz (vp_type7 param),
                  uv := v7_uv (vp_type7 param), color := c, vert_offset_color := oc\<rparr>) rc1))))
         else if vt = 8 then
           ebind (tr_reserve_vert e rc) (\<lambda>(vert, rc1).
           ebind (PARSE_BASE_INTENSITY t (v8_base_intensity (vp_type8 param))) (\<lambda>c.
           ebind (PARSE_OFFSET_INTENSITY t (v8_offset_intensity (vp_type8 param))) (\<lambda>oc.
           Inr (False, upd_vert vert (\<lambda>v. v\<lparr>xyz := v8_xyz (vp_type8 param),
                  uv := PARSE_UV16 e (v8_uv (vp_type8 param)), color := c,
                  vert_offset_color := oc\<rparr>) rc1))))
         else if vt = 15 \<or> vt = 16 then parse_sprite e t rc param
         else Inl LogFatal)"

definition tr_parse_vert_param ::
  "env \<Rightarrow> tr \<Rightarrow> ta_context \<Rightarrow> tr_context \<Rightarrow> vert_param \<Rightarrow> error + (tr \<times> tr_context)" where
  "tr_parse_vert_param e t ctx rc param =
     (if vert_type t = 17 then Inr (t, rc)
      else
        ebind (if (case last_vertex t of
                     None \<Rightarrow> False
                   | Some lv \<Rightarrow> pcw_end_of_strip (vp_pcw lv))
               then tr_reserve_surf e rc True else Inr rc) (\<lambda>rc1.
        let t1 = t\<lparr>last_vertex := Some param\<rparr>
        in ebind (parse_vert_switch e t1 rc1 param) (\<lambda>(returned, rc2).
           if returned then Inr (t1, rc2)
           else if pcw_end_of_strip (vp_pcw param) then
             ebind (tr_commit_surf e t1 rc2) (\<lambda>rc3. Inr (t1, rc3))
           else Inr (t1, rc2))))"

definition tr_parse_eol :: "tr \<Rightarrow> tr" where
  "tr_parse_eol t = t\<lparr>last_vertex := None, list_type := TA_NUM_LISTS, vert_type := TA_NUM_VERTS\<rparr>"

subsection \<open>Index generation\<close>

definition tr_can_merge_surfs :: "ta_surface \<Rightarrow> ta_surface \<Rightarrow> bool" where
  "tr_can_merge_surfs a b = (params a = params b)"

text \<open>The innermost loop of \<^verbatim>\<open>tr_generate_indices\<close>: the triangles of the surface
  \<open>surf\<close>, from triangle \<open>j\<close> on.\<close>

function emit_tris :: "ta_surface \<Rightarrow> int \<Rightarrow> tr_context \<Rightarrow> tr_context" where
  "emit_tris surf j rc =
     (if j < num_verts surf - 2 then
        (let so = strip_offset surf + j;
             vertex_offset = first_vert surf + j;
             k = rc_num_indices rc;
             idx = (if so AND 1 \<noteq> 0
                    then (rc_indices rc)(k := vertex_offset + 0, k + 1 := vertex_offset + 1,
                                         k + 2 := vertex_offset + 2)
                    else (rc_indices rc)(k := vertex_offset + 0, k + 1 := vertex_offset + 2,
                                         k + 2 := vertex_offset + 1))
         in emit_tris surf (j + 1) (rc\<lparr>rc_indices := idx, rc_num_indices := k + 3\<rparr>))
      else rc)"
  by pat_completeness auto
termination
  by (relation "measure (\<lambda>(surf, j, rc). nat (num_verts surf - 2 - j))") auto

declare emit_tris.simps [simp del]

text \<open>The loop that merges the surfaces after the root at position \<open>i\<close> of the list; it
  returns the position it stopped at and the number of merged surfaces.\<close>

function merge_surfs ::
  "env \<Rightarrow> int \<Rightarrow> int \<Rightarrow> int \<Rightarrow> int \<Rightarrow> tr_context \<Rightarrow> error + (int \<times> int \<times> tr_context)" where
  "merge_surfs e lt i j num_merged rc =
     (let l = rc_lists rc lt
      in if j < num_surfs l then
           (let root = surfs l i;
                surf = surfs l j
            in if surf \<noteq> root \<and> \<not> tr_can_merge_surfs (rc_surfs rc root) (rc_surfs rc surf)
               then Inr (j, num_merged, rc)
               else
                 (let num_merged1 = (if surf \<noteq> root then num_merged + 1 else num_merged);
                      num_indices = (num_verts (rc_surfs rc surf) - 2) * 3
                  in if \<not> rc_num_indices rc + num_indices < TR_MAX_INDICES e then Inl CheckFailed
                     else merge_surfs e lt i (j + 1) num_merged1
                            (emit_tris (rc_surfs rc surf) 0 rc)))
         else Inr (j, num_merged, rc))"
  by pat_completeness auto

lemma emit_tris_frame:
  "rc_lists (emit_tris surf j rc) = rc_lists rc \<and> rc_surfs (emit_tris surf j rc) = rc_surfs rc
   \<and> rc_verts (emit_tris surf j rc) = rc_verts rc
   \<and> rc_num_surfs (emit_tris surf j rc) = rc_num_surfs rc
   \<and> rc_num_verts (emit_tris surf j rc) = rc_num_verts rc"
proof (induction surf j rc rule: emit_tris.induct)
  case (1 surf j rc)
  show ?case
  proof (cases "j < num_verts surf - 2")
    case True
    with 1 show ?thesis by (subst (1 2 3 4 5) emit_tris.simps) (simp add: Let_def)
  next
    case False
    then show ?thesis by (subst (1 2 3 4 5) emit_tris.simps) simp
  qed
qed

termination merge_surfs
  by (relation "measure (\<lambda>(e, lt, i, j, num_merged, rc). nat (num_surfs (rc_lists rc lt) - j))")
     (auto simp add: emit_tris_frame)

declare merge_surfs.simps [simp del]

text \<open>The merge loop leaves the lists alone and, started at the root, passes it.\<close>

lemma merge_surfs_progress:
  "merge_surfs e lt i j nm rc = Inr (j', nm', rc') \<Longrightarrow>
     rc_lists rc' = rc_lists rc \<and> j \<le> j' \<and> (i = j \<and> j < num_surfs (rc_lists rc lt) \<longrightarrow> j < j')"
proof (induction e lt i j nm rc rule: merge_surfs.induct)
  case (1 e lt i j num_merged rc)
  show ?case
  proof (cases "j < num_surfs (rc_lists rc lt)")
    case False
    with "1.prems" show ?thesis by (subst (asm) merge_surfs.simps) (simp add: Let_def)
  next
    case True
    show ?thesis
    proof (cases "surfs (rc_lists rc lt) j \<noteq> surfs (rc_lists rc lt) i
              \<and> \<not> tr_can_merge_surfs (rc_surfs rc (surfs (rc_lists rc lt) i))
                    (rc_surfs rc (surfs (rc_lists rc lt) j))")
      case brk: True
      with True "1.prems" show ?thesis
        by (subst (asm) merge_surfs.simps) (auto simp add: Let_def)
    next
      case nobrk: False
      let ?surf = "surfs (rc_lists rc lt) j"
      let ?nm1 = "if ?surf \<noteq> surfs (rc_lists rc lt) i then num_merged + 1 else num_merged"
      from True nobrk "1.prems"
      have chk: "rc_num_indices rc + (num_verts (rc_surfs rc ?surf) - 2) * 3 < TR_MAX_INDICES e"
        and rec: "merge_surfs e lt i (j + 1) ?nm1 (emit_tris (rc_surfs rc ?surf) 0 rc)
                    = Inr (j', nm', rc')"
        by (subst (asm) merge_surfs.simps; simp add: Let_def split: if_splits)+
      have "rc_lists rc' = rc_lists (emit_tris (rc_surfs rc ?surf) 0 rc) \<and> j + 1 \<le> j'"
        using "1.IH" [OF refl True refl refl _ refl refl _ rec] nobrk chk by simp
      then show ?thesis by (simp add: emit_tris_frame)
    qed
  qed
qed

text \<open>The outer loop of \<^verbatim>\<open>tr_generate_indices\<close> over the groups of merged surfaces; it
  returns the number of merged surfaces.\<close>

function merge_groups :: "env \<Rightarrow> int \<Rightarrow> int \<Rightarrow> int \<Rightarrow> tr_context \<Rightarrow> error + (int \<times> tr_context)" where
  "merge_groups e lt i num_merged rc =
     (if i < num_surfs (rc_lists rc lt) then
        (let root = surfs (rc_lists rc lt) i;
             first_index = rc_num_indices rc
         in case merge_surfs e lt i i num_merged rc of
              Inl err \<Rightarrow> Inl err
            | Inr (j, num_merged1, rc1) \<Rightarrow>
                (let rc2 = upd_surf root (\<lambda>s. s\<lparr>first_vert := first_index,
                             num_verts := rc_num_indices rc1 - first_index\<rparr>) rc1;
                     l = rc_lists rc2 lt;
                     rc3 = rc2\<lparr>rc_lists := (rc_lists rc2)
                             (lt := l\<lparr>surfs := (surfs l)(j - num_merged1 - 1 := surfs l i)\<rparr>)\<rparr>
                 in merge_groups e lt j num_merged1 rc3))
      else Inr (num_merged, rc))"
  by pat_completeness auto
termination
proof (relation "measure (\<lambda>(e, lt, i, num_merged, rc). nat (num_surfs (rc_lists rc lt) - i))",
    goal_cases)
  case 1
  show ?case by simp
next
  case (2 e lt i num_merged rc root first_index x j y num_merged1 rc1 rc2 l rc3)
  then have "merge_surfs e lt i i num_merged rc = Inr (j, num_merged1, rc1)" by simp
  from merge_surfs_progress [OF this] 2 show ?case
    by (simp add: upd_surf_def)
qed

declare merge_groups.simps [simp del]

definition tr_generate_indices :: "env \<Rightarrow> tr_context \<Rightarrow> int \<Rightarrow> error + tr_context" where
  "tr_generate_indices e rc lt =
     ebind (merge_groups e lt 0 0 rc) (\<lambda>(num_merged, rc1).
       let l = rc_lists rc1 lt
       in Inr (rc1\<lparr>rc_lists := (rc_lists rc1)(lt := l\<lparr>num_surfs := num_surfs l - num_merged\<rparr>)\<rparr>))"

subsection \<open>Sorting\<close>

text \<open>Modelled from the spec: \<^verbatim>\<open>msort_noalloc\<close> of \<^verbatim>\<open>core/sort.c\<close> (not among the
  sources), which section 4.7 of the specification describes as a stable merge sort with
  an auxiliary buffer of equal size. The comparator tells whether its first argument may
  stand before its second; on a tie the element of the left run goes first.\<close>

fun merge_runs :: "('a \<Rightarrow> 'a \<Rightarrow> bool) \<Rightarrow> 'a list \<Rightarrow> 'a list \<Rightarrow> 'a list" where
  "merge_runs cmp [] ys = ys"
| "merge_runs cmp (x # xs) [] = x # xs"
| "merge_runs cmp (x # xs) (y # ys) =
     (if cmp x y then x # merge_runs cmp xs (y # ys) else y # merge_runs cmp (x # xs) ys)"

fun msort_noalloc :: "('a \<Rightarrow> 'a \<Rightarrow> bool) \<Rightarrow> 'a list \<Rightarrow> 'a list" where
  "msort_noalloc cmp xs =
     (if length xs \<le> 1 then xs
      else merge_runs cmp (msort_noalloc cmp (take (length xs div 2) xs))
                          (msort_noalloc cmp (drop (length xs div 2) xs)))"

declare msort_noalloc.simps [simp del]

text \<open>The macro \<^verbatim>\<open>MIN\<close> of the core header, in its usual form
  \<^verbatim>\<open>((a) < (b) ? (a) : (b))\<close>, on floats: with a NaN operand it gives its second one.\<close>

definition MIN_float :: "f32 \<Rightarrow> f32 \<Rightarrow> f32" where
  "MIN_float a b = (if flt a b then a else b)"

text \<open>\<^verbatim>\<open>tr_compare_surf\<close> reads the static array \<^verbatim>\<open>sort_minz\<close>.\<close>

definition tr_compare_surf :: "(int \<Rightarrow> f32) \<Rightarrow> int \<Rightarrow> int \<Rightarrow> bool" where
  "tr_compare_surf sort_minz i j = fle (sort_minz i) (sort_minz j)"

text \<open>The first loop of \<^verbatim>\<open>tr_sort_surfaces\<close>, which fills \<^verbatim>\<open>sort_minz\<close>.\<close>

function fill_minz :: "tr_context \<Rightarrow> int \<Rightarrow> int \<Rightarrow> (int \<Rightarrow> f32) \<Rightarrow> error + (int \<Rightarrow> f32)" where
  "fill_minz rc lt i sort_minz =
     (let l = rc_lists rc lt
      in if i < num_surfs l then
           (let surf_index = surfs l i;
                surf = rc_surfs rc surf_index;
                v = first_vert surf
            in if num_verts surf \<noteq> 3 then Inl CheckFailed
               else
                 (let m1 = MIN_float (vec3_z (xyz (rc_verts rc v))) (vec3_z (xyz (rc_verts rc (v + 1))));
                      m2 = MIN_float m1 (vec3_z (xyz (rc_verts rc (v + 2))))
                  in fill_minz rc lt (i + 1) (sort_minz(surf_index := m2))))
         else Inr sort_minz)"
  by pat_completeness auto
termination
  by (relation "measure (\<lambda>(rc, lt, i, sort_minz). nat (num_surfs (rc_lists rc lt) - i))") auto

declare fill_minz.simps [simp del]

text \<open>The entries of a list of the render context, in order.\<close>

definition list_entries :: "tr_list \<Rightarrow> int list" where
  "list_entries l = map (\<lambda>k. surfs l (int k)) [0..<nat (num_surfs l)]"

text \<open>\<^verbatim>\<open>tr_sort_surfaces\<close>; the static array \<^verbatim>\<open>sort_minz\<close> is taken and returned.\<close>

definition tr_sort_surfaces ::
  "(int \<Rightarrow> f32) \<Rightarrow> tr_context \<Rightarrow> int \<Rightarrow> error + ((int \<Rightarrow> f32) \<times> tr_context)" where
  "tr_sort_surfaces sort_minz rc lt =
     ebind (fill_minz rc lt 0 sort_minz) (\<lambda>mz.
       let l = rc_lists rc lt;
           ys = msort_noalloc (tr_compare_surf mz) (list_entries l)
       in Inr (mz, rc\<lparr>rc_lists := (rc_lists rc)
                 (lt := l\<lparr>surfs := (\<lambda>k. if 0 \<le> k \<and> k < num_surfs l then ys ! nat k
                                        else surfs l k)\<rparr>)\<rparr>))"

subsection \<open>Reset and conversion\<close>

function reset_lists :: "int \<Rightarrow> tr_context \<Rightarrow> tr_context" where
  "reset_lists i rc =
     (if i < TA_NUM_LISTS then
        reset_lists (i + 1)
          (rc\<lparr>rc_lists := (rc_lists rc)(i := (rc_lists rc i)\<lparr>num_surfs := 0, num_orig_surfs := 0\<rparr>)\<rparr>)
      else rc)"
  by pat_completeness auto
termination
  by (relation "measure (\<lambda>(i, rc). nat (TA_NUM_LISTS - i))") auto

declare reset_lists.simps [simp del]

definition tr_reset :: "tr \<Rightarrow> tr_context \<Rightarrow> tr \<times> tr_context" where
  "tr_reset t rc =
     (t\<lparr>last_vertex := None, list_type := TA_NUM_LISTS, vert_type := TA_NUM_VERTS,
        face_color := (0, 0, 0, 0), face_offset_color := (0, 0, 0, 0),
        sprite_color := (0, 0, 0, 0), sprite_offset_color := (0, 0, 0, 0)\<rparr>,
      reset_lists 0
        (rc\<lparr>rc_num_params := 0, rc_num_surfs := 0, rc_num_verts := 0, rc_num_indices := 0\<rparr>))"

text \<open>The \<^verbatim>\<open>switch\<close> of \<^verbatim>\<open>tr_convert_context\<close> on the tag of a parameter.\<close>

definition parse_param ::
  "env \<Rightarrow> tr \<Rightarrow> ta_context \<Rightarrow> tr_context \<Rightarrow> ta_param \<Rightarrow> error + (tr \<times> tr_context)" where
  "parse_param e t ctx rc p =
     (let para_type = pcw_para_type (param_pcw p)
      in if para_type = TA_PARAM_END_OF_LIST then Inr (tr_parse_eol t, rc)
         else if para_type = TA_PARAM_USER_TILE_CLIP then Inr (t, rc)
         else if para_type = TA_PARAM_OBJ_LIST_SET then Inl LogFatal
         else if para_type = TA_PARAM_POLY_OR_VOL \<or> para_type = TA_PARAM_SPRITE then
           tr_parse_poly_param e t ctx rc (param_poly p)
         else if para_type = TA_PARAM_VERTEX then
           tr_parse_vert_param e t ctx rc (param_vert p)
         else Inr (t, rc))"

text \<open>The loop of \<^verbatim>\<open>tr_convert_context\<close> over the parameter buffer, \<open>data\<close> the offset of
  the parameter it reads. The stride is the front-end's, so the loop need not end.\<close>

partial_function (option) parse_params ::
  "env \<Rightarrow> ta_context \<Rightarrow> int \<Rightarrow> tr \<Rightarrow> tr_context \<Rightarrow> (error + (tr \<times> tr_context)) option" where
  "parse_params e ctx data t rc =
     (if data < ctx_size ctx then
        (let pcw = param_pcw (ctx_params ctx data);
             t1 = (if ta_pcw_list_type_valid e pcw (list_type t)
                   then t\<lparr>list_type := pcw_list_type pcw\<rparr> else t)
         in case parse_param e t1 ctx rc (ctx_params ctx data) of
              Inl err \<Rightarrow> Some (Inl err)
            | Inr (t2, rc2) \<Rightarrow>
                parse_params e ctx (data + ta_param_size e pcw (vert_type t2)) t2
                  (rc2\<lparr>rc_params := (rc_params rc2)
                         (rc_num_params rc2 :=
                            \<lparr>rp_offset = data, rp_list_type = list_type t2,
                             rp_vert_type = vert_type t2,
                             rp_last_surf = rc_num_surfs rc2 - 1,
                             rp_last_vert = rc_num_verts rc2 - 1\<rparr>),
                       rc_num_params := rc_num_params rc2 + 1\<rparr>))
      else Some (Inr (t, rc)))"

function generate_all :: "env \<Rightarrow> int \<Rightarrow> tr_context \<Rightarrow> error + tr_context" where
  "generate_all e i rc =
     (if i < TA_NUM_LISTS then
        (case tr_generate_indices e rc i of
           Inl err \<Rightarrow> Inl err
         | Inr rc1 \<Rightarrow> generate_all e (i + 1) rc1)
      else Inr rc)"
  by pat_completeness auto
termination
  by (relation "measure (\<lambda>(e, i, rc). nat (TA_NUM_LISTS - i))") auto

declare generate_all.simps [simp del]

text \<open>\<^verbatim>\<open>tr_convert_context\<close>. The local \<^verbatim>\<open>struct tr\<close> starts from the backend and the
  texture cache it is given; \<^verbatim>\<open>tr_reset\<close> sets every other field. The result holds the
  backend, the cache, the static array \<^verbatim>\<open>sort_minz\<close> and the render context.\<close>

definition tr_convert_context ::
  "env \<Rightarrow> render_backend \<Rightarrow> texture_cache \<Rightarrow> (int \<Rightarrow> f32) \<Rightarrow> ta_context \<Rightarrow> tr_context
     \<Rightarrow> (error + (render_backend \<times> texture_cache \<times> (int \<Rightarrow> f32) \<times> tr_context)) option" where
  "tr_convert_context e r userdata sort_minz ctx rc =
     (let t0 = \<lparr>tr_r = r, tr_userdata = userdata, last_vertex = None, list_type = 0,
                vert_type = 0, face_color = (0, 0, 0, 0), face_offset_color = (0, 0, 0, 0),
                sprite_color = (0, 0, 0, 0), sprite_offset_color = (0, 0, 0, 0)\<rparr>;
          (t1, rc1) = tr_reset t0 rc;
          rc2 = rc1\<lparr>rc_width := ctx_video_width ctx, rc_height := ctx_video_height ctx\<rparr>
      in case tr_parse_bg e t1 ctx rc2 of
           Inl err \<Rightarrow> Some (Inl err)
         | Inr (t2, rc3) \<Rightarrow>
             (case parse_params e ctx 0 t2 rc3 of
                None \<Rightarrow> None
              | Some (Inl err) \<Rightarrow> Some (Inl err)
              | Some (Inr (t3, rc4)) \<Rightarrow>
                  Some (ebind (if ctx_autosort ctx then
                                 ebind (tr_sort_surfaces sort_minz rc4 TA_LIST_TRANSLUCENT)
                                   (\<lambda>(mz, rc5). tr_sort_surfaces mz rc5 TA_LIST_PUNCH_THROUGH)
                               else Inr (sort_minz, rc4)) (\<lambda>(mz, rc6).
                        ebind (generate_all e 0 rc6) (\<lambda>rc7.
                          Inr (tr_r t3, tr_userdata t3, mz, rc7))))))"

subsection \<open>Rendering\<close>

text \<open>The loop of \<^verbatim>\<open>tr_render_list\<close> from position \<open>p\<close> of the list; the flag of the
  result is the value it leaves in \<^verbatim>\<open>*stopped\<close>. A drawn surface is named by its index
  in \<^verbatim>\<open>rc->surfs\<close>.\<close>

function render_entries :: "tr_list \<Rightarrow> int \<Rightarrow> int \<Rightarrow> render_backend \<Rightarrow> render_backend \<times> bool" where
  "render_entries l end_surf p r =
     (if p < num_surfs l then
        (let surf = surfs l p;
             r1 = r @ [R_draw_ta_surface surf]
         in if surf = end_surf then (r1, True)
            else render_entries l end_surf (p + 1) r1)
      else (r, False))"
  by pat_completeness auto
termination
  by (relation "measure (\<lambda>(l, end_surf, p, r). nat (num_surfs l - p))") auto

declare render_entries.simps [simp del]

definition tr_render_list ::
  "render_backend \<Rightarrow> tr_context \<Rightarrow> int \<Rightarrow> int \<Rightarrow> bool \<Rightarrow> render_backend \<times> bool" where
  "tr_render_list r rc lt end_surf stopped =
     (if stopped then (r, stopped)
      else render_entries (rc_lists rc lt) end_surf 0 r)"

definition tr_render_context_until :: "render_backend \<Rightarrow> tr_context \<Rightarrow> int \<Rightarrow> render_backend" where
  "tr_render_context_until r rc end_surf =
     (let stopped = False;
          r1 = r @ [R_begin_ta_surfaces (rc_width rc) (rc_height rc) (rc_verts rc)
                      (rc_num_verts rc) (rc_indices rc) (rc_num_indices rc)];
          (r2, stopped1) = tr_render_list r1 rc TA_LIST_OPAQUE end_surf stopped;
          (r3, stopped2) = tr_render_list r2 rc TA_LIST_PUNCH_THROUGH end_surf stopped1;
          (r4, stopped3) = tr_render_list r3 rc TA_LIST_TRANSLUCENT end_surf stopped2
      in r4 @ [R_end_ta_surfaces])"

definition tr_render_context :: "render_backend \<Rightarrow> tr_context \<Rightarrow> render_backend" where
  "tr_render_context r rc = tr_render_context_until r rc (- 1)"

section \<open>Example inputs\<close>

text \<open>A small environment (capacities of 16 surfaces, 64 vertices and 256 indices, a
  front-end whose every polygon is of type 0 with vertices of type 0 and whose sprites are
  of type 5 with vertices of type 15, parameters of 32 bytes), an empty render context and
  renderer state, and a context that holds one committed surface of four vertices and a
  staged strip of four vertices.\<close>

definition small_env :: env where
  "small_env = \<lparr>TR_MAX_SURFS = 16, TR_MAX_VERTS = 64, TR_MAX_INDICES = 256,
     ta_poly_type = (\<lambda>pcw. if pcw_para_type pcw = TA_PARAM_SPRITE then 5 else 0),
     ta_vert_type = (\<lambda>pcw. if pcw_para_type pcw = TA_PARAM_SPRITE then 15 else 0),
     ta_param_size = (\<lambda>pcw vt. 32),
     ta_pcw_list_type_valid = (\<lambda>pcw lt. lt = TA_NUM_LISTS \<and>
        (pcw_para_type pcw = TA_PARAM_OBJ_LIST_SET \<or> pcw_para_type pcw = TA_PARAM_POLY_OR_VOL
         \<or> pcw_para_type pcw = TA_PARAM_SPRITE)),
     float_of_bits = (\<lambda>w. Finite 0),
     ta_texture_format = (\<lambda>tcw. 0), ta_texture_mipmaps = (\<lambda>tcw. 0),
     ta_texture_width = (\<lambda>tsp tcw. 8), ta_texture_height = (\<lambda>tsp tcw. 8),
     ta_texture_stride = (\<lambda>tsp tcw stride. 8),
     pvr_tex_decode = (\<lambda>texture w h stride fmt pixel_fmt palette palette_fmt. []),
     r_create_texture_handle = (\<lambda>r. Suc (length r))\<rparr>"

definition blank_rc :: tr_context where
  "blank_rc = \<lparr>rc_width = 0, rc_height = 0,
     rc_lists = (\<lambda>i. \<lparr>surfs = (\<lambda>k. 0), num_surfs = 0, num_orig_surfs = 0\<rparr>),
     rc_params = (\<lambda>i. \<lparr>rp_offset = 0, rp_list_type = 0, rp_vert_type = 0,
                        rp_last_surf = 0, rp_last_vert = 0\<rparr>),
     rc_num_params = 0,
     rc_surfs = (\<lambda>i. zero_surface), rc_num_surfs = 0,
     rc_verts = (\<lambda>i. zero_vertex), rc_num_verts = 0,
     rc_indices = (\<lambda>i. 0), rc_num_indices = 0\<rparr>"

definition blank_tr :: tr where
  "blank_tr = \<lparr>tr_r = [], tr_userdata = (\<lambda>k. None), last_vertex = None,
     list_type = TA_NUM_LISTS, vert_type = TA_NUM_VERTS,
     face_color = (0, 0, 0, 0), face_offset_color = (0, 0, 0, 0),
     sprite_color = (0, 0, 0, 0), sprite_offset_color = (0, 0, 0, 0)\<rparr>"

definition staged_strip4 :: tr_context where
  "staged_strip4 = blank_rc\<lparr>rc_surfs := (\<lambda>i. zero_surface)
       (1 := zero_surface\<lparr>first_vert := 4, num_verts := 4\<rparr>),
     rc_num_surfs := 1, rc_num_verts := 4\<rparr>"

text \<open>Register words, parameters and an input context with every field zero.\<close>

definition blank_pcw :: pcw where
  "blank_pcw = \<lparr>pcw_uv_16bit = False, pcw_gouraud = False, pcw_offset = False,
     pcw_texture = False, pcw_list_type = 0, pcw_para_type = 0, pcw_end_of_strip = False,
     pcw_full = 0\<rparr>"

definition blank_isp :: isp where
  "blank_isp = \<lparr>isp_texture = False, isp_offset = False, isp_culling_mode = 0,
     isp_z_write_disable = False, isp_depth_compare_mode = 0\<rparr>"

definition blank_tsp :: tsp where
  "blank_tsp = \<lparr>tsp_filter_mode = 0, tsp_clamp_u = False, tsp_clamp_v = False,
     tsp_flip_u = False, tsp_flip_v = False, tsp_texture_shading_instr = 0,
     tsp_ignore_tex_alpha = False, tsp_use_alpha = False, tsp_dst_alpha_instr = 0,
     tsp_src_alpha_instr = 0, tsp_full = 0\<rparr>"

definition blank_tcw :: tcw where
  "blank_tcw = \<lparr>tcw_pixel_fmt = 0, tcw_full = 0\<rparr>"

definition blank_poly :: poly_param where
  "blank_poly = \<lparr>type0_pcw = blank_pcw, type0_isp = blank_isp, type0_tsp = blank_tsp,
     type0_tcw = blank_tcw, type1_face_color = (0, 0, 0, 0), type2_face_color = (0, 0, 0, 0),
     type2_face_offset_color = (0, 0, 0, 0), sprite_param_base_color = 0,
     sprite_param_offset_color = 0\<rparr>"

definition blank_vert :: vert_param where
  "blank_vert = \<lparr>vp_pcw = blank_pcw,
     vp_type0 = \<lparr>v0_xyz = (Finite 0, Finite 0, Finite 0), v0_base_color = 0\<rparr>,
     vp_type1 = \<lparr>v1_xyz = (Finite 0, Finite 0, Finite 0), v1_base_color = (0, 0, 0, 0)\<rparr>,
     vp_type2 = \<lparr>v2_xyz = (Finite 0, Finite 0, Finite 0), v2_base_intensity = 0\<rparr>,
     vp_type3 = \<lparr>v3_xyz = (Finite 0, Finite 0, Finite 0), v3_uv = (Finite 0, Finite 0), v3_base_color = 0, v3_offset_color = 0\<rparr>,
     vp_type4 = \<lparr>v4_xyz = (Finite 0, Finite 0, Finite 0), v4_uv = (0, 0), v4_base_color = 0, v4_offset_color = 0\<rparr>,
     vp_type5 = \<lparr>v5_xyz = (Finite 0, Finite 0, Finite 0), v5_uv = (Finite 0, Finite 0), v5_base_color = (0, 0, 0, 0),
                 v5_offset_color = (0, 0, 0, 0)\<rparr>,
     vp_type6 = \<lparr>v6_xyz = (Finite 0, Finite 0, Finite 0), v6_uv = (0, 0), v6_base_color = (0, 0, 0, 0),
                 v6_offset_color = (0, 0, 0, 0)\<rparr>,
     vp_type7 = \<lparr>v7_xyz = (Finite 0, Finite 0, Finite 0), v7_uv = (Finite 0, Finite 0), v7_base_intensity = 0,
                 v7_offset_intensity = 0\<rparr>,
     vp_type8 = \<lparr>v8_xyz = (Finite 0, Finite 0, Finite 0), v8_uv = (0, 0), v8_base_intensity = 0,
                 v8_offset_intensity = 0\<rparr>,
     vp_sprite1 = \<lparr>sprite1_xyz = (\<lambda>k. (Finite 0, Finite 0, Finite 0)), sprite1_uv = (\<lambda>k. (0, 0))\<rparr>\<rparr>"

definition blank_param :: ta_param where
  "blank_param = \<lparr>param_pcw = blank_pcw, param_poly = blank_poly, param_vert = blank_vert\<rparr>"

definition blank_ctx :: ta_context where
  "blank_ctx = \<lparr>ctx_autosort = False, ctx_stride = 0, ctx_palette_fmt = 0,
     ctx_video_width = 640, ctx_video_height = 480, ctx_alpha_ref = 0,
     ctx_bg_isp = blank_isp, ctx_bg_tsp = blank_tsp, ctx_bg_tcw = blank_tcw,
     ctx_bg_vertices_f32 = (\<lambda>k. Finite 0), ctx_bg_vertices_u32 = (\<lambda>k. 0),
     ctx_params = (\<lambda>k. blank_param), ctx_size = 0\<rparr>"

text \<open>A polygon parameter for the punch-through list whose depth compare mode is 4.\<close>

definition punch_through_poly :: poly_param where
  "punch_through_poly = blank_poly\<lparr>
     type0_pcw := blank_pcw\<lparr>pcw_list_type := TA_LIST_PUNCH_THROUGH,
                            pcw_para_type := TA_PARAM_POLY_OR_VOL\<rparr>,
     type0_isp := blank_isp\<lparr>isp_depth_compare_mode := 4\<rparr>\<rparr>"

text \<open>The translucent list after a strip of four vertices was committed: the surfaces 1
  and 2, triangles from the vertices 4 and 5 with the strip offsets 0 and 1.\<close>

definition committed_strip4 :: tr_context where
  "committed_strip4 = blank_rc\<lparr>
     rc_lists := (rc_lists blank_rc)(TA_LIST_TRANSLUCENT :=
        \<lparr>surfs = (\<lambda>k. 0)(0 := 1, 1 := 2), num_surfs = 2, num_orig_surfs = 1\<rparr>),
     rc_surfs := (\<lambda>i. zero_surface)
        (1 := zero_surface\<lparr>first_vert := 4, num_verts := 3, strip_offset := 0\<rparr>,
         2 := zero_surface\<lparr>first_vert := 5, num_verts := 3, strip_offset := 1\<rparr>),
     rc_num_surfs := 3, rc_num_verts := 8\<rparr>"

text \<open>A polygon has been opened: one committed surface of four vertices, and an empty
  staged surface.\<close>

definition staged_empty :: tr_context where
  "staged_empty = blank_rc\<lparr>rc_surfs := (\<lambda>i. zero_surface)(1 := zero_surface\<lparr>first_vert := 4\<rparr>),
     rc_num_surfs := 1, rc_num_verts := 4\<rparr>"

text \<open>A sprite whose three complete corners span a plane that holds the view direction:
  the normal is \<open>(-1, 0, 0)\<close>.\<close>

definition edge_on_sprite :: vert_param where
  "edge_on_sprite = blank_vert\<lparr>
     vp_pcw := blank_pcw\<lparr>pcw_para_type := TA_PARAM_VERTEX, pcw_end_of_strip := True\<rparr>,
     vp_sprite1 := \<lparr>sprite1_xyz = (\<lambda>k. (Finite 0, Finite 0, Finite 0))
                       (1 := (Finite 0, Finite 1, Finite 0), 2 := (Finite 0, Finite 1, Finite 1),
                        3 := (Finite 0, Finite 0, Finite 0)),
                    sprite1_uv = (\<lambda>k. (0, 0))\<rparr>\<rparr>"

text \<open>A renderer state that parses sprite vertices for the opaque list.\<close>

definition sprite_tr :: tr where
  "sprite_tr = blank_tr\<lparr>list_type := TA_LIST_OPAQUE, vert_type := 15\<rparr>"

text \<open>A sprite whose corners \<open>a = (1, 3, 0)\<close>, \<open>b = (-e, -3e, 0)\<close> and \<open>c = (5, 15, 0)\<close>, with
  \<open>e = 2 ^ -24 + 2 ^ -30\<close>, lie on the line \<open>y = 3x\<close> of the plane \<open>z = 0\<close>; every
  coordinate is a binary32 value.\<close>

definition sprite_eps :: real where
  "sprite_eps = 1 / 2 ^ 24 + 1 / 2 ^ 30"

definition collinear_sprite :: vert_param where
  "collinear_sprite = blank_vert\<lparr>
     vp_pcw := blank_pcw\<lparr>pcw_para_type := TA_PARAM_VERTEX, pcw_end_of_strip := True\<rparr>,
     vp_sprite1 := \<lparr>sprite1_xyz = (\<lambda>k. (Finite 0, Finite 0, Finite 0))
                       (0 := (Finite 1, Finite 3, Finite 0),
                        1 := (Finite (- sprite_eps), Finite (- (3 * sprite_eps)), Finite 0),
                        2 := (Finite 5, Finite 15, Finite 0)),
                    sprite1_uv = (\<lambda>k. (0, 0))\<rparr>\<rparr>"

text \<open>A sprite whose first corner has a NaN depth; the other corners are the origin.\<close>

definition nan_sprite :: vert_param where
  "nan_sprite = blank_vert\<lparr>
     vp_pcw := blank_pcw\<lparr>pcw_para_type := TA_PARAM_VERTEX, pcw_end_of_strip := True\<rparr>,
     vp_sprite1 := \<lparr>sprite1_xyz = (\<lambda>k. (Finite 0, Finite 0, Finite 0))
                       (0 := (Finite 0, Finite 0, NaN)),
                    sprite1_uv = (\<lambda>k. (0, 0))\<rparr>\<rparr>"

text \<open>A renderer state with vertex type 7 and face colours, and a vertex parameter of
  base intensity one half and offset intensity two.\<close>

definition intensity_tr :: tr where
  "intensity_tr = blank_tr\<lparr>list_type := TA_LIST_OPAQUE, vert_type := 7,
     face_color := (255, 128, 0, 77), face_offset_color := (10, 20, 30, 40)\<rparr>"

definition intensity_vert :: vert_param where
  "intensity_vert = blank_vert\<lparr>
     vp_pcw := blank_pcw\<lparr>pcw_para_type := TA_PARAM_VERTEX\<rparr>,
     vp_type7 := \<lparr>v7_xyz = (Finite 1, Finite 2, Finite 3), v7_uv = (Finite 0, Finite 0), v7_base_intensity = 1 / 2,
                  v7_offset_intensity = 2\<rparr>\<rparr>"

text \<open>A context whose translucent list holds the surfaces 1, 2 and 3, three triangles of
  depth 5, 1 and 5.\<close>

definition sort_rc :: tr_context where
  "sort_rc = blank_rc\<lparr>
     rc_lists := (rc_lists blank_rc)(TA_LIST_TRANSLUCENT :=
        \<lparr>surfs = (\<lambda>k. 0)(0 := 1, 1 := 2, 2 := 3), num_surfs = 3, num_orig_surfs = 3\<rparr>),
     rc_surfs := (\<lambda>i. zero_surface)
        (1 := zero_surface\<lparr>first_vert := 4, num_verts := 3\<rparr>,
         2 := zero_surface\<lparr>first_vert := 7, num_verts := 3\<rparr>,
         3 := zero_surface\<lparr>first_vert := 10, num_verts := 3\<rparr>),
     rc_num_surfs := 4,
     rc_verts := (\<lambda>i. if 7 \<le> i \<and> i < 10 then zero_vertex\<lparr>xyz := (Finite 0, Finite 0, Finite 1)\<rparr>
                        else zero_vertex\<lparr>xyz := (Finite 0, Finite 0, Finite 5)\<rparr>),
     rc_num_verts := 13\<rparr>"

text \<open>A context whose translucent list holds the surfaces 1 and 2, two triangles: the
  vertices of the first have the depth NaN, those of the second the depth 1.\<close>

definition nan_sort_rc :: tr_context where
  "nan_sort_rc = blank_rc\<lparr>
     rc_lists := (rc_lists blank_rc)(TA_LIST_TRANSLUCENT :=
        \<lparr>surfs = (\<lambda>k. 0)(0 := 1, 1 := 2), num_surfs = 2, num_orig_surfs = 2\<rparr>),
     rc_surfs := (\<lambda>i. zero_surface)
        (1 := zero_surface\<lparr>first_vert := 4, num_verts := 3\<rparr>,
         2 := zero_surface\<lparr>first_vert := 7, num_verts := 3\<rparr>),
     rc_num_surfs := 3,
     rc_verts := (\<lambda>i. if 4 \<le> i \<and> i < 7 then zero_vertex\<lparr>xyz := (Finite 0, Finite 0, NaN)\<rparr>
                        else zero_vertex\<lparr>xyz := (Finite 0, Finite 0, Finite 1)\<rparr>),
     rc_num_verts := 10\<rparr>"

text \<open>An input of two parameters: a polygon for the translucent list, and one vertex that
  ends its strip.\<close>

definition one_vertex_ctx :: ta_context where
  "one_vertex_ctx = blank_ctx\<lparr>
     ctx_params := (\<lambda>k. blank_param)
       (0 := blank_param\<lparr>
               param_pcw := blank_pcw\<lparr>pcw_list_type := TA_LIST_TRANSLUCENT,
                                      pcw_para_type := TA_PARAM_POLY_OR_VOL\<rparr>,
               param_poly := blank_poly\<lparr>type0_pcw :=
                  blank_pcw\<lparr>pcw_list_type := TA_LIST_TRANSLUCENT,
                            pcw_para_type := TA_PARAM_POLY_OR_VOL\<rparr>\<rparr>\<rparr>,
        32 := blank_param\<lparr>
               param_pcw := blank_pcw\<lparr>pcw_para_type := TA_PARAM_VERTEX,
                                      pcw_end_of_strip := True\<rparr>,
               param_vert := blank_vert\<lparr>vp_pcw :=
                  blank_pcw\<lparr>pcw_para_type := TA_PARAM_VERTEX, pcw_end_of_strip := True\<rparr>,
                  vp_type0 := \<lparr>v0_xyz = (Finite 1, Finite 2, Finite 3), v0_base_color = 0xff102030\<rparr>\<rparr>\<rparr>),
     ctx_size := 64\<rparr>"

text \<open>A render context left by an earlier conversion: every vertex at depth 9.\<close>

definition used_rc :: tr_context where
  "used_rc = blank_rc\<lparr>rc_verts := (\<lambda>i. zero_vertex\<lparr>xyz := (Finite 9, Finite 9, Finite 9)\<rparr>), rc_num_verts := 12\<rparr>"

section \<open>Properties\<close>

subsection \<open>Binary32 rounding at a given number\<close>

lemma round32_zero [simp]: "round32 0 = Finite 0"
  by (simp add: round32_def)

lemma fle_NaN [simp]: "fle a NaN = False"
  by (cases a) simp_all

lemma flt_NaN [simp]: "flt a NaN = False"
  by (cases a) simp_all

lemma binade_eq:
  assumes "2 powr of_int e \<le> \<bar>x\<bar>" and "\<bar>x\<bar> < 2 powr of_int (e + 1)" and "- 126 \<le> e"
  shows "binade x = e"
proof -
  have "0 < \<bar>x\<bar>" using assms(1) by (smt (verit) powr_gt_zero)
  then have "\<lfloor>log 2 \<bar>x\<bar>\<rfloor> = e"
    using assms(1,2) by (simp add: floor_log_eq_powr_iff)
  with assms(3) show ?thesis by (simp add: binade_def)
qed

text \<open>The value of \<^const>\<open>round32\<close> at a number of the binade \<open>e\<close>.\<close>

lemma round32_eval:
  assumes "2 powr of_int e \<le> \<bar>x\<bar>" and "\<bar>x\<bar> < 2 powr of_int (e + 1)" and "- 126 \<le> e"
    and "of_int (round_even (x / 2 powr of_int (e - 23))) * 2 powr of_int (e - 23) = r"
    and "\<bar>r\<bar> < 2 ^ 128"
  shows "round32 x = Finite r"
proof -
  have "x \<noteq> 0" using assms(1) by (smt (verit) powr_gt_zero)
  then show ?thesis
    using assms(4,5) by (simp add: round32_def binade_eq [OF assms(1,2,3)] Let_def)
qed

lemma round32_1 [simp]: "round32 1 = Finite 1"
  by (rule round32_eval [where e = 0]) (simp_all add: round_even_def powr_neg_numeral)

lemma round32_m1 [simp]: "round32 (- 1) = Finite (- 1)"
  by (rule round32_eval [where e = 0]) (simp_all add: round_even_def powr_neg_numeral)


subsection \<open>Colour helpers\<close>

lemma u8_le_255: "unat (a :: u8) \<le> 255"
  using unsigned_less [of a, where 'a = nat] by simp

lemma fmulu8_unat: "unat (fmulu8 a b) = unat a * unat b div 255"
proof -
  have p: "unat a * unat b \<le> 255 * 255"
    using u8_le_255 [of a] u8_le_255 [of b] by (rule mult_le_mono)
  have ua: "unat (ucast a :: u32) = unat a" and ub: "unat (ucast b :: u32) = unat b"
    using u8_le_255 [of a] u8_le_255 [of b]
    by (simp_all add: unsigned_ucast_eq take_bit_nat_eq_self)
  have m: "unat ((ucast a :: u32) * (ucast b :: u32)) = unat a * unat b"
    using p by (simp add: unat_word_ariths ua ub)
  have d: "unat (((ucast a :: u32) * (ucast b :: u32)) div 255) = unat a * unat b div 255"
    by (simp add: unat_div m)
  have q: "unat a * unat b div 255 < 256" using p by simp
  show ?thesis unfolding fmulu8_def
    using q d by (simp add: unsigned_ucast_eq take_bit_nat_eq_self)
qed

lemma byte_masks:
  "(0xff :: u32) = mask 8"
  "(0xff00 :: u32) = push_bit 8 (mask 8)"
  "(0xff0000 :: u32) = push_bit 16 (mask 8)"
  "(0xff000000 :: u32) = push_bit 24 (mask 8)"
  by (simp_all add: mask_eq_exp_minus_1)

lemma serialize_parse_packed: "serialize_argb (PARSE_PACKED_COLOR c) = c"
proof (rule bit_word_eqI)
  fix n assume n: "n < LENGTH(32)"
  consider "n < 8" | "8 \<le> n" "n < 16" | "16 \<le> n" "n < 24" | "24 \<le> n" "n < 32"
    using n by fastforce
  then show "bit (serialize_argb (PARSE_PACKED_COLOR c)) n = bit c n"
    unfolding serialize_argb_def PARSE_PACKED_COLOR_def byte_masks
    by cases (auto simp add: bit_simps)
qed

lemma parse_packed_bytes:
  "PARSE_PACKED_COLOR c =
     (ucast (drop_bit 16 c), ucast (drop_bit 8 c), ucast c, ucast (drop_bit 24 c))"
  unfolding PARSE_PACKED_COLOR_def byte_masks
  by (auto simp add: bit_eq_iff bit_simps)

text \<open>
  Claim C9. For every 32-bit packed colour word \<^verbatim>\<open>0xAARRGGBB\<close>, \<^verbatim>\<open>PARSE_PACKED_COLOR\<close>
  yields the bytes \<open>[R, G, B, A]\<close> (bits 16 to 23, 8 to 15, 0 to 7 and 24 to 31 of the
  word), and writing these bytes back in the layout \<^verbatim>\<open>0xAARRGGBB\<close> gives the word again.
\<close>

theorem packed_color_round_trip:
  "PARSE_PACKED_COLOR c =
     (ucast (drop_bit 16 c), ucast (drop_bit 8 c), ucast c, ucast (drop_bit 24 c))
   \<and> serialize_argb (PARSE_PACKED_COLOR c) = c"
  using parse_packed_bytes [of c] serialize_parse_packed [of c] by simp

subsection \<open>Committing a strip\<close>

text \<open>One round of the loop of \<^verbatim>\<open>tr_commit_surf\<close> when no check fails, and the state
  after \<open>m\<close> rounds that start at triangle \<open>i\<close>.\<close>

definition tri_step :: "int \<Rightarrow> int \<Rightarrow> tr_context \<Rightarrow> tr_context" where
  "tri_step lt i rc =
     (let ns = rc_num_surfs rc; nv = rc_num_verts rc; l = rc_lists rc lt;
          src = rc_surfs rc (if i = 0 then ns else ns - 1)
      in rc\<lparr>rc_surfs := (rc_surfs rc)
              (ns := src\<lparr>first_vert := nv, num_verts := 3, strip_offset := i\<rparr>),
            rc_lists := (rc_lists rc)
              (lt := l\<lparr>surfs := (surfs l)(num_surfs l := ns), num_surfs := num_surfs l + 1\<rparr>),
            rc_num_verts := nv + 1, rc_num_surfs := ns + 1\<rparr>)"

definition tris_done :: "int \<Rightarrow> int \<Rightarrow> int \<Rightarrow> tr_context \<Rightarrow> tr_context" where
  "tris_done lt i m rc =
     (let ns = rc_num_surfs rc; nv = rc_num_verts rc; l = rc_lists rc lt;
          src = rc_surfs rc (if i = 0 then ns else ns - 1)
      in rc\<lparr>rc_surfs := (\<lambda>j. if ns \<le> j \<and> j < ns + m
                             then src\<lparr>first_vert := nv + (j - ns), num_verts := 3,
                                      strip_offset := i + (j - ns)\<rparr>
                             else rc_surfs rc j),
            rc_lists := (rc_lists rc)
              (lt := l\<lparr>surfs := (\<lambda>j. if num_surfs l \<le> j \<and> j < num_surfs l + m
                                     then ns + (j - num_surfs l) else surfs l j),
                       num_surfs := num_surfs l + m\<rparr>),
            rc_num_verts := nv + m, rc_num_surfs := ns + m\<rparr>)"

lemma commit_tris_step:
  assumes "i < n - 2" and "0 \<le> i" and "i \<le> rc_num_surfs rc"
    and "rc_num_surfs rc < TR_MAX_SURFS e"
    and "i = 0 \<longrightarrow> new_surf = rc_num_surfs rc"
  shows "commit_tris e lt new_surf n i rc = commit_tris e lt new_surf n (i + 1) (tri_step lt i rc)"
proof (cases "i = 0")
  case True
  with assms show ?thesis
    by (subst commit_tris.simps) (simp add: tri_step_def list_append_surf_def Let_def)
next
  case False
  with assms have ns: "rc_num_surfs rc \<noteq> 0" by simp
  have "tr_reserve_surf e rc True = Inr (rc\<lparr>rc_surfs := (rc_surfs rc)
                   (rc_num_surfs rc := (rc_surfs rc (rc_num_surfs rc - 1))
                      \<lparr>first_vert := rc_num_verts rc, num_verts := 0\<rparr>)\<rparr>)"
    using assms ns by (simp add: tr_reserve_surf_def Let_def)
  with False assms show ?thesis
    by (subst commit_tris.simps) (simp add: tri_step_def list_append_surf_def Let_def)
qed

lemma tris_done_zero: "tris_done lt i 0 rc = rc"
proof -
  have a: "(\<lambda>j. if (a::int) \<le> j \<and> j < a then f j else g j) = g" for a f and g :: "int \<Rightarrow> 'a"
    by (auto simp add: fun_eq_iff)
  show ?thesis by (simp add: tris_done_def Let_def a)
qed

lemma tris_done_step:
  assumes "0 < m" and "0 \<le> i"
  shows "tris_done lt (i + 1) (m - 1) (tri_step lt i rc) = tris_done lt i m rc"
proof (rule tr_context.equality)
  show "rc_surfs (tris_done lt (i + 1) (m - 1) (tri_step lt i rc)) = rc_surfs (tris_done lt i m rc)"
    using assms by (auto simp add: tris_done_def tri_step_def Let_def fun_eq_iff)
  show "rc_lists (tris_done lt (i + 1) (m - 1) (tri_step lt i rc)) = rc_lists (tris_done lt i m rc)"
    using assms by (auto simp add: tris_done_def tri_step_def Let_def fun_eq_iff)
qed (simp_all add: tris_done_def tri_step_def Let_def)

lemma commit_tris_closed:
  assumes "0 \<le> i" and "i \<le> rc_num_surfs rc"
    and "rc_num_surfs rc + (n - 2 - i) \<le> TR_MAX_SURFS e"
    and "i = 0 \<longrightarrow> new_surf = rc_num_surfs rc"
  shows "commit_tris e lt new_surf n i rc = Inr (tris_done lt i (max 0 (n - 2 - i)) rc)"
  using assms
proof (induction "nat (n - 2 - i)" arbitrary: i rc)
  case 0
  then have "\<not> i < n - 2" by simp
  then show ?case by (subst commit_tris.simps) (simp add: tris_done_zero)
next
  case (Suc k)
  then have lt: "i < n - 2" by linarith
  have cap: "rc_num_surfs rc < TR_MAX_SURFS e" using Suc.prems lt by linarith
  have step: "commit_tris e lt new_surf n i rc
      = commit_tris e lt new_surf n (i + 1) (tri_step lt i rc)"
    using lt Suc.prems cap by (intro commit_tris_step) auto
  have ns: "rc_num_surfs (tri_step lt i rc) = rc_num_surfs rc + 1"
    by (simp add: tri_step_def Let_def)
  have "commit_tris e lt new_surf n (i + 1) (tri_step lt i rc)
      = Inr (tris_done lt (i + 1) (max 0 (n - 2 - (i + 1))) (tri_step lt i rc))"
    using Suc.hyps(2) Suc.prems lt by (intro Suc.hyps(1)) (auto simp add: ns)
  moreover have "max 0 (n - 2 - (i + 1)) = max 0 (n - 2 - i) - 1" using lt by simp
  moreover have "0 < max 0 (n - 2 - i)" using lt by simp
  ultimately show ?case using step tris_done_step [of "max 0 (n - 2 - i)" i lt rc] Suc.prems(1)
    by (simp only:)
qed


lemma tr_commit_surf_tris:
  assumes lt: "list_type t = TA_LIST_TRANSLUCENT \<or> list_type t = TA_LIST_PUNCH_THROUGH"
    and ns: "0 \<le> rc_num_surfs rc"
    and cap: "rc_num_surfs rc + (num_verts (rc_surfs rc (rc_num_surfs rc)) - 2) \<le> TR_MAX_SURFS e"
  shows "tr_commit_surf e t rc =
      Inr ((tris_done (list_type t) 0 (max 0 (num_verts (rc_surfs rc (rc_num_surfs rc)) - 2))
             (rc\<lparr>rc_lists := (rc_lists rc)(list_type t := (rc_lists rc (list_type t))
                   \<lparr>num_orig_surfs := num_orig_surfs (rc_lists rc (list_type t)) + 1\<rparr>)\<rparr>))
           \<lparr>rc_num_verts := rc_num_verts rc
               + max 0 (num_verts (rc_surfs rc (rc_num_surfs rc)) - 2) + 2\<rparr>)"
proof -
  let ?lt = "list_type t"
  let ?n = "num_verts (rc_surfs rc (rc_num_surfs rc))"
  let ?rc1 = "rc\<lparr>rc_lists := (rc_lists rc)(?lt := (rc_lists rc ?lt)
                   \<lparr>num_orig_surfs := num_orig_surfs (rc_lists rc ?lt) + 1\<rparr>)\<rparr>"
  have valid: "0 \<le> ?lt \<and> ?lt < TA_NUM_LISTS" using lt by (auto simp add: ta_list_defs)
  have loop: "commit_tris e ?lt (rc_num_surfs rc) ?n 0 ?rc1
      = Inr (tris_done ?lt 0 (max 0 (?n - 2 - 0)) ?rc1)"
    using ns cap by (intro commit_tris_closed) simp_all
  have nv: "rc_num_verts (tris_done ?lt 0 m ?rc1) = rc_num_verts rc + m" for m
    by (simp add: tris_done_def Let_def)
  show ?thesis
    using valid lt loop by (simp add: tr_commit_surf_def Let_def nv)
qed


text \<open>
  Claim C2. A strip of \<open>n \<ge> 3\<close> staged vertices committed while the list type is
  TRANSLUCENT or PUNCH_THROUGH gives exactly \<open>n - 2\<close> surfaces: the \<open>i\<close>-th has three
  vertices, strip offset \<open>i\<close> and first vertex the context's vertex count at that round
  (the count before the commit plus \<open>i\<close>), and is entered in the list; the context's
  vertex count advances by one per triangle and by two after the loop, its surface count
  by \<open>n - 2\<close>. For OPAQUE and OPAQUE_MODVOL the commit enters the one staged surface, which
  keeps the whole strip, and advances the vertex count by \<open>n\<close> and the surface count by one.
  The commit succeeds when the surface array has room for the new surfaces.
\<close>

theorem commit_strip:
  assumes n: "num_verts (rc_surfs rc (rc_num_surfs rc)) = n" and ns: "0 \<le> rc_num_surfs rc"
  shows "((list_type t = TA_LIST_TRANSLUCENT \<or> list_type t = TA_LIST_PUNCH_THROUGH)
          \<and> 3 \<le> n \<and> rc_num_surfs rc + (n - 2) \<le> TR_MAX_SURFS e \<longrightarrow>
          (\<exists>rc'. tr_commit_surf e t rc = Inr rc'
             \<and> rc_num_surfs rc' = rc_num_surfs rc + (n - 2)
             \<and> rc_num_verts rc' = rc_num_verts rc + (n - 2) + 2
             \<and> (\<forall>i. 0 \<le> i \<and> i < n - 2 \<longrightarrow>
                   rc_surfs rc' (rc_num_surfs rc + i) =
                     (rc_surfs rc (rc_num_surfs rc))
                       \<lparr>first_vert := rc_num_verts rc + i, num_verts := 3, strip_offset := i\<rparr>
                 \<and> surfs (rc_lists rc' (list_type t))
                       (num_surfs (rc_lists rc (list_type t)) + i) = rc_num_surfs rc + i)
             \<and> (\<forall>k. k < rc_num_surfs rc \<longrightarrow> rc_surfs rc' k = rc_surfs rc k)
             \<and> num_surfs (rc_lists rc' (list_type t))
                 = num_surfs (rc_lists rc (list_type t)) + (n - 2)
             \<and> num_orig_surfs (rc_lists rc' (list_type t))
                 = num_orig_surfs (rc_lists rc (list_type t)) + 1))
       \<and> ((list_type t = TA_LIST_OPAQUE \<or> list_type t = TA_LIST_OPAQUE_MODVOL) \<longrightarrow>
          (\<exists>rc'. tr_commit_surf e t rc = Inr rc'
             \<and> rc_num_surfs rc' = rc_num_surfs rc + 1
             \<and> rc_num_verts rc' = rc_num_verts rc + n
             \<and> rc_surfs rc' = rc_surfs rc
             \<and> surfs (rc_lists rc' (list_type t)) (num_surfs (rc_lists rc (list_type t)))
                 = rc_num_surfs rc
             \<and> num_surfs (rc_lists rc' (list_type t))
                 = num_surfs (rc_lists rc (list_type t)) + 1
             \<and> num_orig_surfs (rc_lists rc' (list_type t))
                 = num_orig_surfs (rc_lists rc (list_type t)) + 1))"
proof (intro conjI impI)
  assume h: "(list_type t = TA_LIST_TRANSLUCENT \<or> list_type t = TA_LIST_PUNCH_THROUGH)
          \<and> 3 \<le> n \<and> rc_num_surfs rc + (n - 2) \<le> TR_MAX_SURFS e"
  then have m: "max 0 (n - 2) = n - 2" by simp
  have "tr_commit_surf e t rc =
      Inr ((tris_done (list_type t) 0 (n - 2)
             (rc\<lparr>rc_lists := (rc_lists rc)(list_type t := (rc_lists rc (list_type t))
                   \<lparr>num_orig_surfs := num_orig_surfs (rc_lists rc (list_type t)) + 1\<rparr>)\<rparr>))
           \<lparr>rc_num_verts := rc_num_verts rc + (n - 2) + 2\<rparr>)"
    using tr_commit_surf_tris [of t rc e] h ns n m by simp
  then show "\<exists>rc'. tr_commit_surf e t rc = Inr rc'
             \<and> rc_num_surfs rc' = rc_num_surfs rc + (n - 2)
             \<and> rc_num_verts rc' = rc_num_verts rc + (n - 2) + 2
             \<and> (\<forall>i. 0 \<le> i \<and> i < n - 2 \<longrightarrow>
                   rc_surfs rc' (rc_num_surfs rc + i) =
                     (rc_surfs rc (rc_num_surfs rc))
                       \<lparr>first_vert := rc_num_verts rc + i, num_verts := 3, strip_offset := i\<rparr>
                 \<and> surfs (rc_lists rc' (list_type t))
                       (num_surfs (rc_lists rc (list_type t)) + i) = rc_num_surfs rc + i)
             \<and> (\<forall>k. k < rc_num_surfs rc \<longrightarrow> rc_surfs rc' k = rc_surfs rc k)
             \<and> num_surfs (rc_lists rc' (list_type t))
                 = num_surfs (rc_lists rc (list_type t)) + (n - 2)
             \<and> num_orig_surfs (rc_lists rc' (list_type t))
                 = num_orig_surfs (rc_lists rc (list_type t)) + 1"
    by (simp add: tris_done_def Let_def)
next
  assume h: "list_type t = TA_LIST_OPAQUE \<or> list_type t = TA_LIST_OPAQUE_MODVOL"
  then show "\<exists>rc'. tr_commit_surf e t rc = Inr rc'
             \<and> rc_num_surfs rc' = rc_num_surfs rc + 1
             \<and> rc_num_verts rc' = rc_num_verts rc + n
             \<and> rc_surfs rc' = rc_surfs rc
             \<and> surfs (rc_lists rc' (list_type t)) (num_surfs (rc_lists rc (list_type t)))
                 = rc_num_surfs rc
             \<and> num_surfs (rc_lists rc' (list_type t))
                 = num_surfs (rc_lists rc (list_type t)) + 1
             \<and> num_orig_surfs (rc_lists rc' (list_type t))
                 = num_orig_surfs (rc_lists rc (list_type t)) + 1"
    using n by (auto simp add: tr_commit_surf_def Let_def ta_list_defs list_append_surf_def)
qed

theorem commit_strip_witness:
  "(\<exists>rc'. tr_commit_surf small_env (blank_tr\<lparr>list_type := TA_LIST_TRANSLUCENT\<rparr>) staged_strip4 = Inr rc'
      \<and> rc_num_surfs rc' = 3 \<and> rc_num_verts rc' = 8
      \<and> rc_surfs rc' 1 = zero_surface\<lparr>first_vert := 4, num_verts := 3, strip_offset := 0\<rparr>
      \<and> rc_surfs rc' 2 = zero_surface\<lparr>first_vert := 5, num_verts := 3, strip_offset := 1\<rparr>
      \<and> surfs (rc_lists rc' TA_LIST_TRANSLUCENT) 0 = 1
      \<and> surfs (rc_lists rc' TA_LIST_TRANSLUCENT) 1 = 2
      \<and> num_surfs (rc_lists rc' TA_LIST_TRANSLUCENT) = 2)
   \<and> (\<exists>rc'. tr_commit_surf small_env (blank_tr\<lparr>list_type := TA_LIST_OPAQUE\<rparr>) staged_strip4 = Inr rc'
      \<and> rc_num_surfs rc' = 2 \<and> rc_num_verts rc' = 8
      \<and> rc_surfs rc' 1 = zero_surface\<lparr>first_vert := 4, num_verts := 4\<rparr>
      \<and> surfs (rc_lists rc' TA_LIST_OPAQUE) 0 = 1
      \<and> num_surfs (rc_lists rc' TA_LIST_OPAQUE) = 1)"
proof -
  have n: "num_verts (rc_surfs staged_strip4 (rc_num_surfs staged_strip4)) = 4"
    and ns: "0 \<le> rc_num_surfs staged_strip4"
    by (simp_all add: staged_strip4_def blank_rc_def zero_surface_def)
  have a: "\<exists>rc'. tr_commit_surf small_env (blank_tr\<lparr>list_type := TA_LIST_TRANSLUCENT\<rparr>) staged_strip4 = Inr rc'
      \<and> rc_num_surfs rc' = 3 \<and> rc_num_verts rc' = 8
      \<and> rc_surfs rc' 1 = zero_surface\<lparr>first_vert := 4, num_verts := 3, strip_offset := 0\<rparr>
      \<and> rc_surfs rc' 2 = zero_surface\<lparr>first_vert := 5, num_verts := 3, strip_offset := 1\<rparr>
      \<and> surfs (rc_lists rc' TA_LIST_TRANSLUCENT) 0 = 1
      \<and> surfs (rc_lists rc' TA_LIST_TRANSLUCENT) 1 = 2
      \<and> num_surfs (rc_lists rc' TA_LIST_TRANSLUCENT) = 2"
  proof -
    from commit_strip [OF n ns, of "blank_tr\<lparr>list_type := TA_LIST_TRANSLUCENT\<rparr>" small_env]
    obtain rc' where r: "tr_commit_surf small_env (blank_tr\<lparr>list_type := TA_LIST_TRANSLUCENT\<rparr>) staged_strip4 = Inr rc'"
      "rc_num_surfs rc' = rc_num_surfs staged_strip4 + (4 - 2)"
      "rc_num_verts rc' = rc_num_verts staged_strip4 + (4 - 2) + 2"
      "\<forall>i. 0 \<le> i \<and> i < 4 - 2 \<longrightarrow>
                   rc_surfs rc' (rc_num_surfs staged_strip4 + i) =
                     (rc_surfs staged_strip4 (rc_num_surfs staged_strip4))
                       \<lparr>first_vert := rc_num_verts staged_strip4 + i, num_verts := 3, strip_offset := i\<rparr>
                 \<and> surfs (rc_lists rc' TA_LIST_TRANSLUCENT)
                       (num_surfs (rc_lists staged_strip4 TA_LIST_TRANSLUCENT) + i) = rc_num_surfs staged_strip4 + i"
      "num_surfs (rc_lists rc' TA_LIST_TRANSLUCENT)
                 = num_surfs (rc_lists staged_strip4 TA_LIST_TRANSLUCENT) + (4 - 2)"
      by (auto simp add: small_env_def staged_strip4_def blank_rc_def blank_tr_def)
    from r(4) [rule_format, of 0] r(4) [rule_format, of 1] r(1,2,3,5) show ?thesis
      by (simp add: staged_strip4_def blank_rc_def zero_surface_def)
  qed
  have b: "\<exists>rc'. tr_commit_surf small_env (blank_tr\<lparr>list_type := TA_LIST_OPAQUE\<rparr>) staged_strip4 = Inr rc'
      \<and> rc_num_surfs rc' = 2 \<and> rc_num_verts rc' = 8
      \<and> rc_surfs rc' 1 = zero_surface\<lparr>first_vert := 4, num_verts := 4\<rparr>
      \<and> surfs (rc_lists rc' TA_LIST_OPAQUE) 0 = 1
      \<and> num_surfs (rc_lists rc' TA_LIST_OPAQUE) = 1"
    using commit_strip [OF n ns, of "blank_tr\<lparr>list_type := TA_LIST_OPAQUE\<rparr>" small_env]
    by (auto simp add: staged_strip4_def blank_rc_def zero_surface_def)
  from a b show ?thesis by blast
qed


subsection \<open>Polygon parameters of the punch-through list\<close>

lemma punch_through_params:
  "poly_surf_params TA_LIST_PUNCH_THROUGH ctx param p =
     p\<lparr>depth_write := \<not> isp_z_write_disable (type0_isp param),
       depth_func := translate_depth_func (isp_depth_compare_mode (type0_isp param)),
       cull := translate_cull (isp_culling_mode (type0_isp param)),
       src_blend := BLEND_NONE,
       dst_blend := BLEND_NONE,
       shade := translate_shade_mode (tsp_texture_shading_instr (type0_tsp param)),
       ignore_alpha := \<not> tsp_use_alpha (type0_tsp param),
       ignore_texture_alpha := tsp_ignore_tex_alpha (type0_tsp param),
       offset_color := pcw_offset (type0_pcw param),
       alpha_test := True,
       alpha_ref := ctx_alpha_ref ctx\<rparr>"
  by (simp add: poly_surf_params_def ta_list_defs)

text \<open>
  Claim C1. For a polygon parameter parsed while the list type is PUNCH_THROUGH the claim
  asks for a surface with alpha test on, the context's alpha reference and depth function
  GEQUAL. The code sets the first two; the depth function stays the translation of the
  parameter's depth compare mode, because the branch that sets GEQUAL comes in the
  \<^verbatim>\<open>else if\<close> chain after the branch taken for every list that is not translucent. The
  theorem states what the code computes for every punch-through polygon, and runs the
  handler on a polygon with depth compare mode 4, whose surface gets \<^const>\<open>DEPTH_LESS\<close>.
\<close>

theorem punch_through_depth_func:
  "(\<forall>ctx param p.
      alpha_test (poly_surf_params TA_LIST_PUNCH_THROUGH ctx param p)
      \<and> alpha_ref (poly_surf_params TA_LIST_PUNCH_THROUGH ctx param p) = ctx_alpha_ref ctx
      \<and> depth_func (poly_surf_params TA_LIST_PUNCH_THROUGH ctx param p)
          = translate_depth_func (isp_depth_compare_mode (type0_isp param)))
   \<and> (\<exists>t' rc'. tr_parse_poly_param small_env (blank_tr\<lparr>list_type := TA_LIST_PUNCH_THROUGH\<rparr>)
                  (blank_ctx\<lparr>ctx_alpha_ref := 128\<rparr>) blank_rc punch_through_poly = Inr (t', rc')
        \<and> alpha_test (params (rc_surfs rc' (rc_num_surfs rc')))
        \<and> alpha_ref (params (rc_surfs rc' (rc_num_surfs rc'))) = 128
        \<and> depth_func (params (rc_surfs rc' (rc_num_surfs rc'))) = DEPTH_LESS)"
proof (intro conjI allI)
  show "\<exists>t' rc'. tr_parse_poly_param small_env (blank_tr\<lparr>list_type := TA_LIST_PUNCH_THROUGH\<rparr>)
                  (blank_ctx\<lparr>ctx_alpha_ref := 128\<rparr>) blank_rc punch_through_poly = Inr (t', rc')
        \<and> alpha_test (params (rc_surfs rc' (rc_num_surfs rc')))
        \<and> alpha_ref (params (rc_surfs rc' (rc_num_surfs rc'))) = 128
        \<and> depth_func (params (rc_surfs rc' (rc_num_surfs rc'))) = DEPTH_LESS"
    by (simp add: tr_parse_poly_param_def small_env_def blank_tr_def blank_ctx_def blank_rc_def
        punch_through_poly_def blank_poly_def blank_pcw_def blank_isp_def blank_tsp_def
        ta_param_defs ta_list_defs poly_colors_def tr_reserve_surf_def upd_surf_def Let_def
        punch_through_params [unfolded ta_list_defs] translate_depth_func_def)
qed (simp_all add: punch_through_params)


subsection \<open>Winding of the emitted triangles\<close>

lemma and_one_odd: "((a::int) AND 1 \<noteq> 0) = odd a"
  by (simp add: and_one_eq mod_2_eq_odd)

text \<open>The index array after one round of the loop.\<close>

definition tri_written :: "ta_surface \<Rightarrow> int \<Rightarrow> tr_context \<Rightarrow> tr_context" where
  "tri_written s j rc =
     rc\<lparr>rc_indices :=
           (if odd (strip_offset s + j)
            then (rc_indices rc)(rc_num_indices rc := first_vert s + j,
                   rc_num_indices rc + 1 := first_vert s + j + 1,
                   rc_num_indices rc + 2 := first_vert s + j + 2)
            else (rc_indices rc)(rc_num_indices rc := first_vert s + j,
                   rc_num_indices rc + 1 := first_vert s + j + 2,
                   rc_num_indices rc + 2 := first_vert s + j + 1)),
         rc_num_indices := rc_num_indices rc + 3\<rparr>"

lemma emit_tris_stop: "\<not> j < num_verts s - 2 \<Longrightarrow> emit_tris s j rc = rc"
  by (subst emit_tris.simps) simp

lemma emit_tris_round:
  "j < num_verts s - 2 \<Longrightarrow> emit_tris s j rc = emit_tris s (j + 1) (tri_written s j rc)"
  by (subst emit_tris.simps) (simp add: Let_def and_one_odd tri_written_def)

lemma emit_tris_count:
  "rc_num_indices (emit_tris s j rc) = rc_num_indices rc + 3 * max 0 (num_verts s - 2 - j)"
proof (induction "nat (num_verts s - 2 - j)" arbitrary: j rc)
  case 0
  then show ?case by (simp add: emit_tris_stop)
next
  case (Suc m)
  then have run: "j < num_verts s - 2" by linarith
  have "m = nat (num_verts s - 2 - (j + 1))" using Suc.hyps(2) by linarith
  from Suc.hyps(1) [OF this, of "tri_written s j rc"] run show ?case
    by (simp add: emit_tris_round tri_written_def)
qed

lemma emit_tris_below:
  "k < rc_num_indices rc \<Longrightarrow> rc_indices (emit_tris s j rc) k = rc_indices rc k"
proof (induction "nat (num_verts s - 2 - j)" arbitrary: j rc)
  case 0
  then show ?case by (simp add: emit_tris_stop)
next
  case (Suc m)
  then have run: "j < num_verts s - 2" by linarith
  have m: "m = nat (num_verts s - 2 - (j + 1))" using Suc.hyps(2) by linarith
  have "rc_indices (emit_tris s (j + 1) (tri_written s j rc)) k = rc_indices (tri_written s j rc) k"
    using Suc.prems by (intro Suc.hyps(1) [OF m]) (simp add: tri_written_def)
  with run Suc.prems show ?case
    by (simp add: emit_tris_round tri_written_def)
qed

lemma emit_tris_triple:
  "j0 \<le> j \<Longrightarrow> j < num_verts s - 2 \<Longrightarrow>
   rc_indices (emit_tris s j0 rc) (rc_num_indices rc + 3 * (j - j0)) = first_vert s + j
   \<and> rc_indices (emit_tris s j0 rc) (rc_num_indices rc + 3 * (j - j0) + 1)
       = (if odd (strip_offset s + j) then first_vert s + j + 1 else first_vert s + j + 2)
   \<and> rc_indices (emit_tris s j0 rc) (rc_num_indices rc + 3 * (j - j0) + 2)
       = (if odd (strip_offset s + j) then first_vert s + j + 2 else first_vert s + j + 1)"
proof (induction "nat (j - j0)" arbitrary: j0 rc)
  case 0
  then have eq: "j = j0" by simp
  have run: "j0 < num_verts s - 2" using 0 by simp
  have "rc_indices (emit_tris s (j0 + 1) (tri_written s j0 rc)) k
      = rc_indices (tri_written s j0 rc) k" if "k < rc_num_indices rc + 3" for k
    using that by (intro emit_tris_below) (simp add: tri_written_def)
  then show ?case unfolding eq emit_tris_round [OF run]
    by (simp add: tri_written_def)
next
  case (Suc m)
  then have run: "j0 < num_verts s - 2" and nxt: "j0 + 1 \<le> j" by linarith+
  have m: "m = nat (j - (j0 + 1))" using Suc.hyps(2) by linarith
  have k: "rc_num_indices (tri_written s j0 rc) + 3 * (j - (j0 + 1))
            = rc_num_indices rc + 3 * (j - j0)"
    by (simp add: tri_written_def)
  from Suc.hyps(1) [OF m nxt Suc.prems(2), of "tri_written s j0 rc"]
  show ?case unfolding emit_tris_round [OF run] k .
qed


text \<open>The number of triangles of a strip surface, and the number of indices that the
  surfaces at the positions \<open>a \<le> q < b\<close> of a list take.\<close>

definition surf_tris :: "ta_surface \<Rightarrow> int" where
  "surf_tris s = max 0 (num_verts s - 2)"

definition indices_between :: "tr_context \<Rightarrow> int \<Rightarrow> int \<Rightarrow> int \<Rightarrow> int" where
  "indices_between rc lt a b =
     (\<Sum>q = a..<b. 3 * surf_tris (rc_surfs rc (surfs (rc_lists rc lt) q)))"

lemma indices_between_empty [simp]: "indices_between rc lt a a = 0"
  by (simp add: indices_between_def)

lemma indices_between_first:
  "a < b \<Longrightarrow> indices_between rc lt a b
     = 3 * surf_tris (rc_surfs rc (surfs (rc_lists rc lt) a)) + indices_between rc lt (a + 1) b"
proof -
  assume "a < b"
  then have "{a..<b} = insert a {a + 1..<b}" by auto
  then show ?thesis by (simp add: indices_between_def)
qed

lemma indices_between_cong:
  "rc_surfs rc' = rc_surfs rc \<Longrightarrow> rc_lists rc' = rc_lists rc \<Longrightarrow>
   indices_between rc' lt a b = indices_between rc lt a b"
  by (simp add: indices_between_def)

text \<open>The three indices at \<open>k\<close> are the triangle \<open>t\<close> of the surface \<open>s\<close>.\<close>

definition winding_at :: "(int \<Rightarrow> int) \<Rightarrow> int \<Rightarrow> ta_surface \<Rightarrow> int \<Rightarrow> bool" where
  "winding_at idx k s t =
     (idx k = first_vert s + t
      \<and> idx (k + 1) = (if odd (strip_offset s + t) then first_vert s + t + 1 else first_vert s + t + 2)
      \<and> idx (k + 2) = (if odd (strip_offset s + t) then first_vert s + t + 2 else first_vert s + t + 1))"

lemma emit_tris_winding:
  "0 \<le> t \<Longrightarrow> t < num_verts s - 2 \<Longrightarrow>
   winding_at (rc_indices (emit_tris s 0 rc)) (rc_num_indices rc + 3 * t) s t"
  using emit_tris_triple [of 0 t s rc] by (simp add: winding_at_def)

lemma emit_tris_num:
  "rc_num_indices (emit_tris s 0 rc) = rc_num_indices rc + 3 * surf_tris s"
  by (simp add: emit_tris_count surf_tris_def)

lemma merge_surfs_stop:
  "\<not> j < num_surfs (rc_lists rc lt) \<Longrightarrow> merge_surfs e lt i j nm rc = Inr (j, nm, rc)"
  by (subst merge_surfs.simps) (simp add: Let_def)

lemma merge_surfs_indices:
  assumes "merge_surfs e lt i j nm rc = Inr (j', nm', rc')"
  shows "rc_lists rc' = rc_lists rc \<and> rc_surfs rc' = rc_surfs rc
     \<and> j \<le> j' \<and> nm \<le> nm' \<and> (j \<le> num_surfs (rc_lists rc lt) \<longrightarrow> j' \<le> num_surfs (rc_lists rc lt))
     \<and> rc_num_indices rc' = rc_num_indices rc + indices_between rc lt j j'
     \<and> (\<forall>k. k < rc_num_indices rc \<longrightarrow> rc_indices rc' k = rc_indices rc k)
     \<and> (\<forall>p t. j \<le> p \<and> p < j' \<and> 0 \<le> t
            \<and> t < num_verts (rc_surfs rc (surfs (rc_lists rc lt) p)) - 2 \<longrightarrow>
          winding_at (rc_indices rc') (rc_num_indices rc + indices_between rc lt j p + 3 * t)
            (rc_surfs rc (surfs (rc_lists rc lt) p)) t)"
  using assms
proof (induction "nat (num_surfs (rc_lists rc lt) - j)" arbitrary: j nm rc)
  case 0
  then have "\<not> j < num_surfs (rc_lists rc lt)" by simp
  from merge_surfs_stop [OF this, of e i nm] "0.prems" show ?case by auto
next
  case (Suc m)
  then have run: "j < num_surfs (rc_lists rc lt)" by linarith
  let ?l = "rc_lists rc lt"
  let ?s = "rc_surfs rc (surfs ?l j)"
  show ?case
  proof (cases "surfs ?l j \<noteq> surfs ?l i
              \<and> \<not> tr_can_merge_surfs (rc_surfs rc (surfs ?l i)) ?s")
    case True
    with run Suc.prems have "j' = j" "nm' = nm" "rc' = rc"
      by (subst (asm) merge_surfs.simps; simp add: Let_def)+
    then show ?thesis using run by auto
  next
    case False
    let ?nm1 = "if surfs ?l j \<noteq> surfs ?l i then nm + 1 else nm"
    let ?rc1 = "emit_tris ?s 0 rc"
    from run False Suc.prems
    have rec: "merge_surfs e lt i (j + 1) ?nm1 ?rc1 = Inr (j', nm', rc')"
      by (subst (asm) merge_surfs.simps; simp add: Let_def split: if_splits)+
    have fr: "rc_lists ?rc1 = rc_lists rc" "rc_surfs ?rc1 = rc_surfs rc"
      by (simp_all add: emit_tris_frame)
    have m: "m = nat (num_surfs (rc_lists ?rc1 lt) - (j + 1))"
      using Suc.hyps(2) by (simp add: fr)
    note ih = Suc.hyps(1) [OF m rec, unfolded fr indices_between_cong [OF fr(2) fr(1)] emit_tris_num]
    from ih have j': "j + 1 \<le> j'" by simp
    then have jj: "j < j'" by simp
    have frame: "rc_lists rc' = rc_lists rc \<and> rc_surfs rc' = rc_surfs rc" using ih by simp
    have bounds: "j \<le> j' \<and> nm \<le> nm'
        \<and> (j \<le> num_surfs ?l \<longrightarrow> j' \<le> num_surfs ?l)"
      using ih run by (auto split: if_splits)
    have num: "rc_num_indices rc' = rc_num_indices rc + indices_between rc lt j j'"
      using ih by (simp add: indices_between_first [OF jj])
    have below: "rc_indices rc' k = rc_indices rc k" if "k < rc_num_indices rc" for k
    proof -
      have "0 \<le> surf_tris ?s" by (simp add: surf_tris_def)
      with that have "k < rc_num_indices rc + 3 * surf_tris ?s" by simp
      with ih have "rc_indices rc' k = rc_indices ?rc1 k" by simp
      with that show ?thesis by (simp add: emit_tris_below)
    qed
    have tri: "winding_at (rc_indices rc') (rc_num_indices rc + indices_between rc lt j p + 3 * t)
            (rc_surfs rc (surfs ?l p)) t"
      if "j \<le> p" "p < j'" "0 \<le> t" "t < num_verts (rc_surfs rc (surfs ?l p)) - 2" for p t
    proof (cases "p = j")
      case True
      have w: "winding_at (rc_indices ?rc1) (rc_num_indices rc + 3 * t) ?s t"
        using that True by (intro emit_tris_winding) simp_all
      have "t + 1 \<le> surf_tris ?s" using that True by (simp add: surf_tris_def)
      then have lt: "rc_num_indices rc + 3 * t + 2 < rc_num_indices rc + 3 * surf_tris ?s"
        by simp
      have keep: "rc_indices rc' k = rc_indices ?rc1 k"
        if "k < rc_num_indices rc + 3 * surf_tris ?s" for k
        using ih that by simp
      have "rc_indices rc' (rc_num_indices rc + 3 * t) = rc_indices ?rc1 (rc_num_indices rc + 3 * t)"
        "rc_indices rc' (rc_num_indices rc + 3 * t + 1) = rc_indices ?rc1 (rc_num_indices rc + 3 * t + 1)"
        "rc_indices rc' (rc_num_indices rc + 3 * t + 2) = rc_indices ?rc1 (rc_num_indices rc + 3 * t + 2)"
        using lt by (intro keep; simp)+
      with w show ?thesis unfolding True by (simp add: winding_at_def)
    next
      case False
      with that have p: "j + 1 \<le> p" "j < p" by simp_all
      from ih p(1) that
      have "winding_at (rc_indices rc')
          (rc_num_indices rc + 3 * surf_tris ?s + indices_between rc lt (j + 1) p + 3 * t)
          (rc_surfs rc (surfs ?l p)) t"
        by simp
      then show ?thesis by (simp add: indices_between_first [OF p(2)] add.assoc)
    qed
    from frame bounds num below tri show ?thesis by blast
  qed
qed

lemma indices_between_split:
  "a \<le> p \<Longrightarrow> p \<le> b \<Longrightarrow>
   indices_between rc lt a b = indices_between rc lt a p + indices_between rc lt p b"
proof -
  assume "a \<le> p" "p \<le> b"
  then have "{a..<b} = {a..<p} \<union> {p..<b}" by auto
  moreover have "{a..<p} \<inter> {p..<b} = {}" by auto
  ultimately show ?thesis by (simp add: indices_between_def sum.union_disjoint)
qed

lemma indices_between_nonneg: "0 \<le> indices_between rc lt a b"
  by (simp add: indices_between_def surf_tris_def sum_nonneg)

lemma indices_between_agree:
  assumes "\<forall>q. a \<le> q \<and> q < b \<longrightarrow>
      rc_surfs rc' (surfs (rc_lists rc' lt) q) = rc_surfs rc (surfs (rc_lists rc lt) q)"
  shows "indices_between rc' lt a b = indices_between rc lt a b"
  unfolding indices_between_def using assms by (intro sum.cong) simp_all

lemma merge_groups_stop:
  "\<not> i < num_surfs (rc_lists rc lt) \<Longrightarrow> merge_groups e lt i nm rc = Inr (nm, rc)"
  by (subst merge_groups.simps) simp

text \<open>The state after one group of merged surfaces.\<close>

definition group_done :: "int \<Rightarrow> int \<Rightarrow> int \<Rightarrow> int \<Rightarrow> int \<Rightarrow> tr_context \<Rightarrow> tr_context" where
  "group_done lt i first_index j nm1 rc1 =
     (let root = surfs (rc_lists rc1 lt) i;
          rc2 = upd_surf root (\<lambda>s. s\<lparr>first_vert := first_index,
                             num_verts := rc_num_indices rc1 - first_index\<rparr>) rc1;
          l = rc_lists rc2 lt
      in rc2\<lparr>rc_lists := (rc_lists rc2)
              (lt := l\<lparr>surfs := (surfs l)(j - nm1 - 1 := surfs l i)\<rparr>)\<rparr>)"

lemma merge_groups_round:
  assumes "i < num_surfs (rc_lists rc lt)"
    and "merge_groups e lt i nm rc = Inr (nm', rc')"
  obtains j nm1 rc1 where "merge_surfs e lt i i nm rc = Inr (j, nm1, rc1)"
    and "merge_groups e lt j nm1 (group_done lt i (rc_num_indices rc) j nm1 rc1) = Inr (nm', rc')"
proof (cases "merge_surfs e lt i i nm rc")
  case (Inl err)
  from assms(2) assms(1) Inl have False by (subst (asm) merge_groups.simps) simp
  then show ?thesis ..
next
  case (Inr x)
  obtain j nm1 rc1 where x: "x = (j, nm1, rc1)" by (cases x)
  have ms: "merge_surfs e lt i i nm rc = Inr (j, nm1, rc1)" using Inr x by simp
  have fr: "rc_lists rc1 = rc_lists rc" using merge_surfs_indices [OF ms] by simp
  from assms(2) assms(1) ms
  have "merge_groups e lt j nm1 (group_done lt i (rc_num_indices rc) j nm1 rc1) = Inr (nm', rc')"
    by (subst (asm) merge_groups.simps) (simp add: Let_def group_done_def fr upd_surf_def)
  with ms show ?thesis by (rule that)
qed

lemma merge_groups_indices:
  assumes "merge_groups e lt i nm rc = Inr (nm', rc')"
    and "0 \<le> nm"
    and "num_surfs (rc_lists rc lt) = n"
    and "\<forall>p. i \<le> p \<and> p < n \<longrightarrow> surfs (rc_lists rc lt) p = es p \<and> rc_surfs rc (es p) = ss p"
    and "\<forall>p q. i \<le> p \<and> p < q \<and> q < n \<longrightarrow> es p \<noteq> es q"
  shows "(\<forall>k. k < rc_num_indices rc \<longrightarrow> rc_indices rc' k = rc_indices rc k)
     \<and> (\<forall>p t. i \<le> p \<and> p < n \<and> 0 \<le> t \<and> t < num_verts (ss p) - 2 \<longrightarrow>
          winding_at (rc_indices rc') (rc_num_indices rc + indices_between rc lt i p + 3 * t)
            (ss p) t)"
  using assms
proof (induction "nat (n - i)" arbitrary: i nm rc rule: less_induct)
  case less
  note run = less.prems(1) and nm0 = less.prems(2) and n = less.prems(3)
    and ent = less.prems(4) and dist = less.prems(5)
  show ?case
  proof (cases "i < n")
    case False
    then have "\<not> i < num_surfs (rc_lists rc lt)" using n by simp
    from merge_groups_stop [OF this, of e nm] run have "rc' = rc" by simp
    with False show ?thesis by auto
  next
    case True
    then have run_i: "i < num_surfs (rc_lists rc lt)" using n by simp
    from merge_groups_round [OF run_i run]
    obtain j nm1 rc1 where ms: "merge_surfs e lt i i nm rc = Inr (j, nm1, rc1)"
      and rec: "merge_groups e lt j nm1 (group_done lt i (rc_num_indices rc) j nm1 rc1)
                  = Inr (nm', rc')"
      by blast
    let ?rc3 = "group_done lt i (rc_num_indices rc) j nm1 rc1"
    note M = merge_surfs_indices [OF ms]
    have fr: "rc_lists rc1 = rc_lists rc" "rc_surfs rc1 = rc_surfs rc" using M by simp_all
    have ij: "i < j" using merge_surfs_progress [OF ms] run_i by simp
    have jn: "j \<le> n" using M run_i n by simp
    have nm1: "0 \<le> nm1" using M nm0 by simp
    have num1: "rc_num_indices rc1 = rc_num_indices rc + indices_between rc lt i j"
      using M by simp
    have idx3: "rc_indices ?rc3 = rc_indices rc1" "rc_num_indices ?rc3 = rc_num_indices rc1"
      by (simp_all add: group_done_def upd_surf_def Let_def)
    have n3: "num_surfs (rc_lists ?rc3 lt) = n"
      using n by (simp add: group_done_def upd_surf_def Let_def fr)
    have root: "surfs (rc_lists rc1 lt) i = es i" using ent True by (simp add: fr)
    have ent3: "surfs (rc_lists ?rc3 lt) p = es p \<and> rc_surfs ?rc3 (es p) = ss p"
      if "j \<le> p" "p < n" for p
    proof -
      have a: "surfs (rc_lists rc lt) p = es p" "rc_surfs rc (es p) = ss p"
        using ent that ij by simp_all
      have ne: "es i \<noteq> es p" using dist ij that True by simp
      have pos: "p \<noteq> j - nm1 - 1" using that nm1 by simp
      show ?thesis
        using a ne pos by (simp add: group_done_def upd_surf_def Let_def fr root [unfolded fr])
    qed
    have dist3: "\<forall>p q. j \<le> p \<and> p < q \<and> q < n \<longrightarrow> es p \<noteq> es q"
      using dist ij by simp
    have less3: "nat (n - j) < nat (n - i)" using ij True by simp
    from ent3 have ent3': "\<forall>p. j \<le> p \<and> p < n \<longrightarrow>
        surfs (rc_lists ?rc3 lt) p = es p \<and> rc_surfs ?rc3 (es p) = ss p"
      by blast
    note ih = less.hyps [OF less3 rec nm1 n3 ent3' dist3, unfolded idx3]
    from ih have keep: "rc_indices rc' k = rc_indices rc1 k" if "k < rc_num_indices rc1" for k
      using that by blast
    from ih have later: "winding_at (rc_indices rc')
          (rc_num_indices rc1 + indices_between ?rc3 lt j p + 3 * t) (ss p) t"
      if "j \<le> p" "p < n" "0 \<le> t" "t < num_verts (ss p) - 2" for p t
      using that by blast
    from M have first: "winding_at (rc_indices rc1)
          (rc_num_indices rc + indices_between rc lt i p + 3 * t)
          (rc_surfs rc (surfs (rc_lists rc lt) p)) t"
      if "i \<le> p" "p < j" "0 \<le> t" "t < num_verts (rc_surfs rc (surfs (rc_lists rc lt) p)) - 2"
      for p t
      using that by blast
    have agree3: "indices_between ?rc3 lt j p = indices_between rc lt j p" if "p \<le> n" for p
      using ent3 ent ij that by (intro indices_between_agree) simp
    have below: "rc_indices rc' k = rc_indices rc k" if "k < rc_num_indices rc" for k
    proof -
      have "k < rc_num_indices rc1" using that num1 indices_between_nonneg [of rc lt i j] by simp
      then have "rc_indices rc' k = rc_indices rc1 k" by (rule keep)
      with M that show ?thesis by simp
    qed
    have tri: "winding_at (rc_indices rc') (rc_num_indices rc + indices_between rc lt i p + 3 * t)
            (ss p) t"
      if "i \<le> p" "p < n" "0 \<le> t" "t < num_verts (ss p) - 2" for p t
    proof (cases "p < j")
      case True
      have sp: "rc_surfs rc (surfs (rc_lists rc lt) p) = ss p" using ent that by simp
      have w: "winding_at (rc_indices rc1) (rc_num_indices rc + indices_between rc lt i p + 3 * t)
            (ss p) t"
        using first [of p t] that True by (simp add: sp)
      have "p + 1 \<le> j" using True by simp
      have split: "indices_between rc lt i j
          = indices_between rc lt i p + 3 * surf_tris (ss p) + indices_between rc lt (p + 1) j"
        using indices_between_split [of i p j rc lt] indices_between_first [OF True, of rc lt]
          that True sp by simp
      have "t + 1 \<le> surf_tris (ss p)" using that by (simp add: surf_tris_def)
      then have lt: "rc_num_indices rc + indices_between rc lt i p + 3 * t + 2 < rc_num_indices rc1"
        unfolding num1 split using indices_between_nonneg [of rc lt "p + 1" j] by simp
      have "rc_indices rc' (rc_num_indices rc + indices_between rc lt i p + 3 * t)
              = rc_indices rc1 (rc_num_indices rc + indices_between rc lt i p + 3 * t)"
        "rc_indices rc' (rc_num_indices rc + indices_between rc lt i p + 3 * t + 1)
              = rc_indices rc1 (rc_num_indices rc + indices_between rc lt i p + 3 * t + 1)"
        "rc_indices rc' (rc_num_indices rc + indices_between rc lt i p + 3 * t + 2)
              = rc_indices rc1 (rc_num_indices rc + indices_between rc lt i p + 3 * t + 2)"
        using lt by (intro keep; simp)+
      with w show ?thesis by (simp add: winding_at_def)
    next
      case False
      then have jp: "j \<le> p" by simp
      have "winding_at (rc_indices rc')
          (rc_num_indices rc1 + indices_between ?rc3 lt j p + 3 * t) (ss p) t"
        using jp that by (intro later)
      moreover have "indices_between rc lt i p = indices_between rc lt i j + indices_between rc lt j p"
        using indices_between_split [of i j p rc lt] ij jp by simp
      ultimately show ?thesis
        using agree3 [of p] that by (simp add: num1 add.assoc)
    qed
    from below tri show ?thesis by blast
  qed
qed

lemma list_entries_distinct:
  assumes "distinct (list_entries l)" and "0 \<le> p" and "p < q" and "q < num_surfs l"
  shows "surfs l p \<noteq> surfs l q"
proof -
  have len: "length (list_entries l) = nat (num_surfs l)" by (simp add: list_entries_def)
  have "nat p < nat (num_surfs l)" "nat q < nat (num_surfs l)" "nat p \<noteq> nat q"
    using assms by simp_all
  with assms(1) have "list_entries l ! nat p \<noteq> list_entries l ! nat q"
    by (simp add: nth_eq_iff_index_eq len)
  then show ?thesis using assms by (simp add: list_entries_def)
qed


text \<open>
  Claim C3. For every triangle that index generation emits from a surface \<open>s\<close> at triangle
  position \<open>j\<close> (with \<open>v = first_vert s + j\<close>), the index triple is \<open>(v, v + 1, v + 2)\<close>
  if and only if \<open>strip_offset s + j\<close> is odd, and \<open>(v, v + 2, v + 1)\<close> otherwise. Here
  \<open>s\<close> is the surface at a position \<open>p\<close> of the list as it stands when
  \<^verbatim>\<open>tr_generate_indices\<close> is called (the function rewrites \<open>first_vert\<close> and \<open>num_verts\<close>
  of a group's root after it has written the group's triangles), the entries of the list
  are distinct, as \<^verbatim>\<open>tr_commit_surf\<close> appends them, and the triple stands in the index
  array behind the indices of the surfaces before position \<open>p\<close> and the \<open>3 * j\<close> indices of
  the triangles of \<open>s\<close> before \<open>j\<close>.
\<close>

theorem index_winding:
  assumes run: "tr_generate_indices e rc lt = Inr rc'"
    and dist: "distinct (list_entries (rc_lists rc lt))"
    and p: "0 \<le> p" "p < num_surfs (rc_lists rc lt)"
    and j: "0 \<le> j" "j < num_verts (rc_surfs rc (surfs (rc_lists rc lt) p)) - 2"
  shows "(let s = rc_surfs rc (surfs (rc_lists rc lt) p);
              k = rc_num_indices rc + indices_between rc lt 0 p + 3 * j;
              v = first_vert s + j;
              triple = (rc_indices rc' k, rc_indices rc' (k + 1), rc_indices rc' (k + 2))
          in triple = (if odd (strip_offset s + j) then (v, v + 1, v + 2) else (v, v + 2, v + 1))
             \<and> (triple = (v, v + 1, v + 2)) = odd (strip_offset s + j))"
proof -
  from run obtain nm1 rc1 where mg: "merge_groups e lt 0 0 rc = Inr (nm1, rc1)"
    and rc': "rc_indices rc' = rc_indices rc1"
    unfolding tr_generate_indices_def by (auto simp add: Let_def elim!: ebind_InrE)
  have ent: "\<forall>q. 0 \<le> q \<and> q < num_surfs (rc_lists rc lt) \<longrightarrow>
      surfs (rc_lists rc lt) q = surfs (rc_lists rc lt) q
      \<and> rc_surfs rc (surfs (rc_lists rc lt) q) = rc_surfs rc (surfs (rc_lists rc lt) q)"
    by simp
  have ds: "\<forall>a b. 0 \<le> a \<and> a < b \<and> b < num_surfs (rc_lists rc lt) \<longrightarrow>
      surfs (rc_lists rc lt) a \<noteq> surfs (rc_lists rc lt) b"
    using list_entries_distinct [OF dist] by blast
  from merge_groups_indices [OF mg _ refl ent ds] p j
  have "winding_at (rc_indices rc1) (rc_num_indices rc + indices_between rc lt 0 p + 3 * j)
      (rc_surfs rc (surfs (rc_lists rc lt) p)) j"
    by simp
  then show ?thesis
    unfolding rc' by (simp add: winding_at_def Let_def)
qed

lemma upt_0_2: "[0..<2] = [0, 1]"
  by (simp add: numeral_2_eq_2)

theorem index_winding_witness:
  "\<exists>rc'. tr_generate_indices small_env committed_strip4 TA_LIST_TRANSLUCENT = Inr rc'
     \<and> map (rc_indices rc') [0, 1, 2, 3, 4, 5] = [4, 6, 5, 5, 6, 7]"
proof -
  let ?lt = "TA_LIST_TRANSLUCENT"
  have "\<not> isl (tr_generate_indices small_env committed_strip4 ?lt)"
    by (simp add: tr_generate_indices_def merge_groups.simps merge_surfs.simps emit_tris.simps
        tr_can_merge_surfs_def upd_surf_def small_env_def committed_strip4_def blank_rc_def
        zero_surface_def Let_def ta_list_defs
        cong: let_weak_cong ebind_weak_cong prod.case_cong_weak sum.case_cong_weak)
  then obtain rc' where run: "tr_generate_indices small_env committed_strip4 ?lt = Inr rc'"
    by (cases "tr_generate_indices small_env committed_strip4 ?lt") auto
  have dist: "distinct (list_entries (rc_lists committed_strip4 ?lt))"
    by (simp add: list_entries_def committed_strip4_def upt_0_2)
  have s: "rc_surfs committed_strip4 (surfs (rc_lists committed_strip4 ?lt) 0)
             = zero_surface\<lparr>first_vert := 4, num_verts := 3, strip_offset := 0\<rparr>"
    "rc_surfs committed_strip4 (surfs (rc_lists committed_strip4 ?lt) 1)
             = zero_surface\<lparr>first_vert := 5, num_verts := 3, strip_offset := 1\<rparr>"
    "num_surfs (rc_lists committed_strip4 ?lt) = 2" "rc_num_indices committed_strip4 = 0"
    by (simp_all add: committed_strip4_def blank_rc_def)
  have ib: "indices_between committed_strip4 ?lt 0 1 = 3"
    using indices_between_first [of 0 1 committed_strip4 ?lt]
    by (simp add: s surf_tris_def)
  from index_winding [OF run dist, of 0 0] index_winding [OF run dist, of 1 0]
  have "map (rc_indices rc') [0, 1, 2, 3, 4, 5] = [4, 6, 5, 5, 6, 7]"
    by (simp add: s ib Let_def)
  with run show ?thesis by simp
qed


subsection \<open>Rendering\<close>

text \<open>The entries of a sequence up to and including the first that equals \<open>end_surf\<close>.\<close>

fun through_first :: "int \<Rightarrow> int list \<Rightarrow> int list" where
  "through_first end_surf [] = []"
| "through_first end_surf (x # xs) = (if x = end_surf then [x] else x # through_first end_surf xs)"

lemma through_first_append:
  "through_first a (xs @ ys) = (if a \<in> set xs then through_first a xs else xs @ through_first a ys)"
  by (induction xs) auto

lemma through_first_absent: "a \<notin> set xs \<Longrightarrow> through_first a xs = xs"
  by (induction xs) auto

lemma render_entries_from:
  "0 \<le> p \<Longrightarrow>
   render_entries l end_surf p r =
     (r @ map R_draw_ta_surface
            (through_first end_surf (map (\<lambda>k. surfs l (int k)) [nat p..<nat (num_surfs l)])),
      end_surf \<in> set (map (\<lambda>k. surfs l (int k)) [nat p..<nat (num_surfs l)]))"
proof (induction "nat (num_surfs l - p)" arbitrary: p r)
  case 0
  then have "\<not> p < num_surfs l" by simp
  then show ?case by (subst render_entries.simps) simp
next
  case (Suc m)
  then have run: "p < num_surfs l" by linarith
  have m: "m = nat (num_surfs l - (p + 1))" using Suc.hyps(2) by linarith
  have up: "[nat p..<nat (num_surfs l)] = nat p # [nat (p + 1)..<nat (num_surfs l)]"
    using run Suc.prems by (simp add: upt_conv_Cons nat_add_distrib)
  have ip: "int (nat p) = p" using Suc.prems by simp
  show ?case
    using run Suc.hyps(1) [OF m, of "r @ [R_draw_ta_surface (surfs l p)]"] Suc.prems
    by (subst render_entries.simps) (simp add: up ip Let_def)
qed

lemma render_entries_all:
  "render_entries l end_surf 0 r =
     (r @ map R_draw_ta_surface (through_first end_surf (list_entries l)),
      end_surf \<in> set (list_entries l))"
  using render_entries_from [of 0 l end_surf r] by (simp add: list_entries_def)

text \<open>
  Claim C5. \<^verbatim>\<open>tr_render_context_until\<close> calls \<^verbatim>\<open>begin\<close> on the backend, then draws the
  entries of the lists OPAQUE, PUNCH_THROUGH and TRANSLUCENT in this order, up to and
  including the first entry that equals \<open>end_surf\<close> (no further draw follows from any
  list), then calls \<^verbatim>\<open>end\<close> in every case; and \<^verbatim>\<open>tr_render_context\<close> makes the calls of
  \<^verbatim>\<open>tr_render_context_until\<close> with \<open>end_surf = -1\<close>.
\<close>

theorem render_until_calls:
  "tr_render_context_until r rc end_surf =
     r @ [R_begin_ta_surfaces (rc_width rc) (rc_height rc) (rc_verts rc) (rc_num_verts rc)
            (rc_indices rc) (rc_num_indices rc)]
       @ map R_draw_ta_surface
           (through_first end_surf
              (list_entries (rc_lists rc TA_LIST_OPAQUE)
               @ list_entries (rc_lists rc TA_LIST_PUNCH_THROUGH)
               @ list_entries (rc_lists rc TA_LIST_TRANSLUCENT)))
       @ [R_end_ta_surfaces]
   \<and> tr_render_context r rc = tr_render_context_until r rc (- 1)"
  by (simp add: tr_render_context_until_def tr_render_context_def tr_render_list_def
      render_entries_all through_first_append through_first_absent Let_def)


subsection \<open>Vertex parameters\<close>

lemma tr_reserve_vert_Inr:
  assumes "tr_reserve_vert e rc = Inr (vi, rc1)"
  shows "vi = rc_num_verts rc + num_verts (rc_surfs rc (rc_num_surfs rc))"
    and "rc1 = rc\<lparr>rc_verts := (rc_verts rc)(vi := zero_vertex),
              rc_surfs := (rc_surfs rc)(rc_num_surfs rc := (rc_surfs rc (rc_num_surfs rc))
                 \<lparr>num_verts := num_verts (rc_surfs rc (rc_num_surfs rc)) + 1\<rparr>)\<rparr>"
  using assms by (auto simp add: tr_reserve_vert_def Let_def split: if_splits)

lemma tr_reserve_surf_frame:
  assumes "tr_reserve_surf e rc cp = Inr rc1"
  shows "rc_num_surfs rc1 = rc_num_surfs rc \<and> rc_lists rc1 = rc_lists rc
     \<and> rc_verts rc1 = rc_verts rc \<and> rc_num_verts rc1 = rc_num_verts rc
     \<and> num_verts (rc_surfs rc1 (rc_num_surfs rc)) = 0"
  using assms by (auto simp add: tr_reserve_surf_def Let_def split: if_splits)

text \<open>The normal of the plane through the three complete corners of a sprite, as the
  handler computes it before it normalises it.\<close>

definition sprite_normal :: "vert_param \<Rightarrow> vec3" where
  "sprite_normal param =
     (let a = sprite1_xyz (vp_sprite1 param) 0;
          b = sprite1_xyz (vp_sprite1 param) 1;
          c = sprite1_xyz (vp_sprite1 param) 2
      in vec3_cross (vec3_sub a b) (vec3_sub c b))"

text \<open>The normal over the reals, as the specification words it: the cross product of the
  exact differences of the corners (a corner that is not finite counts as 0).\<close>

definition real_of :: "f32 \<Rightarrow> real" where
  "real_of a = (case a of Finite x \<Rightarrow> x | PInf \<Rightarrow> 0 | MInf \<Rightarrow> 0 | NaN \<Rightarrow> 0)"

definition exact_normal :: "vert_param \<Rightarrow> real \<times> real \<times> real" where
  "exact_normal param =
     (let r = (\<lambda>v. (real_of (fst v), real_of (fst (snd v)), real_of (snd (snd v))));
          (a0, a1, a2) = r (sprite1_xyz (vp_sprite1 param) 0);
          (b0, b1, b2) = r (sprite1_xyz (vp_sprite1 param) 1);
          (c0, c1, c2) = r (sprite1_xyz (vp_sprite1 param) 2)
      in ((a1 - b1) * (c2 - b2) - (a2 - b2) * (c1 - b1),
          (a2 - b2) * (c0 - b0) - (a0 - b0) * (c2 - b2),
          (a0 - b0) * (c1 - b1) - (a1 - b1) * (c0 - b0)))"

lemma fdiv_zero: "len \<noteq> NaN \<Longrightarrow> len \<noteq> Finite 0 \<Longrightarrow> fdiv (Finite 0) len = Finite 0"
  by (cases len) simp_all

lemma normalize_degenerate:
  "vec3_len n = Finite 0 \<or> vec3_z n = Finite 0 \<and> vec3_len n \<noteq> NaN \<Longrightarrow>
     snd (vec3_normalize n) = Finite 0 \<or> vec3_z (fst (vec3_normalize n)) = Finite 0"
  by (cases n) (auto simp add: vec3_normalize_def vec3_z_def Let_def fdiv_zero)

text \<open>The sprite case returns from inside exactly when the test of the source holds of
  the normalised normal, and it leaves the surface count and the lists alone.\<close>

lemma parse_sprite_result:
  assumes run: "parse_sprite e t rc param = Inr (ret, rc')"
  shows "ret = (snd (vec3_normalize (sprite_normal param)) = Finite 0
                \<or> vec3_z (fst (vec3_normalize (sprite_normal param))) = Finite 0)
     \<and> rc_num_surfs rc' = rc_num_surfs rc \<and> rc_lists rc' = rc_lists rc
     \<and> rc_num_verts rc' = rc_num_verts rc
     \<and> num_verts (rc_surfs rc' (rc_num_surfs rc)) = num_verts (rc_surfs rc (rc_num_surfs rc)) + 4"
proof -
  from run have eos: "pcw_end_of_strip (vp_pcw param)"
    by (auto simp add: parse_sprite_def split: if_splits)
  from run eos obtain va rc1 vb rc2 vd rc3 vc rc4 where
    a: "tr_reserve_vert e rc = Inr (va, rc1)" and
    b: "tr_reserve_vert e rc1 = Inr (vb, rc2)" and
    d: "tr_reserve_vert e rc2 = Inr (vd, rc3)" and
    c: "tr_reserve_vert e rc3 = Inr (vc, rc4)"
    unfolding parse_sprite_def
    by (auto elim!: ebind_InrE)
  note ra = tr_reserve_vert_Inr [OF a] and rb = tr_reserve_vert_Inr [OF b]
    and rd = tr_reserve_vert_Inr [OF d] and rcc = tr_reserve_vert_Inr [OF c]
  have vb: "vb = va + 1" using ra rb by simp
  have vd: "vd = va + 2" using ra rb rd by simp
  have vc: "vc = va + 3" using ra rb rd rcc by simp
  have frame: "rc_num_surfs rc4 = rc_num_surfs rc \<and> rc_lists rc4 = rc_lists rc
      \<and> rc_num_verts rc4 = rc_num_verts rc
      \<and> num_verts (rc_surfs rc4 (rc_num_surfs rc)) = num_verts (rc_surfs rc (rc_num_surfs rc)) + 4"
    using ra(2) rb(2) rd(2) rcc(2) by simp
  let ?n = "vec3_normalize (sprite_normal param)"
  have "\<exists>X. parse_sprite e t rc param
          = Inr (snd ?n = Finite 0 \<or> vec3_z (fst ?n) = Finite 0, X)
        \<and> rc_num_surfs X = rc_num_surfs rc4 \<and> rc_lists X = rc_lists rc4
        \<and> rc_num_verts X = rc_num_verts rc4 \<and> rc_surfs X = rc_surfs rc4"
    unfolding parse_sprite_def using eos a b c d
    by (simp add: Let_def vb vd vc upd_vert_def sprite_normal_def split_def)
  with run frame show ?thesis by auto
qed

text \<open>Whether the last vertex parameter ended its strip, and the index of the vertex the
  next vertex parameter writes first.\<close>

definition strip_ended :: "tr \<Rightarrow> bool" where
  "strip_ended t = (case last_vertex t of None \<Rightarrow> False | Some lv \<Rightarrow> pcw_end_of_strip (vp_pcw lv))"

definition next_vert :: "tr \<Rightarrow> tr_context \<Rightarrow> int" where
  "next_vert t rc =
     rc_num_verts rc + (if strip_ended t then 0 else num_verts (rc_surfs rc (rc_num_surfs rc)))"

lemma parse_sprite_returns:
  assumes "pcw_end_of_strip (vp_pcw param)"
    and "rc_num_verts rc + num_verts (rc_surfs rc (rc_num_surfs rc)) + 3 < TR_MAX_VERTS e"
  shows "\<exists>ret rc'. parse_sprite e t rc param = Inr (ret, rc')"
proof -
  have "\<not> isl (parse_sprite e t rc param)"
    using assms
    by (simp add: parse_sprite_def tr_reserve_vert_def Let_def split_def)
  then show ?thesis by (cases "parse_sprite e t rc param") auto
qed

lemma commit_tris_verts:
  "commit_tris e lt ns n i rc = Inr rc' \<Longrightarrow> rc_verts rc' = rc_verts rc"
proof (induction "nat (n - 2 - i)" arbitrary: i rc)
  case 0
  then have "\<not> i < n - 2" by simp
  with 0 show ?case by (subst (asm) commit_tris.simps) simp
next
  case (Suc m)
  then have run: "i < n - 2" by linarith
  have m: "m = nat (n - 2 - (i + 1))" using Suc.hyps(2) by linarith
  from Suc.prems run obtain rc1 where
    r1: "(if i = 0 then Inr rc else tr_reserve_surf e rc True) = Inr rc1"
    by (subst (asm) commit_tris.simps) (auto split: sum.splits)
  then have v1: "rc_verts rc1 = rc_verts rc"
    using tr_reserve_surf_frame [of e rc True rc1] by (auto split: if_splits)
  from Suc.prems run r1 obtain rc5 where
    r5: "commit_tris e lt ns n (i + 1) rc5 = Inr rc'" and v5: "rc_verts rc5 = rc_verts rc1"
    by (subst (asm) commit_tris.simps) (auto simp add: Let_def list_append_surf_def)
  from Suc.hyps(1) [OF m r5] v5 v1 show ?case by simp
qed

lemma tr_commit_surf_verts:
  "tr_commit_surf e t rc = Inr rc' \<Longrightarrow> rc_verts rc' = rc_verts rc"
  by (auto simp add: tr_commit_surf_def Let_def list_append_surf_def
      split: if_splits sum.splits dest!: commit_tris_verts)

lemma tr_parse_vert_param_sprite:
  assumes vt: "vert_type t = 15 \<or> vert_type t = 16"
  shows "tr_parse_vert_param e t ctx rc param =
     ebind (if strip_ended t then tr_reserve_surf e rc True else Inr rc) (\<lambda>rc1.
     ebind (parse_sprite e (t\<lparr>last_vertex := Some param\<rparr>) rc1 param) (\<lambda>(returned, rc2).
       if returned then Inr (t\<lparr>last_vertex := Some param\<rparr>, rc2)
       else if pcw_end_of_strip (vp_pcw param) then
         ebind (tr_commit_surf e (t\<lparr>last_vertex := Some param\<rparr>) rc2)
           (\<lambda>rc3. Inr (t\<lparr>last_vertex := Some param\<rparr>, rc3))
       else Inr (t\<lparr>last_vertex := Some param\<rparr>, rc2)))"
  using vt by (auto simp add: tr_parse_vert_param_def parse_vert_switch_def strip_ended_def Let_def)

text \<open>A sprite that is not dropped is committed: on an opaque list, with room for its
  four vertices, the handler returns with one surface more.\<close>

lemma sprite_committed:
  assumes vt: "vert_type t = 15 \<or> vert_type t = 16"
    and eos: "pcw_end_of_strip (vp_pcw param)"
    and first: "\<not> strip_ended t"
    and lt: "list_type t = TA_LIST_OPAQUE"
    and cap: "rc_num_verts rc + num_verts (rc_surfs rc (rc_num_surfs rc)) + 3 < TR_MAX_VERTS e"
    and nd: "snd (vec3_normalize (sprite_normal param)) \<noteq> Finite 0"
      "vec3_z (fst (vec3_normalize (sprite_normal param))) \<noteq> Finite 0"
  shows "\<not> isl (tr_parse_vert_param e t ctx rc param)
     \<and> rc_num_surfs (snd (projr (tr_parse_vert_param e t ctx rc param))) = rc_num_surfs rc + 1
     \<and> num_surfs (rc_lists (snd (projr (tr_parse_vert_param e t ctx rc param))) TA_LIST_OPAQUE)
         = num_surfs (rc_lists rc TA_LIST_OPAQUE) + 1"
proof -
  let ?t1 = "t\<lparr>last_vertex := Some param\<rparr>"
  from parse_sprite_returns [OF eos cap, of ?t1]
  obtain ret rc2 where sp: "parse_sprite e ?t1 rc param = Inr (ret, rc2)" by blast
  note r = parse_sprite_result [OF sp]
  from r nd have ret: "ret = False" by simp
  have "tr_parse_vert_param e t ctx rc param
      = ebind (tr_commit_surf e ?t1 rc2) (\<lambda>rc3. Inr (?t1, rc3))"
    unfolding tr_parse_vert_param_sprite [OF vt] using first sp ret eos by simp
  then show ?thesis
    using r lt by (simp add: tr_commit_surf_def list_append_surf_def Let_def ta_list_defs)
qed

text \<open>
  Claim C6, amended. The claim takes the normal \<open>n = cross (a - b) (c - b)\<close> of the three
  complete corners and says that the handler commits nothing when \<open>|n| = 0\<close> or
  \<open>n.z = 0\<close>. The handler computes \<open>n\<close> and its length in binary32 and tests the length
  and the third component of the normalised \<open>n\<close>, so the claim holds of the normal as the
  handler computes it, and with a length that is NaN the second test fails although
  \<open>n.z = 0\<close>. Amended: for a sprite vertex parameter (vertex type 15 or 16) whose normal
  \<open>n = cross (a - b) (c - b)\<close>, computed in binary32 as the handler does, has the computed
  length 0, or has \<open>n.z = 0\<close> and a computed length that is not NaN, the handler returns
  without committing: whenever it returns, the context's surface count and every list
  are as before; and it does return when the parameter ends its strip (the source checks
  this) and the arrays have room for the four vertices and, after a strip that ended,
  for the surface the handler reserves.
\<close>

theorem degenerate_sprite_dropped:
  assumes vt: "vert_type t = 15 \<or> vert_type t = 16"
    and deg: "vec3_len (sprite_normal param) = Finite 0
              \<or> vec3_z (sprite_normal param) = Finite 0 \<and> vec3_len (sprite_normal param) \<noteq> NaN"
  shows "(\<forall>t' rc'. tr_parse_vert_param e t ctx rc param = Inr (t', rc') \<longrightarrow>
            rc_num_surfs rc' = rc_num_surfs rc \<and> rc_lists rc' = rc_lists rc)
       \<and> (pcw_end_of_strip (vp_pcw param)
          \<and> (strip_ended t \<longrightarrow> rc_num_surfs rc < TR_MAX_SURFS e \<and> rc_num_surfs rc \<noteq> 0)
          \<and> next_vert t rc + 3 < TR_MAX_VERTS e \<longrightarrow>
          (\<exists>t' rc'. tr_parse_vert_param e t ctx rc param = Inr (t', rc')))"
proof -
  note test = normalize_degenerate [OF deg]
  have part1: "rc_num_surfs rc' = rc_num_surfs rc \<and> rc_lists rc' = rc_lists rc"
    if run: "tr_parse_vert_param e t ctx rc param = Inr (t', rc')" for t' rc'
  proof -
    let ?t1 = "t\<lparr>last_vertex := Some param\<rparr>"
    from run obtain rc1 ret rc2 where
      pre: "(if strip_ended t then tr_reserve_surf e rc True else Inr rc) = Inr rc1"
      and sp: "parse_sprite e ?t1 rc1 param = Inr (ret, rc2)"
      and fin: "(if ret then Inr (?t1, rc2)
         else if pcw_end_of_strip (vp_pcw param) then
           ebind (tr_commit_surf e ?t1 rc2) (\<lambda>rc3. Inr (?t1, rc3))
         else Inr (?t1, rc2)) = Inr (t', rc')"
      unfolding tr_parse_vert_param_sprite [OF vt]
      by (auto elim!: ebind_InrE)
    have f1: "rc_num_surfs rc1 = rc_num_surfs rc \<and> rc_lists rc1 = rc_lists rc"
      using pre tr_reserve_surf_frame [of e rc True rc1] by (auto split: if_splits)
    from parse_sprite_result [OF sp] test fin f1
    show "rc_num_surfs rc' = rc_num_surfs rc \<and> rc_lists rc' = rc_lists rc" by simp
  qed
  have part2: "\<exists>t' rc'. tr_parse_vert_param e t ctx rc param = Inr (t', rc')"
    if cap: "pcw_end_of_strip (vp_pcw param)
          \<and> (strip_ended t \<longrightarrow> rc_num_surfs rc < TR_MAX_SURFS e \<and> rc_num_surfs rc \<noteq> 0)
          \<and> next_vert t rc + 3 < TR_MAX_VERTS e"
  proof -
    let ?t1 = "t\<lparr>last_vertex := Some param\<rparr>"
    obtain rc1 where
      pre: "(if strip_ended t then tr_reserve_surf e rc True else Inr rc) = Inr rc1"
      and nv: "rc_num_verts rc1 + num_verts (rc_surfs rc1 (rc_num_surfs rc1)) = next_vert t rc"
      using cap by (cases "strip_ended t") (auto simp add: tr_reserve_surf_def next_vert_def Let_def)
    from parse_sprite_returns [of param rc1 e ?t1] cap nv
    obtain ret rc2 where sp: "parse_sprite e ?t1 rc1 param = Inr (ret, rc2)" by auto
    from parse_sprite_result [OF sp] test have "ret" by simp
    with pre sp show "\<exists>t' rc'. tr_parse_vert_param e t ctx rc param = Inr (t', rc')"
      unfolding tr_parse_vert_param_sprite [OF vt] by (cases "strip_ended t") simp_all
  qed
  from part1 part2 show ?thesis by blast
qed

lemma edge_on_normal:
  "sprite_normal edge_on_sprite = (Finite (- 1), Finite 0, Finite 0)"
  "vec3_len (Finite (- 1), Finite 0, Finite 0) = Finite 1"
  by (simp_all add: sprite_normal_def edge_on_sprite_def blank_vert_def vec3_cross_def
      vec3_sub_def fsub_def fneg_def vec3_len_def vec3_dot_def Let_def)

theorem degenerate_sprite_dropped_witness:
  "\<exists>t' rc'. tr_parse_vert_param small_env sprite_tr blank_ctx staged_empty edge_on_sprite
       = Inr (t', rc')
     \<and> rc_num_surfs rc' = 1 \<and> rc_lists rc' = rc_lists blank_rc"
proof -
  have vt: "vert_type sprite_tr = 15 \<or> vert_type sprite_tr = 16" by (simp add: sprite_tr_def)
  have deg: "vec3_len (sprite_normal edge_on_sprite) = Finite 0
      \<or> vec3_z (sprite_normal edge_on_sprite) = Finite 0
        \<and> vec3_len (sprite_normal edge_on_sprite) \<noteq> NaN"
    by (simp add: edge_on_normal vec3_z_def)
  have cap: "pcw_end_of_strip (vp_pcw edge_on_sprite)
          \<and> (strip_ended sprite_tr \<longrightarrow> rc_num_surfs staged_empty < TR_MAX_SURFS small_env
                \<and> rc_num_surfs staged_empty \<noteq> 0)
          \<and> next_vert sprite_tr staged_empty + 3 < TR_MAX_VERTS small_env"
    by (simp add: edge_on_sprite_def blank_vert_def blank_pcw_def strip_ended_def blank_tr_def
        sprite_tr_def next_vert_def staged_empty_def blank_rc_def small_env_def zero_surface_def)
  from degenerate_sprite_dropped [OF vt deg, of small_env blank_ctx staged_empty] cap
  show ?thesis by (auto simp add: staged_empty_def)
qed

text \<open>The coordinates of \<^const>\<open>collinear_sprite\<close> are binary32 values (so are 1, 3, 5 and
  15), and its plane as the handler computes it: the differences
  \<open>a - b\<close> and \<open>c - b\<close> round to \<open>(1 + 2 ^ -23, 3 + 2 ^ -22, 0)\<close> and \<open>(5, 15, 0)\<close>, the two
  products of the third component to \<open>15 + 2 ^ -19\<close> and \<open>15 + 2 ^ -20\<close>.\<close>

lemma collinear_sprite_binary32:
  "round32 sprite_eps = Finite sprite_eps" "round32 (3 * sprite_eps) = Finite (3 * sprite_eps)"
proof -
  show "round32 sprite_eps = Finite sprite_eps"
    by (rule round32_eval [where e = "- 24"])
       (simp_all add: sprite_eps_def round_even_def powr_neg_numeral)
  show "round32 (3 * sprite_eps) = Finite (3 * sprite_eps)"
    by (rule round32_eval [where e = "- 23"])
       (simp_all add: sprite_eps_def round_even_def powr_neg_numeral)
qed

lemma collinear_difference_ba:
  "vec3_sub (Finite 1, Finite 3, Finite 0)
            (Finite (- sprite_eps), Finite (- (3 * sprite_eps)), Finite 0)
     = (Finite (1 + 1 / 2 ^ 23), Finite (3 + 1 / 2 ^ 22), Finite 0)"
proof -
  have a: "round32 (1 + sprite_eps) = Finite (1 + 1 / 2 ^ 23)"
    by (rule round32_eval [where e = 0])
       (simp_all add: sprite_eps_def round_even_def powr_neg_numeral)
  have b: "round32 (3 + 3 * sprite_eps) = Finite (3 + 1 / 2 ^ 22)"
    by (rule round32_eval [where e = 1])
       (simp_all add: sprite_eps_def round_even_def powr_neg_numeral)
  show ?thesis by (simp add: vec3_sub_def fsub_def fneg_def a b)
qed

lemma collinear_difference_bc:
  "vec3_sub (Finite 5, Finite 15, Finite 0)
            (Finite (- sprite_eps), Finite (- (3 * sprite_eps)), Finite 0)
     = (Finite 5, Finite 15, Finite 0)"
proof -
  have a: "round32 (5 + sprite_eps) = Finite 5"
    by (rule round32_eval [where e = 2])
       (simp_all add: sprite_eps_def round_even_def powr_neg_numeral)
  have b: "round32 (15 + 3 * sprite_eps) = Finite 15"
    by (rule round32_eval [where e = 3])
       (simp_all add: sprite_eps_def round_even_def powr_neg_numeral)
  show ?thesis by (simp add: vec3_sub_def fsub_def fneg_def a b)
qed

lemma collinear_cross:
  "vec3_cross (Finite (1 + 1 / 2 ^ 23), Finite (3 + 1 / 2 ^ 22), Finite 0)
              (Finite 5, Finite 15, Finite 0)
     = (Finite 0, Finite 0, Finite (1 / 2 ^ 20))"
proof -
  have a: "round32 ((1 + 1 / 2 ^ 23) * 15) = Finite (15 + 1 / 2 ^ 19)"
    by (rule round32_eval [where e = 3]) (simp_all add: round_even_def powr_neg_numeral)
  have b: "round32 ((3 + 1 / 2 ^ 22) * 5) = Finite (15 + 1 / 2 ^ 20)"
    by (rule round32_eval [where e = 3]) (simp_all add: round_even_def powr_neg_numeral)
  have c: "round32 (15 + 1 / 2 ^ 19 + - (15 + 1 / 2 ^ 20)) = Finite (1 / 2 ^ 20)"
    by (rule round32_eval [where e = "- 20"]) (simp_all add: round_even_def powr_neg_numeral)
  show ?thesis
    unfolding vec3_cross_def
    by (simp only: prod.case fmul.simps a b fsub_def fneg_def f32.case fadd.simps c) simp
qed

lemma collinear_normalize:
  "vec3_normalize (Finite 0, Finite 0, Finite (1 / 2 ^ 20))
     = ((Finite 0, Finite 0, Finite 1), Finite (1 / 2 ^ 20))"
proof -
  have sq: "round32 (1 / 2 ^ 40) = Finite (1 / 2 ^ 40)"
    by (rule round32_eval [where e = "- 40"]) (simp_all add: round_even_def powr_neg_numeral)
  have rt: "sqrt (1 / 2 ^ 40) = 1 / 2 ^ 20"
    by (rule real_sqrt_unique) (simp_all add: power2_eq_square)
  have rr: "round32 (1 / 2 ^ 20) = Finite (1 / 2 ^ 20)"
    by (rule round32_eval [where e = "- 20"]) (simp_all add: round_even_def powr_neg_numeral)
  have dot: "vec3_dot (Finite 0, Finite 0, Finite (1 / 2 ^ 20))
                      (Finite 0, Finite 0, Finite (1 / 2 ^ 20)) = Finite (1 / 2 ^ 40)"
    using sq by (simp add: vec3_dot_def)
  have len: "vec3_len (Finite 0, Finite 0, Finite (1 / 2 ^ 20)) = Finite (1 / 2 ^ 20)"
    unfolding vec3_len_def dot fsqrt.simps rt rr by simp
  show ?thesis
    unfolding vec3_normalize_def len by (simp add: Let_def)
qed

lemma collinear_plane:
  "vec3_normalize (sprite_normal collinear_sprite)
     = ((Finite 0, Finite 0, Finite 1), Finite (1 / 2 ^ 20))"
proof -
  have "sprite_normal collinear_sprite
      = vec3_cross
          (vec3_sub (Finite 1, Finite 3, Finite 0)
                    (Finite (- sprite_eps), Finite (- (3 * sprite_eps)), Finite 0))
          (vec3_sub (Finite 5, Finite 15, Finite 0)
                    (Finite (- sprite_eps), Finite (- (3 * sprite_eps)), Finite 0))"
    by (simp add: sprite_normal_def collinear_sprite_def Let_def)
  then have "sprite_normal collinear_sprite = (Finite 0, Finite 0, Finite (1 / 2 ^ 20))"
    by (simp only: collinear_difference_ba collinear_difference_bc collinear_cross)
  then show ?thesis by (simp only: collinear_normalize)
qed

lemma nan_plane:
  "sprite_normal nan_sprite = (NaN, NaN, Finite 0)"
  "vec3_normalize (sprite_normal nan_sprite) = ((NaN, NaN, NaN), NaN)"
proof -
  show n: "sprite_normal nan_sprite = (NaN, NaN, Finite 0)"
    by (simp add: sprite_normal_def nan_sprite_def vec3_cross_def vec3_sub_def fsub_def
        fneg_def Let_def)
  show "vec3_normalize (sprite_normal nan_sprite) = ((NaN, NaN, NaN), NaN)"
    unfolding n by (simp add: vec3_normalize_def vec3_len_def vec3_dot_def Let_def)
qed

text \<open>
  The claim C6 as it is stated fails at two inputs. The corners of
  \<^const>\<open>collinear_sprite\<close> are collinear, so the normal over the reals is 0, and the
  handler commits the sprite: in binary32 the third component of the normal is
  \<open>2 ^ -20\<close>. The normal of \<^const>\<open>nan_sprite\<close> has the third component 0 and the handler
  commits the sprite: the length is NaN, and so is the third component after the
  normalisation.
\<close>

theorem collinear_sprite_committed:
  "exact_normal collinear_sprite = (0, 0, 0)
   \<and> \<not> isl (tr_parse_vert_param small_env sprite_tr blank_ctx staged_empty collinear_sprite)
   \<and> rc_num_surfs staged_empty = 1
   \<and> rc_num_surfs (snd (projr (tr_parse_vert_param small_env sprite_tr blank_ctx staged_empty
        collinear_sprite))) = 2
   \<and> num_surfs (rc_lists staged_empty TA_LIST_OPAQUE) = 0
   \<and> num_surfs (rc_lists (snd (projr (tr_parse_vert_param small_env sprite_tr blank_ctx
        staged_empty collinear_sprite))) TA_LIST_OPAQUE) = 1
   \<and> vec3_z (sprite_normal nan_sprite) = Finite 0
   \<and> \<not> isl (tr_parse_vert_param small_env sprite_tr blank_ctx staged_empty nan_sprite)
   \<and> rc_num_surfs (snd (projr (tr_parse_vert_param small_env sprite_tr blank_ctx staged_empty
        nan_sprite))) = 2
   \<and> num_surfs (rc_lists (snd (projr (tr_parse_vert_param small_env sprite_tr blank_ctx
        staged_empty nan_sprite))) TA_LIST_OPAQUE) = 1"
proof -
  have vt: "vert_type sprite_tr = 15 \<or> vert_type sprite_tr = 16" by (simp add: sprite_tr_def)
  have first: "\<not> strip_ended sprite_tr"
    by (simp add: strip_ended_def sprite_tr_def blank_tr_def)
  have lt: "list_type sprite_tr = TA_LIST_OPAQUE" by (simp add: sprite_tr_def)
  have cap: "rc_num_verts staged_empty
      + num_verts (rc_surfs staged_empty (rc_num_surfs staged_empty)) + 3 < TR_MAX_VERTS small_env"
    by (simp add: staged_empty_def blank_rc_def small_env_def zero_surface_def)
  have before: "rc_num_surfs staged_empty = 1" "num_surfs (rc_lists staged_empty TA_LIST_OPAQUE) = 0"
    by (simp_all add: staged_empty_def blank_rc_def)
  have exact: "exact_normal collinear_sprite = (0, 0, 0)"
    by (simp add: exact_normal_def collinear_sprite_def real_of_def sprite_eps_def Let_def)
  have eos1: "pcw_end_of_strip (vp_pcw collinear_sprite)"
    by (simp add: collinear_sprite_def)
  have nd1: "snd (vec3_normalize (sprite_normal collinear_sprite)) \<noteq> Finite 0"
    "vec3_z (fst (vec3_normalize (sprite_normal collinear_sprite))) \<noteq> Finite 0"
    by (simp_all add: collinear_plane vec3_z_def)
  note c1 = sprite_committed [OF vt eos1 first lt cap nd1, of blank_ctx, unfolded before]
  have eos2: "pcw_end_of_strip (vp_pcw nan_sprite)"
    by (simp add: nan_sprite_def)
  have nd2: "snd (vec3_normalize (sprite_normal nan_sprite)) \<noteq> Finite 0"
    "vec3_z (fst (vec3_normalize (sprite_normal nan_sprite))) \<noteq> Finite 0"
    by (simp_all add: nan_plane(2) vec3_z_def)
  note c2 = sprite_committed [OF vt eos2 first lt cap nd2, of blank_ctx, unfolded before]
  have z: "vec3_z (sprite_normal nan_sprite) = Finite 0"
    by (simp add: nan_plane(1) vec3_z_def)
  from exact before c1 c2 z show ?thesis by simp
qed


definition base_intensity :: "tr \<Rightarrow> vert_param \<Rightarrow> real" where
  "base_intensity t param =
     (if vert_type t = 2 then v2_base_intensity (vp_type2 param)
      else if vert_type t = 7 then v7_base_intensity (vp_type7 param)
      else v8_base_intensity (vp_type8 param))"

definition offset_intensity :: "tr \<Rightarrow> vert_param \<Rightarrow> real" where
  "offset_intensity t param =
     (if vert_type t = 7 then v7_offset_intensity (vp_type7 param)
      else v8_offset_intensity (vp_type8 param))"

text \<open>The colour an intensity gives, as the specification states it.\<close>

definition intensity_color :: "color4 \<Rightarrow> u8 \<Rightarrow> color4" where
  "intensity_color c i = (case c of (c0, c1, c2, c3) \<Rightarrow> (fmulu8 c0 i, fmulu8 c1 i, fmulu8 c2 i, c3))"

lemma PARSE_INTENSITY_Some:
  "PARSE_INTENSITY c x = Some k \<Longrightarrow> \<exists>i. ftou8 x = Some i \<and> k = intensity_color c i"
  by (cases c) (auto simp add: PARSE_INTENSITY_def intensity_color_def split: option.splits)

lemma intensity_switch:
  assumes vt: "vert_type t = 2 \<or> vert_type t = 7 \<or> vert_type t = 8"
    and run: "parse_vert_switch e t rc param = Inr (ret, rc')"
  shows "\<not> ret \<and> (\<exists>i. ftou8 (base_intensity t param) = Some i
      \<and> color (rc_verts rc' (rc_num_verts rc + num_verts (rc_surfs rc (rc_num_surfs rc))))
          = intensity_color (face_color t) i)
    \<and> (vert_type t \<noteq> 2 \<longrightarrow> (\<exists>i. ftou8 (offset_intensity t param) = Some i
      \<and> vert_offset_color (rc_verts rc' (rc_num_verts rc + num_verts (rc_surfs rc (rc_num_surfs rc))))
          = intensity_color (face_offset_color t) i))"
  using vt
proof (elim disjE)
  assume v: "vert_type t = 2"
  from run v obtain vert rc1 c where
    r: "tr_reserve_vert e rc = Inr (vert, rc1)"
    and c: "PARSE_BASE_INTENSITY t (v2_base_intensity (vp_type2 param)) = Inr c"
    and res: "ret = False" "rc' = upd_vert vert (\<lambda>v. v\<lparr>xyz := v2_xyz (vp_type2 param), color := c\<rparr>) rc1"
    by (auto simp add: parse_vert_switch_def elim!: ebind_InrE)
  from c obtain i where "ftou8 (v2_base_intensity (vp_type2 param)) = Some i"
    "c = intensity_color (face_color t) i"
    by (auto simp add: PARSE_BASE_INTENSITY_def split: option.splits dest: PARSE_INTENSITY_Some)
  with v res tr_reserve_vert_Inr(1) [OF r] show ?thesis
    by (auto simp add: base_intensity_def upd_vert_def)
next
  assume v: "vert_type t = 7"
  from run v obtain vert rc1 c oc where
    r: "tr_reserve_vert e rc = Inr (vert, rc1)"
    and c: "PARSE_BASE_INTENSITY t (v7_base_intensity (vp_type7 param)) = Inr c"
    and oc: "PARSE_OFFSET_INTENSITY t (v7_offset_intensity (vp_type7 param)) = Inr oc"
    and res: "ret = False" "rc' = upd_vert vert (\<lambda>v. v\<lparr>xyz := v7_xyz (vp_type7 param),
                  uv := v7_uv (vp_type7 param), color := c, vert_offset_color := oc\<rparr>) rc1"
    by (auto simp add: parse_vert_switch_def elim!: ebind_InrE)
  from c obtain i where i: "ftou8 (v7_base_intensity (vp_type7 param)) = Some i"
    "c = intensity_color (face_color t) i"
    by (auto simp add: PARSE_BASE_INTENSITY_def split: option.splits dest: PARSE_INTENSITY_Some)
  from oc obtain oi where oi: "ftou8 (v7_offset_intensity (vp_type7 param)) = Some oi"
    "oc = intensity_color (face_offset_color t) oi"
    by (auto simp add: PARSE_OFFSET_INTENSITY_def split: option.splits dest: PARSE_INTENSITY_Some)
  from i oi v res tr_reserve_vert_Inr(1) [OF r] show ?thesis
    by (auto simp add: base_intensity_def offset_intensity_def upd_vert_def)
next
  assume v: "vert_type t = 8"
  from run v obtain vert rc1 c oc where
    r: "tr_reserve_vert e rc = Inr (vert, rc1)"
    and c: "PARSE_BASE_INTENSITY t (v8_base_intensity (vp_type8 param)) = Inr c"
    and oc: "PARSE_OFFSET_INTENSITY t (v8_offset_intensity (vp_type8 param)) = Inr oc"
    and res: "ret = False" "rc' = upd_vert vert (\<lambda>v. v\<lparr>xyz := v8_xyz (vp_type8 param),
                  uv := PARSE_UV16 e (v8_uv (vp_type8 param)), color := c,
                  vert_offset_color := oc\<rparr>) rc1"
    by (auto simp add: parse_vert_switch_def elim!: ebind_InrE)
  from c obtain i where i: "ftou8 (v8_base_intensity (vp_type8 param)) = Some i"
    "c = intensity_color (face_color t) i"
    by (auto simp add: PARSE_BASE_INTENSITY_def split: option.splits dest: PARSE_INTENSITY_Some)
  from oc obtain oi where oi: "ftou8 (v8_offset_intensity (vp_type8 param)) = Some oi"
    "oc = intensity_color (face_offset_color t) oi"
    by (auto simp add: PARSE_OFFSET_INTENSITY_def split: option.splits dest: PARSE_INTENSITY_Some)
  from i oi v res tr_reserve_vert_Inr(1) [OF r] show ?thesis
    by (auto simp add: base_intensity_def offset_intensity_def upd_vert_def)
qed


text \<open>
  Claim C8. For a vertex of an intensity type (2, 7 or 8) each of the first three bytes of
  the vertex colour is \<open>fmulu8\<close> of the face colour's byte and \<open>ftou8\<close> of the base
  intensity, the fourth byte is the face colour's; \<open>fmulu8 a b\<close> is \<open>a * b div 255\<close> on
  the numbers (a division, not a shift); for the types 7 and 8, which carry an offset
  intensity, the same holds for the offset colour with the face offset colour.
\<close>

theorem intensity_vertex_colors:
  assumes vt: "vert_type t = 2 \<or> vert_type t = 7 \<or> vert_type t = 8"
    and run: "tr_parse_vert_param e t ctx rc param = Inr (t', rc')"
  shows "(\<exists>i. ftou8 (base_intensity t param) = Some i
           \<and> color (rc_verts rc' (next_vert t rc)) = intensity_color (face_color t) i)
       \<and> (vert_type t \<noteq> 2 \<longrightarrow>
           (\<exists>i. ftou8 (offset_intensity t param) = Some i
             \<and> vert_offset_color (rc_verts rc' (next_vert t rc))
                 = intensity_color (face_offset_color t) i))
       \<and> (\<forall>c0 c1 c2 c3 i. intensity_color (c0, c1, c2, c3) i
             = (fmulu8 c0 i, fmulu8 c1 i, fmulu8 c2 i, c3))
       \<and> (\<forall>a b. unat (fmulu8 a b) = unat a * unat b div 255)"
proof -
  let ?t1 = "t\<lparr>last_vertex := Some param\<rparr>"
  from vt have n17: "vert_type t \<noteq> 17" by auto
  from run n17 obtain rc1 ret rc2 where
    pre: "(if strip_ended t then tr_reserve_surf e rc True else Inr rc) = Inr rc1"
    and sw: "parse_vert_switch e ?t1 rc1 param = Inr (ret, rc2)"
    and fin: "(if ret then Inr (?t1, rc2)
       else if pcw_end_of_strip (vp_pcw param) then
         ebind (tr_commit_surf e ?t1 rc2) (\<lambda>rc3. Inr (?t1, rc3))
       else Inr (?t1, rc2)) = Inr (t', rc')"
    unfolding tr_parse_vert_param_def strip_ended_def
    by (auto simp add: Let_def elim!: ebind_InrE)
  have nv: "rc_num_verts rc1 + num_verts (rc_surfs rc1 (rc_num_surfs rc1)) = next_vert t rc"
    using pre tr_reserve_surf_frame [of e rc True rc1]
    by (auto simp add: next_vert_def split: if_splits)
  have vt1: "vert_type ?t1 = 2 \<or> vert_type ?t1 = 7 \<or> vert_type ?t1 = 8" using vt by simp
  note sw_props = intensity_switch [OF vt1 sw, unfolded nv]
  have verts: "rc_verts rc' = rc_verts rc2"
    using fin sw_props
    by (auto split: if_splits elim!: ebind_InrE dest: tr_commit_surf_verts)
  have b: "base_intensity ?t1 param = base_intensity t param"
    "offset_intensity ?t1 param = offset_intensity t param"
    by (simp_all add: base_intensity_def offset_intensity_def)
  from sw_props have main:
    "(\<exists>i. ftou8 (base_intensity t param) = Some i
           \<and> color (rc_verts rc' (next_vert t rc)) = intensity_color (face_color t) i)
       \<and> (vert_type t \<noteq> 2 \<longrightarrow>
           (\<exists>i. ftou8 (offset_intensity t param) = Some i
             \<and> vert_offset_color (rc_verts rc' (next_vert t rc))
                 = intensity_color (face_offset_color t) i))"
    unfolding verts b by simp
  have ic: "\<forall>c0 c1 c2 c3 i. intensity_color (c0, c1, c2, c3) i
             = (fmulu8 c0 i, fmulu8 c1 i, fmulu8 c2 i, c3)"
    by (simp add: intensity_color_def)
  from main ic fmulu8_unat show ?thesis by simp
qed

theorem intensity_vertex_colors_witness:
  "\<exists>t' rc'. tr_parse_vert_param small_env intensity_tr blank_ctx staged_empty intensity_vert
       = Inr (t', rc')
     \<and> color (rc_verts rc' 4) = (127, 63, 0, 77)
     \<and> vert_offset_color (rc_verts rc' 4) = (10, 20, 30, 40)"
proof -
  have vt: "vert_type intensity_tr = 2 \<or> vert_type intensity_tr = 7 \<or> vert_type intensity_tr = 8"
    by (simp add: intensity_tr_def)
  have "\<not> isl (tr_parse_vert_param small_env intensity_tr blank_ctx staged_empty intensity_vert)"
    by (simp add: tr_parse_vert_param_def parse_vert_switch_def intensity_tr_def blank_tr_def
        intensity_vert_def blank_vert_def blank_pcw_def staged_empty_def blank_rc_def
        small_env_def tr_reserve_vert_def zero_surface_def PARSE_BASE_INTENSITY_def
        PARSE_OFFSET_INTENSITY_def PARSE_INTENSITY_def ftou8_def cast_int32_def
        trunc_toward_zero_def Let_def)
  then obtain t' rc' where
    run: "tr_parse_vert_param small_env intensity_tr blank_ctx staged_empty intensity_vert
            = Inr (t', rc')"
    by (cases "tr_parse_vert_param small_env intensity_tr blank_ctx staged_empty intensity_vert")
       auto
  have nv: "next_vert intensity_tr staged_empty = 4"
    by (simp add: next_vert_def strip_ended_def intensity_tr_def blank_tr_def staged_empty_def
        blank_rc_def zero_surface_def)
  have b: "ftou8 (base_intensity intensity_tr intensity_vert) = Some 127"
    and o: "ftou8 (offset_intensity intensity_tr intensity_vert) = Some 255"
    by (simp_all add: base_intensity_def offset_intensity_def intensity_tr_def intensity_vert_def
        blank_vert_def ftou8_def cast_int32_def trunc_toward_zero_def)
  have c1: "intensity_color (255, 128, 0, 77) 127 = (127, 63, 0, 77)"
    and c2: "intensity_color (10, 20, 30, 40) 255 = (10, 20, 30, 40)"
    by (simp_all add: intensity_color_def fmulu8_def)
  from intensity_vertex_colors [OF vt run] b o c1 c2 nv
  have "color (rc_verts rc' 4) = (127, 63, 0, 77)
     \<and> vert_offset_color (rc_verts rc' 4) = (10, 20, 30, 40)"
    by (auto simp add: intensity_tr_def blank_tr_def)
  with run show ?thesis by blast
qed


subsection \<open>Float to byte\<close>

lemma ftou8_in_range:
  assumes "- (2 ^ 31) \<le> trunc_toward_zero (x * 255)" and "trunc_toward_zero (x * 255) < 2 ^ 31"
  shows "ftou8 x = Some (word_of_int (min (max (trunc_toward_zero (x * 255)) 0) 255))"
  using assms by (simp add: ftou8_def cast_int32_def Let_def)

lemma ftou8_unit_interval:
  assumes "0 \<le> x" and "x \<le> 1"
  shows "ftou8 x = Some (word_of_int \<lfloor>x * 255\<rfloor>)"
proof -
  have t: "trunc_toward_zero (x * 255) = \<lfloor>x * 255\<rfloor>"
    using assms by (simp add: trunc_toward_zero_def)
  have lo: "0 \<le> \<lfloor>x * 255\<rfloor>" using assms by simp
  have "x * 255 \<le> 255" using assms by simp
  then have hi: "\<lfloor>x * 255\<rfloor> \<le> 255" by (simp add: floor_le_iff)
  from lo hi show ?thesis
    by (simp add: ftou8_def cast_int32_def Let_def t)
qed

text \<open>
  Claim C7. \<^verbatim>\<open>ftou8\<close> truncates \<open>f * 255\<close> toward zero and saturates to \<open>[0, 255]\<close>. The
  three values of the claim hold, and so does the formula wherever the truncated product
  is a value of \<^verbatim>\<open>int32_t\<close> (\<open>ftou8_in_range\<close>). Where it is not, the cast to
  \<^verbatim>\<open>int32_t\<close> that precedes the clamp is undefined, so the function does not saturate:
  at \<open>f = 16777216\<close> the product is \<open>4278190080\<close>, above the largest \<^verbatim>\<open>int32_t\<close>.
\<close>

theorem ftou8_values:
  "ftou8 (- 1) = Some 0 \<and> ftou8 2 = Some 255 \<and> ftou8 (1 / 2) = Some 127
   \<and> ftou8 16777216 = None"
  by (simp add: ftou8_def cast_int32_def trunc_toward_zero_def)


subsection \<open>The merge sort under a comparator \<open>f a \<le> f b\<close>\<close>

lemma merge_runs_length: "length (merge_runs cmp xs ys) = length xs + length ys"
  by (induction cmp xs ys rule: merge_runs.induct) auto

lemma merge_runs_set: "set (merge_runs cmp xs ys) = set xs \<union> set ys"
  by (induction cmp xs ys rule: merge_runs.induct) auto

lemma merge_runs_sorted:
  fixes f :: "'a \<Rightarrow> 'k::linorder"
  shows "sorted (map f xs) \<Longrightarrow> sorted (map f ys) \<Longrightarrow>
     sorted (map f (merge_runs (\<lambda>a b. f a \<le> f b) xs ys))"
  by (induction "\<lambda>a b. f a \<le> f b" xs ys rule: merge_runs.induct)
     (auto simp add: merge_runs_set)

lemma filter_key_above:
  fixes f :: "'a \<Rightarrow> 'k::linorder"
  shows "sorted (map f (x # xs)) \<Longrightarrow> k < f x \<Longrightarrow> filter (\<lambda>a. f a = k) (x # xs) = []"
  by (auto simp add: filter_empty_conv)

lemma merge_runs_stable:
  fixes f :: "'a \<Rightarrow> 'k::linorder"
  shows "sorted (map f xs) \<Longrightarrow>
     filter (\<lambda>a. f a = k) (merge_runs (\<lambda>a b. f a \<le> f b) xs ys)
       = filter (\<lambda>a. f a = k) xs @ filter (\<lambda>a. f a = k) ys"
proof (induction "\<lambda>a b. f a \<le> f b" xs ys rule: merge_runs.induct)
  case (1 ys)
  then show ?case by simp
next
  case (2 x xs)
  then show ?case by simp
next
  case (3 x xs y ys)
  show ?case
  proof (cases "f x \<le> f y")
    case True
    with 3 show ?thesis by simp
  next
    case False
    then have lt: "f y < f x" by simp
    from "3.hyps"(2) [OF False "3.prems"]
    have ih: "filter (\<lambda>a. f a = k) (merge_runs (\<lambda>a b. f a \<le> f b) (x # xs) ys)
       = filter (\<lambda>a. f a = k) (x # xs) @ filter (\<lambda>a. f a = k) ys" .
    show ?thesis
    proof (cases "f y = k")
      case True
      with lt "3.prems" have "filter (\<lambda>a. f a = k) (x # xs) = []"
        by (intro filter_key_above) simp_all
      with False True ih show ?thesis by simp
    next
      case nk: False
      with False ih show ?thesis by simp
    qed
  qed
qed

lemma msort_noalloc_props:
  fixes f :: "'a \<Rightarrow> 'k::linorder"
  shows "sorted (map f (msort_noalloc (\<lambda>a b. f a \<le> f b) xs))
   \<and> (\<forall>k. filter (\<lambda>a. f a = k) (msort_noalloc (\<lambda>a b. f a \<le> f b) xs) = filter (\<lambda>a. f a = k) xs)
   \<and> length (msort_noalloc (\<lambda>a b. f a \<le> f b) xs) = length xs
   \<and> set (msort_noalloc (\<lambda>a b. f a \<le> f b) xs) = set xs"
proof (induction "\<lambda>a b. f a \<le> f b" xs rule: msort_noalloc.induct)
  case (1 xs)
  let ?cmp = "\<lambda>a b. f a \<le> f b"
  show ?case
  proof (cases "length xs \<le> 1")
    case True
    then have "msort_noalloc ?cmp xs = xs" by (subst msort_noalloc.simps) simp
    moreover have "sorted (map f xs)" using True by (cases xs) auto
    ultimately show ?thesis by simp
  next
    case False
    let ?l = "msort_noalloc ?cmp (take (length xs div 2) xs)"
    let ?r = "msort_noalloc ?cmp (drop (length xs div 2) xs)"
    have eq: "msort_noalloc ?cmp xs = merge_runs ?cmp ?l ?r"
      using False by (subst msort_noalloc.simps) simp
    note l = "1.hyps"(1) [OF False] and r = "1.hyps"(2) [OF False]
    have s: "sorted (map f (merge_runs ?cmp ?l ?r))"
      using l r by (intro merge_runs_sorted) simp_all
    have st: "filter (\<lambda>a. f a = k) (merge_runs ?cmp ?l ?r) = filter (\<lambda>a. f a = k) xs" for k
    proof -
      have "filter (\<lambda>a. f a = k) (merge_runs ?cmp ?l ?r)
          = filter (\<lambda>a. f a = k) ?l @ filter (\<lambda>a. f a = k) ?r"
        using l by (intro merge_runs_stable) simp
      also have "\<dots> = filter (\<lambda>a. f a = k) (take (length xs div 2) xs)
                     @ filter (\<lambda>a. f a = k) (drop (length xs div 2) xs)"
        using l r by simp
      also have "\<dots> = filter (\<lambda>a. f a = k) (take (length xs div 2) xs @ drop (length xs div 2) xs)"
        by (simp only: filter_append)
      finally show ?thesis by simp
    qed
    have len: "length (merge_runs ?cmp ?l ?r) = length xs"
      using l r by (simp add: merge_runs_length)
    have "set (merge_runs ?cmp ?l ?r) = set (take (length xs div 2) xs @ drop (length xs div 2) xs)"
      using l r by (simp only: merge_runs_set set_append)
    then have se: "set (merge_runs ?cmp ?l ?r) = set xs" by simp
    from s st len se show ?thesis unfolding eq by simp
  qed
qed

text \<open>The sort looks at its comparator only on pairs of elements of the list.\<close>

lemma merge_runs_cong:
  "(\<And>a b. a \<in> set xs \<Longrightarrow> b \<in> set ys \<Longrightarrow> cmp a b = cmp' a b) \<Longrightarrow>
   merge_runs cmp xs ys = merge_runs cmp' xs ys"
  by (induction cmp xs ys rule: merge_runs.induct) auto

lemma msort_noalloc_set: "set (msort_noalloc cmp xs) = set xs"
proof (induction cmp xs rule: msort_noalloc.induct)
  case (1 cmp xs)
  show ?case
  proof (cases "length xs \<le> 1")
    case True
    then show ?thesis by (subst msort_noalloc.simps) simp
  next
    case False
    have "set (msort_noalloc cmp xs)
        = set (take (length xs div 2) xs) \<union> set (drop (length xs div 2) xs)"
      using False "1.IH" by (subst msort_noalloc.simps) (simp add: merge_runs_set)
    also have "\<dots> = set (take (length xs div 2) xs @ drop (length xs div 2) xs)"
      by (simp only: set_append)
    finally show ?thesis by simp
  qed
qed

lemma msort_noalloc_length: "length (msort_noalloc cmp xs) = length xs"
proof (induction cmp xs rule: msort_noalloc.induct)
  case (1 cmp xs)
  show ?case
  proof (cases "length xs \<le> 1")
    case True
    then show ?thesis by (subst msort_noalloc.simps) simp
  next
    case False
    then show ?thesis
      using "1.IH" by (subst msort_noalloc.simps) (simp add: merge_runs_length)
  qed
qed

lemma msort_noalloc_cong:
  "(\<And>a b. a \<in> set xs \<Longrightarrow> b \<in> set xs \<Longrightarrow> cmp a b = cmp' a b) \<Longrightarrow>
   msort_noalloc cmp xs = msort_noalloc cmp' xs"
proof (induction cmp xs rule: msort_noalloc.induct)
  case (1 cmp xs)
  show ?case
  proof (cases "length xs \<le> 1")
    case True
    then show ?thesis by (subst (1 2) msort_noalloc.simps) simp
  next
    case False
    let ?t = "take (length xs div 2) xs" and ?d = "drop (length xs div 2) xs"
    have sub: "set ?t \<subseteq> set xs" "set ?d \<subseteq> set xs"
      by (rule set_take_subset, rule set_drop_subset)
    have l: "msort_noalloc cmp ?t = msort_noalloc cmp' ?t"
    proof (rule "1.IH"(1) [OF False])
      fix a b assume "a \<in> set ?t" "b \<in> set ?t"
      with sub have "a \<in> set xs" "b \<in> set xs" by auto
      then show "cmp a b = cmp' a b" by (rule "1.prems")
    qed
    have r: "msort_noalloc cmp ?d = msort_noalloc cmp' ?d"
    proof (rule "1.IH"(2) [OF False])
      fix a b assume "a \<in> set ?d" "b \<in> set ?d"
      with sub have "a \<in> set xs" "b \<in> set xs" by auto
      then show "cmp a b = cmp' a b" by (rule "1.prems")
    qed
    have "merge_runs cmp (msort_noalloc cmp' ?t) (msort_noalloc cmp' ?d)
        = merge_runs cmp' (msort_noalloc cmp' ?t) (msort_noalloc cmp' ?d)"
    proof (rule merge_runs_cong)
      fix a b
      assume "a \<in> set (msort_noalloc cmp' ?t)" "b \<in> set (msort_noalloc cmp' ?d)"
      with sub have "a \<in> set xs" "b \<in> set xs" by (auto simp add: msort_noalloc_set)
      then show "cmp a b = cmp' a b" by (rule "1.prems")
    qed
    with l r False show ?thesis by (subst (1 2) msort_noalloc.simps) simp
  qed
qed


subsection \<open>The order of the depths\<close>

text \<open>The depths that are not NaN are linearly ordered by \<^verbatim>\<open><=\<close>: the negative infinity,
  the numbers, the positive infinity.\<close>

definition depth_key :: "f32 \<Rightarrow> int \<times> real" where
  "depth_key a =
     (case a of MInf \<Rightarrow> (- 1, 0) | Finite x \<Rightarrow> (0, x) | PInf \<Rightarrow> (1, 0) | NaN \<Rightarrow> (2, 0))"

lemma fle_depth_key: "a \<noteq> NaN \<Longrightarrow> b \<noteq> NaN \<Longrightarrow> fle a b = (depth_key a \<le> depth_key b)"
  by (cases a; cases b) (simp_all add: depth_key_def)

lemma depth_key_eq: "(depth_key a = depth_key b) = (a = b)"
  by (cases a; cases b) (simp_all add: depth_key_def)

lemma MIN_float_cases: "MIN_float a b = a \<or> MIN_float a b = b"
  by (simp add: MIN_float_def)

lemma MIN_float_least:
  "a \<noteq> NaN \<Longrightarrow> b \<noteq> NaN \<Longrightarrow> fle (MIN_float a b) a \<and> fle (MIN_float a b) b"
  by (cases a; cases b) (simp_all add: MIN_float_def)


subsection \<open>Sorting a list of the render context\<close>

text \<open>The depths of the three vertices of a surface, and \<open>minz\<close> as the source computes
  it from them.\<close>

definition surf_depths :: "tr_context \<Rightarrow> int \<Rightarrow> f32 list" where
  "surf_depths rc s =
     (let v = first_vert (rc_surfs rc s)
      in [vec3_z (xyz (rc_verts rc v)), vec3_z (xyz (rc_verts rc (v + 1))),
          vec3_z (xyz (rc_verts rc (v + 2)))])"

definition surf_minz :: "tr_context \<Rightarrow> int \<Rightarrow> f32" where
  "surf_minz rc s =
     (let v = first_vert (rc_surfs rc s)
      in MIN_float (MIN_float (vec3_z (xyz (rc_verts rc v))) (vec3_z (xyz (rc_verts rc (v + 1)))))
                   (vec3_z (xyz (rc_verts rc (v + 2)))))"

text \<open>Where no depth of a surface is NaN, \<open>minz\<close> is the least of the three.\<close>

lemma surf_minz_least:
  assumes "NaN \<notin> set (surf_depths rc s)"
  shows "surf_minz rc s \<in> set (surf_depths rc s)
     \<and> (\<forall>z \<in> set (surf_depths rc s). fle (surf_minz rc s) z)"
proof -
  let ?v = "first_vert (rc_surfs rc s)"
  let ?a = "vec3_z (xyz (rc_verts rc ?v))"
  let ?b = "vec3_z (xyz (rc_verts rc (?v + 1)))"
  let ?c = "vec3_z (xyz (rc_verts rc (?v + 2)))"
  from assms have n: "?a \<noteq> NaN" "?b \<noteq> NaN" "?c \<noteq> NaN"
    by (auto simp add: surf_depths_def Let_def)
  have m: "MIN_float ?a ?b \<noteq> NaN" using MIN_float_cases [of ?a ?b] n by auto
  note ab = MIN_float_least [OF n(1,2)] and abc = MIN_float_least [OF m n(3)]
  have tr: "fle x z" if "fle x y" "fle y z" for x y z
    using that by (cases x; cases y; cases z) simp_all
  have "fle (MIN_float (MIN_float ?a ?b) ?c) ?a" "fle (MIN_float (MIN_float ?a ?b) ?c) ?b"
    "fle (MIN_float (MIN_float ?a ?b) ?c) ?c"
    using ab abc by (blast intro: tr)+
  moreover have "MIN_float (MIN_float ?a ?b) ?c \<in> {?a, ?b, ?c}"
    using MIN_float_cases [of ?a ?b] MIN_float_cases [of "MIN_float ?a ?b" ?c] by auto
  ultimately show ?thesis by (simp add: surf_minz_def surf_depths_def Let_def)
qed

lemma surf_minz_not_nan: "NaN \<notin> set (surf_depths rc s) \<Longrightarrow> surf_minz rc s \<noteq> NaN"
  using surf_minz_least [of rc s] by auto

lemma list_entries_set:
  "set (list_entries l) = {surfs l k | k. 0 \<le> k \<and> k < num_surfs l}"
proof -
  have "\<exists>k\<ge>0. k < num_surfs l \<and> surfs l (int j) = surfs l k" if "j < nat (num_surfs l)" for j
    using that by (intro exI [of _ "int j"]) simp
  moreover have "surfs l k \<in> (\<lambda>j. surfs l (int j)) ` {0..<nat (num_surfs l)}"
    if "0 \<le> k" "k < num_surfs l" for k
    using that by (intro image_eqI [of _ _ "nat k"]) simp_all
  ultimately show ?thesis by (auto simp add: list_entries_def)
qed

lemma fill_minz_result:
  assumes "fill_minz rc lt i mz0 = Inr mz"
  shows "mz s = (if s \<in> {surfs (rc_lists rc lt) k | k. i \<le> k \<and> k < num_surfs (rc_lists rc lt)}
                 then surf_minz rc s else mz0 s)"
  using assms
proof (induction "nat (num_surfs (rc_lists rc lt) - i)" arbitrary: i mz0)
  case 0
  then have stop: "\<not> i < num_surfs (rc_lists rc lt)" by simp
  with "0.prems" have "mz = mz0" by (subst (asm) fill_minz.simps) (simp add: Let_def)
  with stop show ?case by auto
next
  case (Suc m)
  let ?l = "rc_lists rc lt"
  from Suc have run: "i < num_surfs ?l" by linarith
  have m: "m = nat (num_surfs ?l - (i + 1))" using Suc.hyps(2) by linarith
  from Suc.prems run
  have rec: "fill_minz rc lt (i + 1) (mz0(surfs ?l i := surf_minz rc (surfs ?l i))) = Inr mz"
    by (subst (asm) fill_minz.simps)
       (simp add: Let_def surf_minz_def split: if_splits)
  have S: "{surfs ?l k | k. i \<le> k \<and> k < num_surfs ?l}
      = insert (surfs ?l i) {surfs ?l k | k. i + 1 \<le> k \<and> k < num_surfs ?l}"
  proof -
    have "k = i \<or> i + 1 \<le> k" if "i \<le> k" for k using that by linarith
    then show ?thesis using run by auto
  qed
  show ?case unfolding S Suc.hyps(1) [OF m rec] by auto
qed

lemma fill_minz_returns:
  assumes "\<forall>k. i \<le> k \<and> k < num_surfs (rc_lists rc lt) \<longrightarrow>
             num_verts (rc_surfs rc (surfs (rc_lists rc lt) k)) = 3"
  shows "\<exists>mz. fill_minz rc lt i mz0 = Inr mz"
  using assms
proof (induction "nat (num_surfs (rc_lists rc lt) - i)" arbitrary: i mz0)
  case 0
  then have "\<not> i < num_surfs (rc_lists rc lt)" by simp
  then show ?case by (subst fill_minz.simps) (simp add: Let_def)
next
  case (Suc m)
  let ?l = "rc_lists rc lt"
  from Suc have run: "i < num_surfs ?l" by linarith
  have m: "m = nat (num_surfs ?l - (i + 1))" using Suc.hyps(2) by linarith
  have three: "num_verts (rc_surfs rc (surfs ?l i)) = 3" using Suc.prems run by simp
  have "\<exists>mz. fill_minz rc lt (i + 1) mz1 = Inr mz" for mz1
    using Suc.prems by (intro Suc.hyps(1) [OF m]) simp
  with run three show ?case
    by (subst fill_minz.simps) (simp add: Let_def)
qed

lemma list_entries_sorted_list:
  assumes "length ys = nat (num_surfs l)"
  shows "list_entries (l\<lparr>surfs := (\<lambda>k. if 0 \<le> k \<and> k < num_surfs l then ys ! nat k else surfs l k)\<rparr>) = ys"
  using assms by (auto simp add: list_entries_def intro!: nth_equalityI)

text \<open>What \<^verbatim>\<open>tr_sort_surfaces\<close> returns: the list sorted by the comparator of the source
  on the depths \<open>minz\<close> of its entries.\<close>

lemma tr_sort_surfaces_Inr:
  assumes run: "tr_sort_surfaces mz0 rc lt = Inr (mz, rc')"
  shows "list_entries (rc_lists rc' lt)
           = msort_noalloc (\<lambda>a b. fle (surf_minz rc a) (surf_minz rc b))
               (list_entries (rc_lists rc lt))"
    and "rc_surfs rc' = rc_surfs rc" and "rc_verts rc' = rc_verts rc"
proof -
  let ?l = "rc_lists rc lt"
  let ?xs = "list_entries ?l"
  let ?ys = "msort_noalloc (tr_compare_surf mz) ?xs"
  obtain m where f: "fill_minz rc lt 0 mz0 = Inr m"
    using run by (cases "fill_minz rc lt 0 mz0") (simp_all add: tr_sort_surfaces_def)
  from run have res: "(mz, rc') = (m, rc\<lparr>rc_lists := (rc_lists rc)
                 (lt := ?l\<lparr>surfs := (\<lambda>k. if 0 \<le> k \<and> k < num_surfs ?l
                             then msort_noalloc (tr_compare_surf m) ?xs ! nat k
                             else surfs ?l k)\<rparr>)\<rparr>)"
    unfolding tr_sort_surfaces_def f ebind_simps Let_def by simp
  then have mm: "mz = m"
    and rc0: "rc' = rc\<lparr>rc_lists := (rc_lists rc)
                 (lt := ?l\<lparr>surfs := (\<lambda>k. if 0 \<le> k \<and> k < num_surfs ?l
                             then msort_noalloc (tr_compare_surf m) ?xs ! nat k
                             else surfs ?l k)\<rparr>)\<rparr>"
    by simp_all
  have fill: "fill_minz rc lt 0 mz0 = Inr mz" unfolding mm by (rule f)
  have rc': "rc' = rc\<lparr>rc_lists := (rc_lists rc)
                 (lt := ?l\<lparr>surfs := (\<lambda>k. if 0 \<le> k \<and> k < num_surfs ?l then ?ys ! nat k
                                        else surfs ?l k)\<rparr>)\<rparr>"
    unfolding mm by (rule rc0)
  have "length ?ys = length ?xs" by (rule msort_noalloc_length)
  then have len: "length ?ys = nat (num_surfs ?l)" by (simp add: list_entries_def)
  have ys: "list_entries (rc_lists rc' lt) = ?ys"
    unfolding rc' using list_entries_sorted_list [OF len] by simp
  have key: "mz s = surf_minz rc s" if "s \<in> set ?xs" for s
    using that fill_minz_result [OF fill, of s] by (simp add: list_entries_set)
  have "?ys = msort_noalloc (\<lambda>a b. fle (surf_minz rc a) (surf_minz rc b)) ?xs"
  proof (rule msort_noalloc_cong)
    fix a b assume "a \<in> set ?xs" "b \<in> set ?xs"
    then show "tr_compare_surf mz a b = fle (surf_minz rc a) (surf_minz rc b)"
      by (simp only: tr_compare_surf_def key)
  qed
  with ys show "list_entries (rc_lists rc' lt)
           = msort_noalloc (\<lambda>a b. fle (surf_minz rc a) (surf_minz rc b)) ?xs"
    by (simp only:)
  show "rc_surfs rc' = rc_surfs rc" and "rc_verts rc' = rc_verts rc"
    by (simp_all add: rc')
qed

lemma tr_sort_surfaces_result:
  assumes run: "tr_sort_surfaces mz0 rc lt = Inr (mz, rc')"
    and nn: "\<forall>s \<in> set (list_entries (rc_lists rc lt)). NaN \<notin> set (surf_depths rc s)"
  shows "sorted (map (\<lambda>s. depth_key (surf_minz rc s)) (list_entries (rc_lists rc' lt)))"
    and "filter (\<lambda>s. surf_minz rc s = z) (list_entries (rc_lists rc' lt))
           = filter (\<lambda>s. surf_minz rc s = z) (list_entries (rc_lists rc lt))"
    and "length (list_entries (rc_lists rc' lt)) = length (list_entries (rc_lists rc lt))"
    and "set (list_entries (rc_lists rc' lt)) = set (list_entries (rc_lists rc lt))"
proof -
  let ?xs = "list_entries (rc_lists rc lt)"
  let ?k = "\<lambda>s. depth_key (surf_minz rc s)"
  have "msort_noalloc (\<lambda>a b. fle (surf_minz rc a) (surf_minz rc b)) ?xs
      = msort_noalloc (\<lambda>a b. ?k a \<le> ?k b) ?xs"
  proof (rule msort_noalloc_cong)
    fix a b assume "a \<in> set ?xs" "b \<in> set ?xs"
    with nn have "surf_minz rc a \<noteq> NaN" "surf_minz rc b \<noteq> NaN"
      by (simp_all add: surf_minz_not_nan)
    then show "fle (surf_minz rc a) (surf_minz rc b) = (?k a \<le> ?k b)"
      by (rule fle_depth_key)
  qed
  then have ys: "list_entries (rc_lists rc' lt) = msort_noalloc (\<lambda>a b. ?k a \<le> ?k b) ?xs"
    using tr_sort_surfaces_Inr(1) [OF run] by (simp only:)
  note props = msort_noalloc_props [of ?k ?xs]
  show "sorted (map ?k (list_entries (rc_lists rc' lt)))"
    unfolding ys using props by (rule conjunct1)
  have "filter (\<lambda>s. ?k s = depth_key z) (list_entries (rc_lists rc' lt))
      = filter (\<lambda>s. ?k s = depth_key z) ?xs"
    unfolding ys using props by blast
  then show "filter (\<lambda>s. surf_minz rc s = z) (list_entries (rc_lists rc' lt))
           = filter (\<lambda>s. surf_minz rc s = z) ?xs"
    by (simp only: depth_key_eq)
  show "length (list_entries (rc_lists rc' lt)) = length ?xs"
    unfolding ys using props by blast
  show "set (list_entries (rc_lists rc' lt)) = set ?xs"
    unfolding ys using props by blast
qed

lemma tr_sort_surfaces_returns:
  assumes "\<forall>s \<in> set (list_entries (rc_lists rc lt)). num_verts (rc_surfs rc s) = 3"
  shows "\<exists>mz rc'. tr_sort_surfaces mz0 rc lt = Inr (mz, rc')"
proof -
  have "\<forall>k. 0 \<le> k \<and> k < num_surfs (rc_lists rc lt) \<longrightarrow>
             num_verts (rc_surfs rc (surfs (rc_lists rc lt) k)) = 3"
    using assms by (auto simp add: list_entries_set)
  from fill_minz_returns [OF this, of mz0] obtain mz where "fill_minz rc lt 0 mz0 = Inr mz" ..
  then show ?thesis by (simp add: tr_sort_surfaces_def Let_def)
qed

text \<open>
  Claim C4, amended. The claim orders the sorted list by \<open>minz\<close> for every list. The
  depths are floats that the handlers copy from the guest, and the comparator of the
  source is \<^verbatim>\<open><=\<close> on floats, which is false both ways when a depth is NaN: with a NaN
  depth an adjacent pair of the sorted list fails \<open>minz s \<le> minz t\<close>. Amended: when no
  vertex depth of the surfaces of the list is NaN, then after \<^verbatim>\<open>tr_sort_surfaces\<close> (which
  \<^verbatim>\<open>tr_convert_context\<close> calls for the translucent and the punch-through list when
  \<^verbatim>\<open>ctx->autosort\<close> is set) every adjacent pair \<open>(s, t)\<close> of the list has
  \<open>minz s \<le> minz t\<close>, with \<open>minz\<close> the least depth of the three vertices of a surface, and
  surfaces of equal \<open>minz\<close> keep their order of submission: for every depth the entries
  of that depth are the same sequence before and after. The sort changes neither
  surfaces nor vertices, so \<open>minz\<close> is the same function before and after; it returns
  when every entry has three vertices (the source checks it).
\<close>

theorem sorted_by_minz_stable:
  assumes nn: "\<forall>s \<in> set (list_entries (rc_lists rc lt)). NaN \<notin> set (surf_depths rc s)"
  shows "(\<forall>mz rc'. tr_sort_surfaces mz0 rc lt = Inr (mz, rc') \<longrightarrow>
      (\<forall>k. k + 1 < length (list_entries (rc_lists rc' lt)) \<longrightarrow>
           fle (surf_minz rc' (list_entries (rc_lists rc' lt) ! k))
               (surf_minz rc' (list_entries (rc_lists rc' lt) ! (k + 1))))
      \<and> (\<forall>z. filter (\<lambda>s. surf_minz rc' s = z) (list_entries (rc_lists rc' lt))
             = filter (\<lambda>s. surf_minz rc s = z) (list_entries (rc_lists rc lt)))
      \<and> length (list_entries (rc_lists rc' lt)) = length (list_entries (rc_lists rc lt))
      \<and> surf_minz rc' = surf_minz rc)
   \<and> (\<forall>s \<in> set (list_entries (rc_lists rc lt)).
        surf_minz rc s \<in> set (surf_depths rc s)
        \<and> (\<forall>z \<in> set (surf_depths rc s). fle (surf_minz rc s) z))
   \<and> ((\<forall>s \<in> set (list_entries (rc_lists rc lt)). num_verts (rc_surfs rc s) = 3) \<longrightarrow>
        (\<exists>mz rc'. tr_sort_surfaces mz0 rc lt = Inr (mz, rc')))"
proof -
  have part1: "(\<forall>k. k + 1 < length (list_entries (rc_lists rc' lt)) \<longrightarrow>
           fle (surf_minz rc' (list_entries (rc_lists rc' lt) ! k))
               (surf_minz rc' (list_entries (rc_lists rc' lt) ! (k + 1))))
      \<and> (\<forall>z. filter (\<lambda>s. surf_minz rc' s = z) (list_entries (rc_lists rc' lt))
             = filter (\<lambda>s. surf_minz rc s = z) (list_entries (rc_lists rc lt)))
      \<and> length (list_entries (rc_lists rc' lt)) = length (list_entries (rc_lists rc lt))
      \<and> surf_minz rc' = surf_minz rc"
    if run: "tr_sort_surfaces mz0 rc lt = Inr (mz, rc')" for mz rc'
  proof -
    note r = tr_sort_surfaces_result [OF run nn] and fr = tr_sort_surfaces_Inr(2,3) [OF run]
    let ?ys = "list_entries (rc_lists rc' lt)"
    have same: "surf_minz rc' = surf_minz rc"
      by (simp add: surf_minz_def fun_eq_iff fr)
    have adj: "fle (surf_minz rc (?ys ! k)) (surf_minz rc (?ys ! (k + 1)))"
      if k: "k + 1 < length ?ys" for k
    proof -
      have "?ys ! k \<in> set ?ys" "?ys ! (k + 1) \<in> set ?ys" using k by simp_all
      then have n: "surf_minz rc (?ys ! k) \<noteq> NaN" "surf_minz rc (?ys ! (k + 1)) \<noteq> NaN"
        using nn unfolding r(4) by (simp_all add: surf_minz_not_nan)
      have "depth_key (surf_minz rc (?ys ! k)) \<le> depth_key (surf_minz rc (?ys ! (k + 1)))"
        using sorted_nth_mono [OF r(1), of k "k + 1"] k by simp
      then show ?thesis by (simp only: fle_depth_key [OF n])
    qed
    show ?thesis unfolding same
      using adj r(2) r(3) by (intro conjI allI impI) simp_all
  qed
  have part2: "\<forall>s \<in> set (list_entries (rc_lists rc lt)).
        surf_minz rc s \<in> set (surf_depths rc s)
        \<and> (\<forall>z \<in> set (surf_depths rc s). fle (surf_minz rc s) z)"
    using nn surf_minz_least by blast
  show ?thesis
  proof (intro conjI)
    show "\<forall>mz rc'. tr_sort_surfaces mz0 rc lt = Inr (mz, rc') \<longrightarrow>
      (\<forall>k. k + 1 < length (list_entries (rc_lists rc' lt)) \<longrightarrow>
           fle (surf_minz rc' (list_entries (rc_lists rc' lt) ! k))
               (surf_minz rc' (list_entries (rc_lists rc' lt) ! (k + 1))))
      \<and> (\<forall>z. filter (\<lambda>s. surf_minz rc' s = z) (list_entries (rc_lists rc' lt))
             = filter (\<lambda>s. surf_minz rc s = z) (list_entries (rc_lists rc lt)))
      \<and> length (list_entries (rc_lists rc' lt)) = length (list_entries (rc_lists rc lt))
      \<and> surf_minz rc' = surf_minz rc"
      by (intro allI impI) (rule part1)
    show "\<forall>s \<in> set (list_entries (rc_lists rc lt)).
        surf_minz rc s \<in> set (surf_depths rc s)
        \<and> (\<forall>z \<in> set (surf_depths rc s). fle (surf_minz rc s) z)"
      by (rule part2)
    show "(\<forall>s \<in> set (list_entries (rc_lists rc lt)). num_verts (rc_surfs rc s) = 3) \<longrightarrow>
        (\<exists>mz rc'. tr_sort_surfaces mz0 rc lt = Inr (mz, rc'))"
      by (intro impI) (rule tr_sort_surfaces_returns)
  qed
qed


lemma upt_0_3: "[0..<3] = [0, 1, 2]"
  by (simp add: numeral_3_eq_3)

lemma sort_rc_entries: "list_entries (rc_lists sort_rc TA_LIST_TRANSLUCENT) = [1, 2, 3]"
  by (simp add: list_entries_def sort_rc_def upt_0_3)

lemma sort_rc_depths:
  "surf_depths sort_rc 1 = [Finite 5, Finite 5, Finite 5]"
  "surf_depths sort_rc 2 = [Finite 1, Finite 1, Finite 1]"
  "surf_depths sort_rc 3 = [Finite 5, Finite 5, Finite 5]"
  by (simp_all add: surf_depths_def sort_rc_def zero_surface_def vec3_z_def)

lemma sort_rc_minz:
  "surf_minz sort_rc 1 = Finite 5" "surf_minz sort_rc 2 = Finite 1" "surf_minz sort_rc 3 = Finite 5"
  by (simp_all add: surf_minz_def sort_rc_def zero_surface_def vec3_z_def MIN_float_def)

theorem sorted_by_minz_stable_witness:
  "\<exists>mz rc'. tr_sort_surfaces (\<lambda>s. Finite 0) sort_rc TA_LIST_TRANSLUCENT = Inr (mz, rc')
     \<and> length (list_entries (rc_lists rc' TA_LIST_TRANSLUCENT)) = 3
     \<and> fle (surf_minz rc' (list_entries (rc_lists rc' TA_LIST_TRANSLUCENT) ! 0))
           (surf_minz rc' (list_entries (rc_lists rc' TA_LIST_TRANSLUCENT) ! 1))
     \<and> fle (surf_minz rc' (list_entries (rc_lists rc' TA_LIST_TRANSLUCENT) ! 1))
           (surf_minz rc' (list_entries (rc_lists rc' TA_LIST_TRANSLUCENT) ! 2))
     \<and> filter (\<lambda>s. surf_minz rc' s = Finite 5) (list_entries (rc_lists rc' TA_LIST_TRANSLUCENT))
          = [1, 3]
     \<and> filter (\<lambda>s. surf_minz rc' s = Finite 1) (list_entries (rc_lists rc' TA_LIST_TRANSLUCENT))
          = [2]"
proof -
  have nn: "\<forall>s \<in> set (list_entries (rc_lists sort_rc TA_LIST_TRANSLUCENT)).
      NaN \<notin> set (surf_depths sort_rc s)"
    unfolding sort_rc_entries by (simp add: sort_rc_depths)
  note main = sorted_by_minz_stable [OF nn, of "\<lambda>s. Finite 0"]
  have three: "\<forall>s \<in> set (list_entries (rc_lists sort_rc TA_LIST_TRANSLUCENT)).
      num_verts (rc_surfs sort_rc s) = 3"
    unfolding sort_rc_entries by (simp add: sort_rc_def)
  from main three obtain mz rc' where
    run: "tr_sort_surfaces (\<lambda>s. Finite 0) sort_rc TA_LIST_TRANSLUCENT = Inr (mz, rc')"
    by blast
  let ?ys = "list_entries (rc_lists rc' TA_LIST_TRANSLUCENT)"
  from main run have
    adj: "\<forall>k. k + 1 < length ?ys \<longrightarrow> fle (surf_minz rc' (?ys ! k)) (surf_minz rc' (?ys ! (k + 1)))"
    and st: "\<forall>z. filter (\<lambda>s. surf_minz rc' s = z) ?ys
               = filter (\<lambda>s. surf_minz sort_rc s = z) (list_entries (rc_lists sort_rc TA_LIST_TRANSLUCENT))"
    and len: "length ?ys = length (list_entries (rc_lists sort_rc TA_LIST_TRANSLUCENT))"
    by blast+
  have l3: "length ?ys = 3" using len by (simp add: sort_rc_entries)
  have a0: "fle (surf_minz rc' (?ys ! 0)) (surf_minz rc' (?ys ! 1))"
    using adj [rule_format, of 0] l3 by simp
  have a1: "fle (surf_minz rc' (?ys ! 1)) (surf_minz rc' (?ys ! 2))"
    using adj [rule_format, of 1] l3 by (simp add: numeral_2_eq_2)
  have f5: "filter (\<lambda>s. surf_minz rc' s = Finite 5) ?ys = [1, 3]"
    using st [rule_format, of "Finite 5"] by (simp add: sort_rc_entries sort_rc_minz)
  have f1: "filter (\<lambda>s. surf_minz rc' s = Finite 1) ?ys = [2]"
    using st [rule_format, of "Finite 1"] by (simp add: sort_rc_entries sort_rc_minz)
  from run l3 a0 a1 f5 f1 show ?thesis by blast
qed

lemma sort_rc_sorted:
  "\<exists>mz rc'. tr_sort_surfaces (\<lambda>s. Finite 0) sort_rc TA_LIST_TRANSLUCENT = Inr (mz, rc')
     \<and> list_entries (rc_lists rc' TA_LIST_TRANSLUCENT) = [2, 1, 3]"
proof -
  have three: "\<forall>s \<in> set (list_entries (rc_lists sort_rc TA_LIST_TRANSLUCENT)).
      num_verts (rc_surfs sort_rc s) = 3"
    unfolding sort_rc_entries by (simp add: sort_rc_def)
  from tr_sort_surfaces_returns [OF three, of "\<lambda>s. Finite 0"] obtain mz rc' where
    run: "tr_sort_surfaces (\<lambda>s. Finite 0) sort_rc TA_LIST_TRANSLUCENT = Inr (mz, rc')"
    by blast
  have "list_entries (rc_lists rc' TA_LIST_TRANSLUCENT) = [2, 1, 3]"
    unfolding tr_sort_surfaces_Inr(1) [OF run] sort_rc_entries
    by (simp add: msort_noalloc.simps sort_rc_minz)
  with run show ?thesis by blast
qed

text \<open>
  The claim C4 as it is stated fails at \<^const>\<open>nan_sort_rc\<close>, whose translucent list holds
  the surfaces 1, of depth NaN, and 2, of depth 1: the sort returns the list \<open>[2, 1]\<close>,
  and \<open>minz 2 \<le> minz 1\<close> is false; so is \<open>minz 1 \<le> minz 2\<close>, the pair in the other order.
\<close>

lemma nan_sort_rc_entries: "list_entries (rc_lists nan_sort_rc TA_LIST_TRANSLUCENT) = [1, 2]"
  by (simp add: list_entries_def nan_sort_rc_def numeral_2_eq_2)

lemma nan_sort_rc_minz:
  "surf_minz nan_sort_rc 1 = NaN" "surf_minz nan_sort_rc 2 = Finite 1"
  by (simp_all add: surf_minz_def nan_sort_rc_def zero_surface_def vec3_z_def MIN_float_def)

theorem nan_depth_unsorted:
  "\<not> isl (tr_sort_surfaces (\<lambda>s. Finite 0) nan_sort_rc TA_LIST_TRANSLUCENT)
   \<and> list_entries (rc_lists (snd (projr
         (tr_sort_surfaces (\<lambda>s. Finite 0) nan_sort_rc TA_LIST_TRANSLUCENT))) TA_LIST_TRANSLUCENT)
       = [2, 1]
   \<and> surf_minz (snd (projr (tr_sort_surfaces (\<lambda>s. Finite 0) nan_sort_rc TA_LIST_TRANSLUCENT))) 2
       = Finite 1
   \<and> surf_minz (snd (projr (tr_sort_surfaces (\<lambda>s. Finite 0) nan_sort_rc TA_LIST_TRANSLUCENT))) 1
       = NaN
   \<and> \<not> fle (Finite 1) NaN \<and> \<not> fle NaN (Finite 1)"
proof -
  have three: "\<forall>s \<in> set (list_entries (rc_lists nan_sort_rc TA_LIST_TRANSLUCENT)).
      num_verts (rc_surfs nan_sort_rc s) = 3"
    unfolding nan_sort_rc_entries by (simp add: nan_sort_rc_def)
  from tr_sort_surfaces_returns [OF three, of "\<lambda>s. Finite 0"] obtain mz rc' where
    run: "tr_sort_surfaces (\<lambda>s. Finite 0) nan_sort_rc TA_LIST_TRANSLUCENT = Inr (mz, rc')"
    by blast
  have es: "list_entries (rc_lists rc' TA_LIST_TRANSLUCENT) = [2, 1]"
    unfolding tr_sort_surfaces_Inr(1) [OF run] nan_sort_rc_entries
    by (simp add: msort_noalloc.simps nan_sort_rc_minz)
  have same: "surf_minz rc' = surf_minz nan_sort_rc"
    by (simp add: surf_minz_def fun_eq_iff tr_sort_surfaces_Inr(2,3) [OF run])
  show ?thesis
    unfolding run by (simp add: es same nan_sort_rc_minz)
qed


subsection \<open>Conversion and the prior content of the render context\<close>

lemma reset_lists_stop: "\<not> i < TA_NUM_LISTS \<Longrightarrow> reset_lists i rc = rc"
  by (subst reset_lists.simps) simp

lemma reset_lists_round:
  "i < TA_NUM_LISTS \<Longrightarrow>
   reset_lists i rc = reset_lists (i + 1)
     (rc\<lparr>rc_lists := (rc_lists rc)(i := (rc_lists rc i)\<lparr>num_surfs := 0, num_orig_surfs := 0\<rparr>)\<rparr>)"
  by (subst reset_lists.simps) simp

lemma reset_lists_frame:
  "rc_verts (reset_lists i rc) = rc_verts rc
   \<and> rc_surfs (reset_lists i rc) = rc_surfs rc
   \<and> rc_indices (reset_lists i rc) = rc_indices rc
   \<and> rc_num_surfs (reset_lists i rc) = rc_num_surfs rc
   \<and> rc_num_verts (reset_lists i rc) = rc_num_verts rc
   \<and> rc_num_indices (reset_lists i rc) = rc_num_indices rc
   \<and> rc_num_params (reset_lists i rc) = rc_num_params rc"
proof (induction "nat (TA_NUM_LISTS - i)" arbitrary: i rc)
  case 0
  then have "\<not> i < TA_NUM_LISTS" by simp
  then show ?case by (simp add: reset_lists_stop)
next
  case (Suc m)
  then have run: "i < TA_NUM_LISTS" by linarith
  have m: "m = nat (TA_NUM_LISTS - (i + 1))" using Suc.hyps(2) by linarith
  show ?case unfolding reset_lists_round [OF run] using Suc.hyps(1) [OF m] by simp
qed

lemma reset_lists_below:
  "k < i \<Longrightarrow> rc_lists (reset_lists i rc) k = rc_lists rc k"
proof (induction "nat (TA_NUM_LISTS - i)" arbitrary: i rc)
  case 0
  then have "\<not> i < TA_NUM_LISTS" by simp
  then show ?case by (simp add: reset_lists_stop)
next
  case (Suc m)
  then have run: "i < TA_NUM_LISTS" by linarith
  have m: "m = nat (TA_NUM_LISTS - (i + 1))" using Suc.hyps(2) by linarith
  have "k < i + 1" using Suc.prems by simp
  from Suc.hyps(1) [OF m this] Suc.prems show ?case
    unfolding reset_lists_round [OF run] by simp
qed

lemma reset_lists_cleared:
  "i \<le> k \<Longrightarrow> k < TA_NUM_LISTS \<Longrightarrow>
   num_surfs (rc_lists (reset_lists i rc) k) = 0
   \<and> num_orig_surfs (rc_lists (reset_lists i rc) k) = 0"
proof (induction "nat (TA_NUM_LISTS - i)" arbitrary: i rc)
  case 0
  then show ?case by simp
next
  case (Suc m)
  then have run: "i < TA_NUM_LISTS" by linarith
  have m: "m = nat (TA_NUM_LISTS - (i + 1))" using Suc.hyps(2) by linarith
  show ?case
  proof (cases "k = i")
    case True
    then show ?thesis
      unfolding reset_lists_round [OF run] by (simp add: reset_lists_below)
  next
    case False
    then have "i + 1 \<le> k" using Suc.prems by simp
    from Suc.hyps(1) [OF m this Suc.prems(2)] show ?thesis
      unfolding reset_lists_round [OF run] .
  qed
qed

text \<open>\<^verbatim>\<open>tr_reset\<close> resets every counter of the render context and the renderer's state,
  and leaves the arrays as they are.\<close>

lemma tr_reset_counters:
  "rc_num_params (snd (tr_reset t rc)) = 0 \<and> rc_num_surfs (snd (tr_reset t rc)) = 0
   \<and> rc_num_verts (snd (tr_reset t rc)) = 0 \<and> rc_num_indices (snd (tr_reset t rc)) = 0
   \<and> (\<forall>k. 0 \<le> k \<and> k < TA_NUM_LISTS \<longrightarrow>
         num_surfs (rc_lists (snd (tr_reset t rc)) k) = 0
         \<and> num_orig_surfs (rc_lists (snd (tr_reset t rc)) k) = 0)
   \<and> rc_verts (snd (tr_reset t rc)) = rc_verts rc
   \<and> rc_surfs (snd (tr_reset t rc)) = rc_surfs rc
   \<and> rc_indices (snd (tr_reset t rc)) = rc_indices rc
   \<and> last_vertex (fst (tr_reset t rc)) = None
   \<and> list_type (fst (tr_reset t rc)) = TA_NUM_LISTS
   \<and> vert_type (fst (tr_reset t rc)) = TA_NUM_VERTS"
  by (simp add: tr_reset_def reset_lists_frame reset_lists_cleared)


lemmas blank_defs =
  blank_pcw_def blank_isp_def blank_tsp_def blank_tcw_def blank_poly_def blank_vert_def
  blank_param_def blank_ctx_def

lemma parse_bg_blank:
  assumes "rc_num_surfs rc = 0" and "rc_num_verts rc = 0" and "num_surfs (rc_lists rc 0) = 0"
  shows "\<exists>t' rc'. tr_parse_bg small_env t one_vertex_ctx rc = Inr (t', rc')
     \<and> list_type t' = TA_NUM_LISTS \<and> last_vertex t' = last_vertex t
     \<and> vert_type t' = vert_type t \<and> tr_r t' = tr_r t \<and> tr_userdata t' = tr_userdata t
     \<and> rc_num_surfs rc' = 1 \<and> rc_num_verts rc' = 4
     \<and> rc_num_indices rc' = rc_num_indices rc
     \<and> rc_verts rc' 5 = rc_verts rc 5
     \<and> num_surfs (rc_lists rc' 0) = 1 \<and> surfs (rc_lists rc' 0) 0 = 0
     \<and> (\<forall>k. k \<noteq> 0 \<longrightarrow> num_surfs (rc_lists rc' k) = num_surfs (rc_lists rc k))
     \<and> num_verts (rc_surfs rc' 0) = 4 \<and> first_vert (rc_surfs rc' 0) = 0
     \<and> strip_offset (rc_surfs rc' 0) = 0"
  using assms
  by (simp add: tr_parse_bg_def tr_reserve_surf_def tr_reserve_vert_def upd_surf_def upd_vert_def
      tr_parse_bg_vert_def tr_commit_surf_def list_append_surf_def one_vertex_ctx_def blank_defs
      small_env_def Let_def ta_list_defs zero_surface_def
      cong: let_weak_cong ebind_weak_cong prod.case_cong_weak)


lemma parse_params_one_vertex:
  assumes "list_type t = TA_NUM_LISTS" and "last_vertex t = None"
    and "rc_num_surfs rc = 1" and "rc_num_verts rc = 4"
  shows "\<exists>t' rc'. parse_params small_env one_vertex_ctx 0 t rc = Some (Inr (t', rc'))
     \<and> tr_r t' = tr_r t \<and> tr_userdata t' = tr_userdata t
     \<and> rc_num_surfs rc' = 1 \<and> rc_num_verts rc' = 6
     \<and> rc_num_indices rc' = rc_num_indices rc
     \<and> rc_verts rc' 5 = rc_verts rc 5
     \<and> xyz (rc_verts rc' 4) = (Finite 1, Finite 2, Finite 3)
     \<and> rc_surfs rc' 0 = rc_surfs rc 0
     \<and> (\<forall>k. num_surfs (rc_lists rc' k) = num_surfs (rc_lists rc k))
     \<and> (\<forall>k. surfs (rc_lists rc' k) = surfs (rc_lists rc k))"
  using assms
  apply (subst parse_params.simps)
  apply (simp add: parse_param_def tr_parse_poly_param_def poly_colors_def tr_reserve_surf_def
      upd_surf_def one_vertex_ctx_def blank_defs small_env_def Let_def ta_list_defs ta_param_defs
      cong: let_weak_cong ebind_weak_cong prod.case_cong_weak)
  apply (subst parse_params.simps)
  apply (simp add: parse_param_def tr_parse_vert_param_def parse_vert_switch_def
      tr_reserve_vert_def upd_vert_def tr_commit_surf_def commit_tris.simps
      one_vertex_ctx_def blank_defs small_env_def Let_def ta_list_defs ta_param_defs
      zero_surface_def
      cong: let_weak_cong ebind_weak_cong prod.case_cong_weak)
  apply (subst parse_params.simps)
  apply (simp add: one_vertex_ctx_def blank_defs)
  done


lemma generate_all_background_only:
  assumes "num_surfs (rc_lists rc 0) = 1" and "surfs (rc_lists rc 0) 0 = 0"
    and "num_verts (rc_surfs rc 0) = 4" and "first_vert (rc_surfs rc 0) = 0"
    and "strip_offset (rc_surfs rc 0) = 0" and "rc_num_indices rc = 0"
    and "num_surfs (rc_lists rc 1) = 0" and "num_surfs (rc_lists rc 2) = 0"
    and "num_surfs (rc_lists rc 3) = 0" and "num_surfs (rc_lists rc 4) = 0"
  shows "\<exists>rc'. generate_all small_env 0 rc = Inr rc'
     \<and> rc_verts rc' = rc_verts rc \<and> rc_num_verts rc' = rc_num_verts rc
     \<and> rc_num_surfs rc' = rc_num_surfs rc \<and> rc_num_indices rc' = 6
     \<and> num_surfs (rc_lists rc' 0) = 1 \<and> num_surfs (rc_lists rc' 2) = 0"
  using assms
  by (simp add: generate_all.simps tr_generate_indices_def merge_groups.simps merge_surfs.simps
      emit_tris.simps upd_surf_def small_env_def Let_def ta_list_defs
      cong: let_weak_cong ebind_weak_cong prod.case_cong_weak sum.case_cong_weak)


lemma convert_one_vertex:
  "\<exists>r' u' mz' rc'. tr_convert_context small_env r u mz0 one_vertex_ctx rc
       = Some (Inr (r', u', mz', rc'))
     \<and> rc_num_surfs rc' = 1 \<and> rc_num_verts rc' = 6 \<and> rc_num_indices rc' = 6
     \<and> num_surfs (rc_lists rc' TA_LIST_OPAQUE) = 1
     \<and> num_surfs (rc_lists rc' TA_LIST_TRANSLUCENT) = 0
     \<and> xyz (rc_verts rc' 4) = (Finite 1, Finite 2, Finite 3)
     \<and> rc_verts rc' 5 = rc_verts rc 5"
proof -
  let ?t0 = "\<lparr>tr_r = r, tr_userdata = u, last_vertex = None, list_type = 0,
                vert_type = 0, face_color = (0, 0, 0, 0), face_offset_color = (0, 0, 0, 0),
                sprite_color = (0, 0, 0, 0), sprite_offset_color = (0, 0, 0, 0)\<rparr>"
  let ?rc0 = "rc\<lparr>rc_num_params := 0, rc_num_surfs := 0, rc_num_verts := 0, rc_num_indices := 0\<rparr>"
  let ?t1 = "fst (tr_reset ?t0 rc)"
  let ?rc2 = "(snd (tr_reset ?t0 rc))\<lparr>rc_width := ctx_video_width one_vertex_ctx,
                rc_height := ctx_video_height one_vertex_ctx\<rparr>"
  note rs = reset_lists_frame [of 0 ?rc0] reset_lists_cleared [of 0 _ ?rc0]
  have t1: "last_vertex ?t1 = None" by (simp add: tr_reset_def)
  have rc2: "rc_num_surfs ?rc2 = 0" "rc_num_verts ?rc2 = 0" "rc_num_indices ?rc2 = 0"
    "rc_verts ?rc2 = rc_verts rc"
    "num_surfs (rc_lists ?rc2 0) = 0" "num_surfs (rc_lists ?rc2 1) = 0"
    "num_surfs (rc_lists ?rc2 2) = 0" "num_surfs (rc_lists ?rc2 3) = 0"
    "num_surfs (rc_lists ?rc2 4) = 0"
    using rs by (simp_all add: tr_reset_def ta_list_defs)
  from parse_bg_blank [OF rc2(1,2,5), of ?t1]
  obtain t2 rc3 where bg: "tr_parse_bg small_env ?t1 one_vertex_ctx ?rc2 = Inr (t2, rc3)"
    and t2: "list_type t2 = TA_NUM_LISTS" "last_vertex t2 = last_vertex ?t1"
    and rc3: "rc_num_surfs rc3 = 1" "rc_num_verts rc3 = 4"
      "rc_num_indices rc3 = rc_num_indices ?rc2" "rc_verts rc3 5 = rc_verts ?rc2 5"
      "num_surfs (rc_lists rc3 0) = 1" "surfs (rc_lists rc3 0) 0 = 0"
      "\<forall>k. k \<noteq> 0 \<longrightarrow> num_surfs (rc_lists rc3 k) = num_surfs (rc_lists ?rc2 k)"
      "num_verts (rc_surfs rc3 0) = 4" "first_vert (rc_surfs rc3 0) = 0"
      "strip_offset (rc_surfs rc3 0) = 0"
    by blast
  have lv: "last_vertex t2 = None" using t2(2) t1 by simp
  from parse_params_one_vertex [OF t2(1) lv rc3(1,2)]
  obtain t3 rc4 where pp: "parse_params small_env one_vertex_ctx 0 t2 rc3 = Some (Inr (t3, rc4))"
    and rc4: "rc_num_surfs rc4 = 1" "rc_num_verts rc4 = 6"
      "rc_num_indices rc4 = rc_num_indices rc3" "rc_verts rc4 5 = rc_verts rc3 5"
      "xyz (rc_verts rc4 4) = (Finite 1, Finite 2, Finite 3)"
      "rc_surfs rc4 0 = rc_surfs rc3 0"
      "\<forall>k. num_surfs (rc_lists rc4 k) = num_surfs (rc_lists rc3 k)"
      "\<forall>k. surfs (rc_lists rc4 k) = surfs (rc_lists rc3 k)"
    by blast
  have g: "num_surfs (rc_lists rc4 0) = 1" "surfs (rc_lists rc4 0) 0 = 0"
    "num_verts (rc_surfs rc4 0) = 4" "first_vert (rc_surfs rc4 0) = 0"
    "strip_offset (rc_surfs rc4 0) = 0" "rc_num_indices rc4 = 0"
    "num_surfs (rc_lists rc4 1) = 0" "num_surfs (rc_lists rc4 2) = 0"
    "num_surfs (rc_lists rc4 3) = 0" "num_surfs (rc_lists rc4 4) = 0"
    using rc4 rc3 rc2 by simp_all
  from generate_all_background_only [OF g]
  obtain rc7 where gen: "generate_all small_env 0 rc4 = Inr rc7"
    and rc7: "rc_verts rc7 = rc_verts rc4" "rc_num_verts rc7 = rc_num_verts rc4"
      "rc_num_surfs rc7 = rc_num_surfs rc4" "rc_num_indices rc7 = 6"
      "num_surfs (rc_lists rc7 0) = 1" "num_surfs (rc_lists rc7 2) = 0"
    by blast
  have no_sort: "\<not> ctx_autosort one_vertex_ctx" by (simp add: one_vertex_ctx_def blank_ctx_def)
  have run: "tr_convert_context small_env r u mz0 one_vertex_ctx rc
      = Some (Inr (tr_r t3, tr_userdata t3, mz0, rc7))"
    unfolding tr_convert_context_def Let_def split_def
    by (simp add: bg pp gen no_sort)
  show ?thesis
    unfolding run using rc7 rc4 rc3 rc2 by (simp add: ta_list_defs)
qed

text \<open>
  Claim C10. \<^verbatim>\<open>tr_convert_context\<close> starts with \<^verbatim>\<open>tr_reset\<close>, which does reset every
  counter (\<open>tr_reset_counters\<close>); the claim concludes that the counts and the contents
  of the arrays within the counts do not depend on what the render context held before.
  For a translucent strip of a single vertex they do: the commit runs no round of its
  loop and then advances the vertex count by two, so the context counts a vertex that
  the conversion never wrote. On the input \<^const>\<open>one_vertex_ctx\<close> every conversion
  returns with six vertices, of which vertex 5 is the one the context held before; two
  conversions into contexts that differ there give different vertex arrays.
\<close>

theorem convert_keeps_stale_vertex:
  "(\<forall>r u mz0 rc. \<exists>r' u' mz' rc'.
      tr_convert_context small_env r u mz0 one_vertex_ctx rc = Some (Inr (r', u', mz', rc'))
      \<and> rc_num_verts rc' = 6 \<and> rc_verts rc' 5 = rc_verts rc 5)
   \<and> (\<exists>r1 u1 mz1 rc1 r2 u2 mz2 rc2.
        tr_convert_context small_env [] (\<lambda>k. None) (\<lambda>s. Finite 0) one_vertex_ctx blank_rc
          = Some (Inr (r1, u1, mz1, rc1))
      \<and> tr_convert_context small_env [] (\<lambda>k. None) (\<lambda>s. Finite 0) one_vertex_ctx used_rc
          = Some (Inr (r2, u2, mz2, rc2))
      \<and> rc_num_verts rc1 = 6 \<and> rc_num_verts rc2 = 6
      \<and> xyz (rc_verts rc1 5) = (Finite 0, Finite 0, Finite 0)
      \<and> xyz (rc_verts rc2 5) = (Finite 9, Finite 9, Finite 9))"
proof (rule conjI)
  show "\<forall>r u mz0 rc. \<exists>r' u' mz' rc'.
      tr_convert_context small_env r u mz0 one_vertex_ctx rc = Some (Inr (r', u', mz', rc'))
      \<and> rc_num_verts rc' = 6 \<and> rc_verts rc' 5 = rc_verts rc 5"
    using convert_one_vertex by blast
  from convert_one_vertex [of "[]" "\<lambda>k. None" "\<lambda>s. Finite 0" blank_rc]
  obtain r1 u1 mz1 rc1 where a:
    "tr_convert_context small_env [] (\<lambda>k. None) (\<lambda>s. Finite 0) one_vertex_ctx blank_rc
          = Some (Inr (r1, u1, mz1, rc1))"
    "rc_num_verts rc1 = 6" "rc_verts rc1 5 = rc_verts blank_rc 5"
    by blast
  from convert_one_vertex [of "[]" "\<lambda>k. None" "\<lambda>s. Finite 0" used_rc]
  obtain r2 u2 mz2 rc2 where b:
    "tr_convert_context small_env [] (\<lambda>k. None) (\<lambda>s. Finite 0) one_vertex_ctx used_rc
          = Some (Inr (r2, u2, mz2, rc2))"
    "rc_num_verts rc2 = 6" "rc_verts rc2 5 = rc_verts used_rc 5"
    by blast
  have "xyz (rc_verts rc1 5) = (Finite 0, Finite 0, Finite 0)"
    "xyz (rc_verts rc2 5) = (Finite 9, Finite 9, Finite 9)"
    using a(3) b(3) by (simp_all add: blank_rc_def used_rc_def zero_vertex_def)
  with a b show "\<exists>r1 u1 mz1 rc1 r2 u2 mz2 rc2.
        tr_convert_context small_env [] (\<lambda>k. None) (\<lambda>s. Finite 0) one_vertex_ctx blank_rc
          = Some (Inr (r1, u1, mz1, rc1))
      \<and> tr_convert_context small_env [] (\<lambda>k. None) (\<lambda>s. Finite 0) one_vertex_ctx used_rc
          = Some (Inr (r2, u2, mz2, rc2))
      \<and> rc_num_verts rc1 = 6 \<and> rc_num_verts rc2 = 6
      \<and> xyz (rc_verts rc1 5) = (Finite 0, Finite 0, Finite 0)
      \<and> xyz (rc_verts rc2 5) = (Finite 9, Finite 9, Finite 9)"
    by blast
qed


end
